(* ===== verification/Prelude.thy ===== *)
theory Prelude
  imports Main "HOL-Library.Word"
begin

text \<open>
  Shared vocabulary of the development: bytes, addresses, the faults that stand for a
  crash, an assertion failure or an exception of the C++ code, the result type of fallible
  operations and its sequencing operator, and the generic lemmas on words and byte lists
  that the components use.
\<close>

unbundle bit_operations_syntax

subsection \<open>Names of the model's types\<close>

type_synonym byte = "8 word"
type_synonym bytes = "8 word list"
type_synonym uint32 = "32 word"
type_synonym uint64 = "64 word"
type_synonym int32 = "32 word" \<comment> \<open>two's complement, read with \<open>sint\<close>\<close>
type_synonym int64 = "64 word" \<comment> \<open>two's complement, read with \<open>sint\<close>\<close>
type_synonym ptr = nat \<comment> \<open>an address; 0 is the null pointer\<close>

abbreviation (input) NULL :: ptr where
  "NULL \<equiv> 0"

named_theorems res_simps \<open>evaluation of sequenced fallible operations\<close>
named_theorems word_bytes \<open>conversion between words and their bytes in memory\<close>

subsection \<open>Faults and results\<close>

text \<open>
  A fault is a way in which the C++ code does not return normally: undefined behaviour
  (a null or dangling pointer, a second release, an uninitialised value, signed overflow,
  an index out of range), a failed \<open>assert\<close> or \<open>GOOGLE_CHECK\<close>, or a thrown \<open>NetErr\<close>.
\<close>

datatype fault =
    Null_deref
  | Use_after_free
  | Double_free
  | Uninitialised
  | Signed_overflow
  | Out_of_bounds
  | Assertion_failed
  | Check_failed string
  | Net_err string

type_synonym 'a res = "fault + 'a"

definition bind_res :: "'e + 'a \<Rightarrow> ('a \<Rightarrow> 'e + 'b) \<Rightarrow> 'e + 'b" where
  "bind_res r f = (case r of Inl e \<Rightarrow> Inl e | Inr x \<Rightarrow> f x)"

lemma bind_res_Inl [simp, res_simps]: "bind_res (Inl e) f = Inl e"
  by (simp add: bind_res_def)

lemma bind_res_Inr [simp, res_simps]: "bind_res (Inr x) f = f x"
  by (simp add: bind_res_def)

lemma bind_res_eq_Inr:
  "bind_res r f = Inr y \<longleftrightarrow> (\<exists>x. r = Inr x \<and> f x = Inr y)"
  by (cases r) auto

lemma bind_res_assoc: "bind_res (bind_res r f) g = bind_res r (\<lambda>x. bind_res (f x) g)"
  by (cases r) auto

lemma bind_res_cong [fundef_cong]:
  "r = r' \<Longrightarrow> (\<And>x. r' = Inr x \<Longrightarrow> f x = f' x) \<Longrightarrow> bind_res r f = bind_res r' f'"
  by (cases r') auto

text \<open>The same for operations that may also not return, which is the value \<open>None\<close>.\<close>

definition bind_ro :: "'a res option \<Rightarrow> ('a \<Rightarrow> 'b res option) \<Rightarrow> 'b res option" where
  "bind_ro r f = (case r of None \<Rightarrow> None | Some (Inl e) \<Rightarrow> Some (Inl e) | Some (Inr x) \<Rightarrow> f x)"

lemma bind_ro_simps [simp, res_simps]:
  "bind_ro None f = None" "bind_ro (Some (Inl e)) f = Some (Inl e)" "bind_ro (Some (Inr x)) f = f x"
  by (simp_all add: bind_ro_def)

lemma bind_ro_eq_Inr:
  "bind_ro r f = Some (Inr y) \<longleftrightarrow> (\<exists>x. r = Some (Inr x) \<and> f x = Some (Inr y))"
  by (auto simp: bind_ro_def split: option.splits sum.splits)

text \<open>Dereference of a pointer into a heap of objects.\<close>

definition deref :: "(ptr \<rightharpoonup> 'a) \<Rightarrow> ptr \<Rightarrow> 'a res" where
  "deref h p = (if p = NULL then Inl Null_deref
                else case h p of None \<Rightarrow> Inl Use_after_free | Some x \<Rightarrow> Inr x)"

lemma deref_Some [simp, res_simps]: "h p = Some x \<Longrightarrow> p \<noteq> NULL \<Longrightarrow> deref h p = Inr x"
  by (simp add: deref_def)

lemma deref_NULL [simp, res_simps]: "deref h NULL = Inl Null_deref"
  by (simp add: deref_def)

lemma deref_dangling [simp, res_simps]: "p \<noteq> NULL \<Longrightarrow> h p = None \<Longrightarrow> deref h p = Inl Use_after_free"
  by (simp add: deref_def)

lemma deref_eq_Inr: "deref h p = Inr x \<longleftrightarrow> p \<noteq> NULL \<and> h p = Some x"
  by (auto simp: deref_def split: option.splits)

subsection \<open>Words and their bytes in memory\<close>

text \<open>
  The library is built for a little-endian machine: the object representation of an
  integer lists its bytes from the least significant one.
\<close>

definition mem_of_word :: "'a::len word \<Rightarrow> bytes" where
  "mem_of_word w = map (\<lambda>i. ucast (drop_bit (8 * i) w)) [0..<LENGTH('a) div 8]"

primrec word_of_mem :: "bytes \<Rightarrow> 'a::len word" where
  "word_of_mem [] = 0"
| "word_of_mem (b # bs) = ucast b OR push_bit 8 (word_of_mem bs)"

lemma length_mem_of_word [simp, word_bytes]:
  "length (mem_of_word (w :: 'a::len word)) = LENGTH('a) div 8"
  by (simp add: mem_of_word_def)

lemma bit_word_of_mem [word_bytes]:
  "bit (word_of_mem bs :: 'a::len word) n \<longleftrightarrow>
     n < LENGTH('a) \<and> n div 8 < length bs \<and> bit (bs ! (n div 8)) (n mod 8)"
proof (induction bs arbitrary: n)
  case Nil
  then show ?case by simp
next
  case (Cons b bs)
  show ?case
  proof (cases "n < 8")
    case True
    then show ?thesis
      by (auto simp: bit_simps dest: bit_imp_le_length)
  next
    case False
    then obtain m where m: "n = m + 8"
      by (metis add.commute le_Suc_ex not_less)
    have "\<not> bit b n"
      using False by (auto dest: bit_imp_le_length)
    moreover have "(m + 8) div 8 = Suc (m div 8)"
      by simp
    ultimately show ?thesis
      using Cons.IH [of m] m by (auto simp: bit_simps dest: bit_imp_le_length)
  qed
qed

lemma bit_mem_of_word [word_bytes]:
  assumes "i < LENGTH('a) div 8"
  shows "bit (mem_of_word (w :: 'a::len word) ! i) n \<longleftrightarrow> n < 8 \<and> bit w (8 * i + n)"
  using assms by (auto simp: mem_of_word_def bit_simps dest: bit_imp_le_length)

text \<open>Reading back what was stored, and storing what was read.\<close>

lemma word_of_mem_of_word [simp, word_bytes]:
  assumes "8 dvd LENGTH('a)"
  shows "word_of_mem (mem_of_word w) = (w :: 'a::len word)"
proof (rule bit_word_eqI)
  fix n
  assume n: "n < LENGTH('a)"
  then have "n div 8 < LENGTH('a) div 8"
    using assms by (auto elim!: dvdE)
  then show "bit (word_of_mem (mem_of_word w) :: 'a word) n = bit w n"
    using n by (simp add: word_bytes)
qed

lemma mem_of_word_of_mem [simp, word_bytes]:
  assumes "8 dvd LENGTH('a)" and "length bs = LENGTH('a) div 8"
  shows "mem_of_word (word_of_mem bs :: 'a::len word) = bs"
proof (rule nth_equalityI)
  show "length (mem_of_word (word_of_mem bs :: 'a word)) = length bs"
    using assms by simp
next
  fix i
  assume "i < length (mem_of_word (word_of_mem bs :: 'a word))"
  then have i: "i < LENGTH('a) div 8"
    by simp
  show "mem_of_word (word_of_mem bs :: 'a word) ! i = bs ! i"
  proof (rule bit_word_eqI)
    fix n
    assume "n < LENGTH(8)"
    moreover from this i assms have "8 * i + n < LENGTH('a)"
      by (auto elim!: dvdE)
    ultimately show "bit (mem_of_word (word_of_mem bs :: 'a word) ! i) n = bit (bs ! i) n"
      using i assms by (simp add: bit_mem_of_word bit_word_of_mem)
  qed
qed

lemma mem_of_word_inject:
  "8 dvd LENGTH('a) \<Longrightarrow> mem_of_word v = mem_of_word (w :: 'a::len word) \<longleftrightarrow> v = w"
  by (metis word_of_mem_of_word)

text \<open>The byte-swapping conversions of the C library on a little-endian machine.\<close>

definition bswap :: "'a::len word \<Rightarrow> 'a word" where
  "bswap w = word_of_mem (rev (mem_of_word w))"

lemma bswap_bswap [simp]:
  "8 dvd LENGTH('a) \<Longrightarrow> bswap (bswap w) = (w :: 'a::len word)"
  by (simp add: bswap_def)

lemma mem_of_word_bswap [simp, word_bytes]:
  "8 dvd LENGTH('a) \<Longrightarrow> mem_of_word (bswap (w :: 'a::len word)) = rev (mem_of_word w)"
  by (simp add: bswap_def)

lemma mem_of_word32:
  "mem_of_word (w :: uint32) =
     [ucast w, ucast (drop_bit 8 w), ucast (drop_bit 16 w), ucast (drop_bit 24 w)]"
  by (simp add: mem_of_word_def upt_conv_Cons)

subsection \<open>Unsigned and signed readings of small words\<close>

lemma sint_less_half:
  assumes "uint (w :: uint32) < 2 ^ 31"
  shows "sint w = uint w"
  using assms by (simp add: sint_uint signed_take_bit_int_eq_self_iff order_trans [of _ 0])

lemma unat_of_nat32: "n < 2 ^ 32 \<Longrightarrow> unat (of_nat n :: uint32) = n"
  by (simp add: unat_of_nat take_bit_nat_eq_self)

lemma unat_of_nat64: "n < 2 ^ 64 \<Longrightarrow> unat (of_nat n :: uint64) = n"
  by (simp add: unat_of_nat take_bit_nat_eq_self)

lemma sint_of_nat32: "n < 2 ^ 31 \<Longrightarrow> sint (of_nat n :: uint32) = int n"
  by (subst sint_less_half) (auto simp: uint_nat unat_of_nat32)

text \<open>
  Addition of signed integers, which is undefined when it overflows; and a natural number as
  an \<open>int\<close>, with the same fault when it is too large.
\<close>

definition signed_add :: "'a::len word \<Rightarrow> 'a word \<Rightarrow> 'a word res" where
  "signed_add x y =
     (if sint x + sint y = sint (x + y) then Inr (x + y) else Inl Signed_overflow)"

definition int_total :: "nat \<Rightarrow> int32 res" where
  "int_total n = (if n < 2 ^ 31 then Inr (of_nat n) else Inl Signed_overflow)"

lemma signed_add_of_nat:
  assumes "a < 2 ^ 31" and "b < 2 ^ 31"
  shows "signed_add (of_nat a) (of_nat b) = int_total (a + b)"
proof (cases "a + b < 2 ^ 31")
  case True
  then show ?thesis
    using assms sint_of_nat32 [of "a + b"] by (simp add: signed_add_def int_total_def sint_of_nat32)
next
  case False
  moreover have "sint (of_nat a + of_nat b :: int32) < 2 ^ 31"
    using sint_lt [of "of_nat a + of_nat b :: int32"] by simp
  ultimately show ?thesis
    using assms by (simp add: signed_add_def int_total_def sint_of_nat32)
qed

lemma sint_unat_small: "unat (w :: uint32) < 2 ^ 31 \<Longrightarrow> sint w = int (unat w)"
  by (subst sint_less_half) (simp_all add: uint_nat del: of_nat_unat)

lemma unat_scast_small:
  assumes "unat (w :: uint32) < 2 ^ 31"
  shows "unat (scast w :: uint64) = unat w"
proof -
  have "(scast w :: uint64) = of_nat (unat w)"
    by (metis assms of_int_sint of_int_of_nat_eq sint_unat_small)
  then show ?thesis
    using assms by (simp add: unat_of_nat take_bit_nat_eq_self del: of_nat_unat)
qed

lemma ucast_of_nat_64_32 [simp]: "(ucast (of_nat n :: uint64) :: uint32) = of_nat n"
  by (simp add: unsigned_of_nat word_of_nat_eq_iff)

lemma and_mask_zero: "w AND mask k = 0 \<Longrightarrow> n < k \<Longrightarrow> \<not> bit (w :: 'a::len word) n"
  by (metis bit_0_eq bit_and_iff bit_mask_iff bit_imp_le_length bot_apply bot_bool_def possible_bit_word)

subsection \<open>Byte lists\<close>

lemma take_drop_split: "n \<le> length xs \<Longrightarrow> xs = ys @ zs \<Longrightarrow> length ys = n \<Longrightarrow> take n xs = ys \<and> drop n xs = zs"
  by simp

lemma take_append_eq [simp]: "length ys = n \<Longrightarrow> take n (ys @ zs) = ys"
  by simp

lemma drop_append_eq [simp]: "length ys = n \<Longrightarrow> drop n (ys @ zs) = zs"
  by simp

end
