(* ===== verification/Endian.thy ===== *)
theory Endian
  imports Prelude
begin

text \<open>
  \<open>include/ev_endian.h\<close> (namespace \<open>mRpc::sockets\<close>): conversions between host and network
  byte order. The \<open>htobe\<close> and \<open>betoh\<close> functions of the C library swap the bytes on a
  little-endian machine.
\<close>

definition hostToNetwork64 :: "uint64 \<Rightarrow> uint64" where
  "hostToNetwork64 host64 = bswap host64"

definition hostToNetwork32 :: "uint32 \<Rightarrow> uint32" where
  "hostToNetwork32 host32 = bswap host32"

definition hostToNetwork16 :: "16 word \<Rightarrow> 16 word" where
  "hostToNetwork16 host16 = bswap host16"

definition networkToHost64 :: "uint64 \<Rightarrow> uint64" where
  "networkToHost64 net64 = bswap net64"

definition networkToHost32 :: "uint32 \<Rightarrow> uint32" where
  "networkToHost32 net32 = bswap net32"

definition networkToHost16 :: "16 word \<Rightarrow> 16 word" where
  "networkToHost16 net16 = bswap net16"

lemmas endian_defs =
  hostToNetwork64_def hostToNetwork32_def hostToNetwork16_def
  networkToHost64_def networkToHost32_def networkToHost16_def

subsection \<open>The contract of a byte-order conversion\<close>

text \<open>
  A pair of conversions is lawful when each undoes the other and the network form lies in
  memory most significant byte first.
\<close>

locale byte_order =
  fixes to_net :: "'a::len word \<Rightarrow> 'a word"
    and from_net :: "'a word \<Rightarrow> 'a word"
  assumes from_to: "from_net (to_net w) = w"
    and to_from: "to_net (from_net w) = w"
    and big_endian: "mem_of_word (to_net w) = rev (mem_of_word w)"
    and width: "8 dvd LENGTH('a)"
begin

lemma to_net_inject: "to_net v = to_net w \<longleftrightarrow> v = w"
  by (metis from_to)

lemma load_store: "from_net (word_of_mem (mem_of_word (to_net w))) = w"
  by (simp add: width from_to)

lemma most_significant_first: "mem_of_word (to_net w) ! 0 = last (mem_of_word w)"
proof -
  have "0 < LENGTH('a) div 8"
    using width by (simp add: div_greater_zero_iff dvd_imp_le)
  then have "mem_of_word w \<noteq> []"
    by (metis length_greater_0_conv length_mem_of_word)
  then show ?thesis
    by (metis big_endian hd_conv_nth hd_rev rev_is_Nil_conv)
qed

end

interpretation net64: byte_order hostToNetwork64 networkToHost64
  by unfold_locales (simp_all add: endian_defs)

interpretation net32: byte_order hostToNetwork32 networkToHost32
  by unfold_locales (simp_all add: endian_defs)

interpretation net16: byte_order hostToNetwork16 networkToHost16
  by unfold_locales (simp_all add: endian_defs)

end
