(* ===== verification/Atomic.thy ===== *)
theory Atomic
  imports Prelude
begin

text \<open>
  \<open>include/atomic.h\<close>: the integer with atomic operations. The state is the one field
  \<open>value_\<close>, a word of the template's width; an operation returns its result and the new
  state. The \<open>__sync\<close> builtins wrap around; the sum \<open>getAndAdd(x) + x\<close> of \<open>addAndGet\<close>
  is an ordinary signed addition, which is undefined when it overflows.
\<close>

record (overloaded) 'a AtomicIntegerT =
  value_f :: "'a::len word"

definition AtomicIntegerT_init :: "'a::len AtomicIntegerT" where
  "AtomicIntegerT_init = \<lparr>value_f = 0\<rparr>"

definition sync_val_compare_and_swap ::
  "'a::len word \<Rightarrow> 'a word \<Rightarrow> 'a AtomicIntegerT \<Rightarrow> 'a word \<times> 'a AtomicIntegerT" where
  "sync_val_compare_and_swap old new a =
     (value_f a, if value_f a = old then a\<lparr>value_f := new\<rparr> else a)"

definition get :: "'a::len AtomicIntegerT \<Rightarrow> 'a word \<times> 'a AtomicIntegerT" where
  "get a = sync_val_compare_and_swap 0 0 a"

definition getAndAdd :: "'a::len word \<Rightarrow> 'a AtomicIntegerT \<Rightarrow> 'a word \<times> 'a AtomicIntegerT" where
  "getAndAdd x a = (value_f a, a\<lparr>value_f := value_f a + x\<rparr>)"

definition addAndGet ::
  "'a::len word \<Rightarrow> 'a AtomicIntegerT \<Rightarrow> ('a word \<times> 'a AtomicIntegerT) res" where
  "addAndGet x a =
     (let (old, a') = getAndAdd x a
      in bind_res (signed_add old x) (\<lambda>v. Inr (v, a')))"

definition incrementAndGet :: "'a::len AtomicIntegerT \<Rightarrow> ('a word \<times> 'a AtomicIntegerT) res" where
  "incrementAndGet a = addAndGet 1 a"

definition decrementAndGet :: "'a::len AtomicIntegerT \<Rightarrow> ('a word \<times> 'a AtomicIntegerT) res" where
  "decrementAndGet a = addAndGet (- 1) a"

definition add :: "'a::len word \<Rightarrow> 'a AtomicIntegerT \<Rightarrow> 'a AtomicIntegerT" where
  "add x a = snd (getAndAdd x a)"

definition increment :: "'a::len AtomicIntegerT \<Rightarrow> 'a AtomicIntegerT res" where
  "increment a = bind_res (incrementAndGet a) (\<lambda>(_, a'). Inr a')"

definition decrement :: "'a::len AtomicIntegerT \<Rightarrow> 'a AtomicIntegerT res" where
  "decrement a = bind_res (decrementAndGet a) (\<lambda>(_, a'). Inr a')"

definition getAndSet :: "'a::len word \<Rightarrow> 'a AtomicIntegerT \<Rightarrow> 'a word \<times> 'a AtomicIntegerT" where
  "getAndSet newValue a = (value_f a, a\<lparr>value_f := newValue\<rparr>)"

lemmas atomic_defs =
  AtomicIntegerT_init_def sync_val_compare_and_swap_def get_def getAndAdd_def signed_add_def
  addAndGet_def incrementAndGet_def decrementAndGet_def add_def increment_def decrement_def
  getAndSet_def

text \<open>Several threads taking tickets: each step of the interleaving is one \<open>incrementAndGet\<close>.\<close>

fun tickets :: "nat \<Rightarrow> 'a::len AtomicIntegerT \<Rightarrow> ('a word list \<times> 'a AtomicIntegerT) res" where
  "tickets 0 a = Inr ([], a)"
| "tickets (Suc n) a =
     bind_res (incrementAndGet a) (\<lambda>(v, a').
     bind_res (tickets n a') (\<lambda>(vs, a''). Inr (v # vs, a'')))"

lemma get_pure: "get a = (value_f a, a)"
  by (simp add: atomic_defs)

lemma signed_add_Inr: "signed_add x y = Inr z \<Longrightarrow> z = x + y \<and> sint z = sint x + sint y"
  by (auto simp: signed_add_def split: if_splits)

lemma signed_add_one:
  assumes "sint (x :: 'a::len word) < 2 ^ (LENGTH('a) - 1) - 1" and "2 \<le> LENGTH('a)"
  shows "signed_add x 1 = Inr (x + 1)" and "sint (x + 1) = sint x + 1"
proof -
  have one: "sint (1 :: 'a word) = 1"
    using assms(2) by simp
  have "- (2 ^ (LENGTH('a) - 1)) \<le> sint x"
    by (rule sint_ge)
  then have "signed_take_bit (LENGTH('a) - 1) (sint x + 1) = sint x + 1"
    using assms(1) by (intro signed_take_bit_int_eq_self) auto
  then show s: "sint (x + 1) = sint x + 1"
    using assms(2) by (simp add: sint_word_ariths one)
  show "signed_add x 1 = Inr (x + 1)"
    using assms(2) by (simp add: signed_add_def s one)
qed

lemma incrementAndGet_ok:
  assumes "sint (value_f (a :: 'a::len AtomicIntegerT)) < 2 ^ (LENGTH('a) - 1) - 1"
    and "2 \<le> LENGTH('a)"
  shows "incrementAndGet a = Inr (value_f a + 1, a\<lparr>value_f := value_f a + 1\<rparr>)"
  using assms by (simp add: incrementAndGet_def addAndGet_def getAndAdd_def signed_add_one)

text \<open>
  C36. Tickets are never handed out twice: from any value, \<open>n\<close> calls of \<open>incrementAndGet\<close>,
  in whatever order the threads make them, return the \<open>n\<close> consecutive values after it, as
  long as the counter stays in the signed range; none of them repeats.
\<close>

theorem tickets_consecutive:
  fixes a :: "'a::len AtomicIntegerT"
  assumes "sint (value_f a) + int n < 2 ^ (LENGTH('a) - 1)" and "2 \<le> LENGTH('a)"
  shows "\<exists>vs a'. tickets n a = Inr (vs, a') \<and> distinct vs \<and>
     map sint vs = [sint (value_f a) + 1 .. sint (value_f a) + int n] \<and>
     sint (value_f a') = sint (value_f a) + int n"
  using assms(1)
proof (induction n arbitrary: a)
  case 0
  then show ?case by simp
next
  case (Suc n)
  let ?b = "a\<lparr>value_f := value_f a + 1\<rparr>"
  have lt: "sint (value_f a) < 2 ^ (LENGTH('a) - 1) - 1"
    using Suc.prems by simp
  then have b: "sint (value_f ?b) = sint (value_f a) + 1"
    using assms(2) by (simp add: signed_add_one)
  obtain vs a' where vs: "tickets n ?b = Inr (vs, a')"
      "map sint vs = [sint (value_f ?b) + 1 .. sint (value_f ?b) + int n]"
      "sint (value_f a') = sint (value_f ?b) + int n"
    using Suc.IH [of ?b] Suc.prems b by auto
  let ?vs = "(value_f a + 1) # vs"
  have m: "map sint ?vs = [sint (value_f a) + 1 .. sint (value_f a) + int (Suc n)]"
    using vs(2) b by (simp add: upto_rec1 algebra_simps)
  then have "distinct ?vs"
    by (metis distinct_map distinct_upto)
  moreover have "tickets (Suc n) a = Inr (?vs, a')"
    by (simp add: incrementAndGet_ok [OF lt assms(2)] vs(1))
  ultimately show ?case
    using m vs(3) b by (intro exI conjI) auto
qed

theorem tickets_consecutive_witness:
  "sint (value_f (AtomicIntegerT_init :: 32 AtomicIntegerT)) + int 3 < 2 ^ (LENGTH(32) - 1) \<and>
   (\<exists>vs a'. tickets 3 (AtomicIntegerT_init :: 32 AtomicIntegerT) = Inr (vs, a') \<and> distinct vs \<and>
     map sint vs = [1, 2, 3] \<and> sint (value_f a') = 3)"
proof -
  have "sint (value_f (AtomicIntegerT_init :: 32 AtomicIntegerT)) + int 3 < 2 ^ (LENGTH(32) - 1)"
    by (simp add: AtomicIntegerT_init_def)
  with tickets_consecutive [OF this] show ?thesis
    by (simp add: AtomicIntegerT_init_def upto_rec1)
qed

end
