(* ===== verification/Conn_Queue.thy ===== *)
theory Conn_Queue
  imports Prelude
begin

text \<open>
  \<open>src/tcpServer.h\<close>, classes \<open>Conn\<close> (the data) and \<open>ConnQueue\<close>: the doubly linked list of
  the connections of one event thread, between two sentinel nodes. The nodes live in a store
  of \<open>Conn\<close> objects with explicit addresses; an address is not reused after \<open>delete\<close>, so a
  dangling pointer is always seen. The list the nodes represent is the abstract state, and
  every operation is shown to act on it as on a list.
\<close>

subsection \<open>The objects\<close>

record Conn =
  conn_fd :: int
  conn_thread :: ptr
  conn_bev :: ptr
  conn_readBuf :: ptr
  conn_writeBuf :: ptr
  conn_pre :: ptr
  conn_next :: ptr

definition Conn_init :: "int \<Rightarrow> Conn" where
  "Conn_init fd = \<lparr>conn_fd = fd, conn_thread = NULL, conn_bev = NULL, conn_readBuf = NULL,
                   conn_writeBuf = NULL, conn_pre = NULL, conn_next = NULL\<rparr>"

record conn_store =
  cells :: "ptr \<rightharpoonup> Conn"
  next_addr :: ptr

record ConnQueue =
  total :: uint64
  head :: ptr
  tail :: ptr

text \<open>\<open>new Conn(fd)\<close>, \<open>delete p\<close> and the assignments through a pointer.\<close>

definition new_Conn :: "int \<Rightarrow> conn_store \<Rightarrow> ptr \<times> conn_store" where
  "new_Conn fd st =
     (next_addr st, st\<lparr>cells := (cells st)(next_addr st \<mapsto> Conn_init fd),
                       next_addr := Suc (next_addr st)\<rparr>)"

definition delete_Conn :: "ptr \<Rightarrow> conn_store \<Rightarrow> conn_store res" where
  "delete_Conn p st =
     (if p = NULL then Inr st
      else case cells st p of
        None \<Rightarrow> Inl Double_free
      | Some _ \<Rightarrow> Inr (st\<lparr>cells := (cells st)(p := None)\<rparr>))"

definition upd_Conn :: "ptr \<Rightarrow> (Conn \<Rightarrow> Conn) \<Rightarrow> conn_store \<Rightarrow> conn_store res" where
  "upd_Conn p f st =
     bind_res (deref (cells st) p) (\<lambda>c. Inr (st\<lparr>cells := (cells st)(p \<mapsto> f c)\<rparr>))"

definition get_next :: "ptr \<Rightarrow> conn_store \<Rightarrow> ptr res" where
  "get_next p st = bind_res (deref (cells st) p) (\<lambda>c. Inr (conn_next c))"

definition get_pre :: "ptr \<Rightarrow> conn_store \<Rightarrow> ptr res" where
  "get_pre p st = bind_res (deref (cells st) p) (\<lambda>c. Inr (conn_pre c))"

subsection \<open>The operations\<close>

definition ConnQueue_init :: "conn_store \<Rightarrow> (ConnQueue \<times> conn_store) res" where
  "ConnQueue_init st =
     (let (h, st) = new_Conn 0 st; (t, st) = new_Conn 0 st in
      bind_res (upd_Conn t (\<lambda>c. c\<lparr>conn_next := NULL\<rparr>) st) (\<lambda>st.
      bind_res (upd_Conn h (\<lambda>c. c\<lparr>conn_pre := NULL\<rparr>) st) (\<lambda>st.
      bind_res (upd_Conn h (\<lambda>c. c\<lparr>conn_next := t\<rparr>) st) (\<lambda>st.
      bind_res (upd_Conn t (\<lambda>c. c\<lparr>conn_pre := h\<rparr>) st) (\<lambda>st.
      Inr (\<lparr>total = 0, head = h, tail = t\<rparr>, st))))))"

definition getCount :: "ConnQueue \<Rightarrow> uint64" where
  "getCount q = total q"

definition insertConn ::
  "int \<Rightarrow> ptr \<Rightarrow> ConnQueue \<Rightarrow> conn_store \<Rightarrow> (ptr \<times> ConnQueue \<times> conn_store) res" where
  "insertConn fd t q st =
     (let (c, st) = new_Conn fd st in
      bind_res (upd_Conn c (\<lambda>k. k\<lparr>conn_thread := t\<rparr>) st) (\<lambda>st.
      bind_res (get_next (head q) st) (\<lambda>next.
      bind_res (upd_Conn c (\<lambda>k. k\<lparr>conn_pre := head q\<rparr>) st) (\<lambda>st.
      bind_res (get_next (head q) st) (\<lambda>hn.
      bind_res (upd_Conn c (\<lambda>k. k\<lparr>conn_next := hn\<rparr>) st) (\<lambda>st.
      bind_res (upd_Conn (head q) (\<lambda>k. k\<lparr>conn_next := c\<rparr>) st) (\<lambda>st.
      bind_res (upd_Conn next (\<lambda>k. k\<lparr>conn_pre := c\<rparr>) st) (\<lambda>st.
      Inr (c, q\<lparr>total := total q + 1\<rparr>, st)))))))))"

definition deleteConn ::
  "ptr \<Rightarrow> ConnQueue \<Rightarrow> conn_store \<Rightarrow> (ConnQueue \<times> conn_store) res" where
  "deleteConn conn q st =
     bind_res (get_pre conn st) (\<lambda>p.
     bind_res (get_next conn st) (\<lambda>n.
     bind_res (upd_Conn p (\<lambda>k. k\<lparr>conn_next := n\<rparr>) st) (\<lambda>st.
     bind_res (get_next conn st) (\<lambda>n.
     bind_res (get_pre conn st) (\<lambda>p.
     bind_res (upd_Conn n (\<lambda>k. k\<lparr>conn_pre := p\<rparr>) st) (\<lambda>st.
     bind_res (delete_Conn conn st) (\<lambda>st.
     Inr (q\<lparr>total := total q - 1\<rparr>, st))))))))"

text \<open>The destructor's loop; \<open>None\<close> means that it does not return.\<close>

partial_function (option) free_from :: "ptr \<Rightarrow> conn_store \<Rightarrow> conn_store res option" where
  "free_from tcur st =
     (if tcur = NULL then Some (Inr st)
      else case bind_res (get_next tcur st) (\<lambda>tnext.
                bind_res (delete_Conn tcur st) (\<lambda>st. Inr (tnext, st))) of
        Inl e \<Rightarrow> Some (Inl e)
      | Inr (tnext, st) \<Rightarrow> free_from tnext st)"

definition ConnQueue_destroy :: "ConnQueue \<Rightarrow> conn_store \<Rightarrow> conn_store res option" where
  "ConnQueue_destroy q st = free_from (head q) st"

subsection \<open>The list a queue represents\<close>

definition nxt :: "conn_store \<Rightarrow> ptr \<Rightarrow> ptr" where
  "nxt st p = (case cells st p of None \<Rightarrow> NULL | Some c \<Rightarrow> conn_next c)"

definition prv :: "conn_store \<Rightarrow> ptr \<Rightarrow> ptr" where
  "prv st p = (case cells st p of None \<Rightarrow> NULL | Some c \<Rightarrow> conn_pre c)"

fun linked :: "conn_store \<Rightarrow> ptr list \<Rightarrow> bool" where
  "linked st (a # b # zs) \<longleftrightarrow> nxt st a = b \<and> prv st b = a \<and> linked st (b # zs)"
| "linked st zs \<longleftrightarrow> True"

definition nodes :: "ConnQueue \<Rightarrow> ptr list \<Rightarrow> ptr list" where
  "nodes q xs = head q # xs @ [tail q]"

definition queue_rep :: "ConnQueue \<Rightarrow> conn_store \<Rightarrow> ptr list \<Rightarrow> bool" where
  "queue_rep q st xs \<longleftrightarrow>
     distinct (nodes q xs) \<and> NULL \<notin> set (nodes q xs) \<and>
     (\<forall>p \<in> set (nodes q xs). cells st p \<noteq> None) \<and>
     linked st (nodes q xs) \<and> prv st (head q) = NULL \<and> nxt st (tail q) = NULL \<and>
     total q = of_nat (length xs)"

definition store_ok :: "conn_store \<Rightarrow> bool" where
  "store_ok st \<longleftrightarrow> next_addr st \<noteq> NULL \<and> (\<forall>p. next_addr st \<le> p \<longrightarrow> cells st p = None)"

lemmas store_defs = new_Conn_def delete_Conn_def upd_Conn_def get_next_def get_pre_def

lemma linked_append: "linked st (as @ [p] @ bs) \<longleftrightarrow> linked st (as @ [p]) \<and> linked st (p # bs)"
  by (induction as rule: induct_list012) auto

lemma linked_cong:
  "(\<And>p. p \<in> set zs \<Longrightarrow> nxt st p = nxt st' p \<and> prv st p = prv st' p) \<Longrightarrow>
   linked st zs = linked st' zs"
  by (induction zs rule: induct_list012) auto

text \<open>Only the links between the nodes matter: the right link of the last node and the left
  link of the first one are free.\<close>

lemma linked_cong_inner:
  assumes "\<And>p. p \<in> set (butlast zs) \<Longrightarrow> nxt st p = nxt st' p"
    and "\<And>p. p \<in> set (tl zs) \<Longrightarrow> prv st p = prv st' p"
  shows "linked st zs = linked st' zs"
  using assms
proof (induction zs rule: induct_list012)
  case (3 a b zs)
  have "linked st (b # zs) = linked st' (b # zs)"
    using 3 by (intro "3.IH"(2)) auto
  with 3 show ?case by simp
qed auto

lemma queue_rep_cong:
  assumes "\<And>p. p \<in> set (nodes q xs) \<Longrightarrow> cells st' p = cells st p"
  shows "queue_rep q st' xs = queue_rep q st xs"
proof -
  have eq: "p \<in> set (nodes q xs) \<Longrightarrow> nxt st' p = nxt st p \<and> prv st' p = prv st p" for p
    using assms [of p] by (simp add: nxt_def prv_def)
  then have "linked st' (nodes q xs) = linked st (nodes q xs)"
    by (rule linked_cong)
  moreover have "prv st' (head q) = prv st (head q)" "nxt st' (tail q) = nxt st (tail q)"
    using eq by (simp_all add: nodes_def)
  ultimately show ?thesis
    using assms by (simp add: queue_rep_def)
qed

subsection \<open>Construction and insertion\<close>

lemma insertConn_eq:
  assumes rep: "queue_rep q st xs" and ok: "store_ok st" and zs: "xs @ [tail q] = n # zs"
  defines "c \<equiv> next_addr st"
  shows "\<exists>kh kn. cells st (head q) = Some kh \<and> cells st n = Some kn \<and>
    insertConn fd t q st = Inr (c, q\<lparr>total := total q + 1\<rparr>,
      st\<lparr>cells := (cells st)(c \<mapsto> (Conn_init fd)\<lparr>conn_thread := t, conn_pre := head q, conn_next := n\<rparr>,
                            head q \<mapsto> kh\<lparr>conn_next := c\<rparr>, n \<mapsto> kn\<lparr>conn_pre := c\<rparr>),
         next_addr := Suc c\<rparr>)"
proof -
  note R = rep [unfolded queue_rep_def nodes_def zs]
  have ne: "n \<noteq> head q" "n \<noteq> NULL" "head q \<noteq> NULL"
    using R by auto
  obtain kh kn where k: "cells st (head q) = Some kh" "cells st n = Some kn"
    using R by auto
  have nx: "conn_next kh = n"
    using R by (simp add: nxt_def k)
  have c: "c \<noteq> NULL" "c \<noteq> head q" "c \<noteq> n"
    using ok k by (auto simp: store_ok_def c_def)
  show ?thesis
    by (rule exI [where x = kh], rule exI [where x = kn])
      (use ne c in \<open>simp add: insertConn_def store_defs k nx c_def [symmetric] Conn_init_def fun_upd_twist\<close>)
qed

lemma insertConn_rep:
  assumes rep: "queue_rep q st xs" and ok: "store_ok st"
  shows "\<exists>q' st'. insertConn fd t q st = Inr (next_addr st, q', st') \<and>
     queue_rep q' st' (next_addr st # xs) \<and> store_ok st' \<and> next_addr st \<notin> set (nodes q xs) \<and>
     head q' = head q \<and> tail q' = tail q \<and> next_addr st' = Suc (next_addr st) \<and>
     (\<forall>p. p \<notin> set (nodes q xs) \<longrightarrow> p \<noteq> next_addr st \<longrightarrow> cells st' p = cells st p)"
proof -
  obtain n zs where zs: "xs @ [tail q] = n # zs"
    by (cases "xs @ [tail q]") auto
  let ?c = "next_addr st"
  obtain kh kn st' where k: "cells st (head q) = Some kh" "cells st n = Some kn"
    and ins: "insertConn fd t q st = Inr (?c, q\<lparr>total := total q + 1\<rparr>, st')"
    and st': "st' = st\<lparr>cells := (cells st)(?c \<mapsto> (Conn_init fd)\<lparr>conn_thread := t, conn_pre := head q, conn_next := n\<rparr>,
                            head q \<mapsto> kh\<lparr>conn_next := ?c\<rparr>, n \<mapsto> kn\<lparr>conn_pre := ?c\<rparr>),
         next_addr := Suc ?c\<rparr>"
    using insertConn_eq [OF rep ok zs, of fd t] by blast
  note R = rep [unfolded queue_rep_def nodes_def zs]
  have tl: "tail q \<in> set (n # zs)"
    by (simp flip: zs)
  have fresh: "?c \<notin> set (head q # n # zs)" "?c \<noteq> NULL"
    using R ok unfolding store_ok_def by auto
  have "linked st' (n # zs)"
    using R fresh
    by (subst linked_cong_inner [where st' = st]) (auto simp: st' nxt_def prv_def k split: if_splits dest: in_set_butlastD)
  then have L: "linked st' (head q # ?c # n # zs)"
    using R fresh by (auto simp: st' nxt_def prv_def)
  have rest: "prv st' (head q) = NULL" "nxt st' (tail q) = NULL"
    using R fresh tl k by (auto simp: st' nxt_def prv_def split: if_splits)
  have "queue_rep (q\<lparr>total := total q + 1\<rparr>) st' (?c # xs)"
    unfolding queue_rep_def nodes_def append_Cons ConnQueue.select_convs ConnQueue.update_convs
    using R fresh L rest zs by (auto simp: st' nodes_def)
  moreover have "store_ok st'"
    using ok fresh R k by (auto simp: store_ok_def st')
  moreover have "\<forall>p. p \<notin> set (nodes q xs) \<longrightarrow> p \<noteq> ?c \<longrightarrow> cells st' p = cells st p"
    unfolding nodes_def zs by (auto simp: st')
  moreover have "?c \<notin> set (nodes q xs)"
    unfolding nodes_def zs using fresh by simp
  ultimately show ?thesis
    using ins by (auto simp: st')
qed

subsection \<open>Removal\<close>

lemma deleteConn_eq:
  assumes rep: "queue_rep q st xs" and zs: "nodes q xs = us @ [p, c, n] @ vs"
  shows "\<exists>kp kn. cells st p = Some kp \<and> cells st n = Some kn \<and>
    deleteConn c q st = Inr (q\<lparr>total := total q - 1\<rparr>,
      st\<lparr>cells := (cells st)(p \<mapsto> kp\<lparr>conn_next := n\<rparr>, n \<mapsto> kn\<lparr>conn_pre := p\<rparr>, c := None)\<rparr>)"
proof -
  note R = rep [unfolded queue_rep_def zs]
  have ne: "p \<noteq> NULL" "c \<noteq> NULL" "n \<noteq> NULL" "p \<noteq> n" "p \<noteq> c" "n \<noteq> c"
    using R by auto
  obtain kp kc kn where k: "cells st p = Some kp" "cells st c = Some kc" "cells st n = Some kn"
    using R by auto
  have "linked st (p # c # n # vs)"
    using R linked_append [of st us p "[c, n] @ vs"] by simp
  then have l: "conn_pre kc = p" "conn_next kc = n"
    by (auto simp: nxt_def prv_def k)
  show ?thesis
    by (rule exI [where x = kp], rule exI [where x = kn])
      (use ne in \<open>simp add: deleteConn_def store_defs k l\<close>)
qed

lemma nodes_split:
  assumes "c \<in> set xs"
  obtains us p n vs as bs where "nodes q xs = us @ [p, c, n] @ vs" and "xs = as @ c # bs"
    and "nodes q (as @ bs) = us @ [p, n] @ vs"
proof -
  obtain as bs where xs: "xs = as @ c # bs"
    using assms by (meson split_list)
  let ?us = "butlast (head q # as)" and ?p = "last (head q # as)"
  obtain n vs where nv: "bs @ [tail q] = n # vs"
    by (cases "bs @ [tail q]") auto
  have "nodes q xs = (head q # as) @ c # (bs @ [tail q])"
    by (simp add: nodes_def xs)
  also have "head q # as = ?us @ [?p]"
    by simp
  finally have 1: "nodes q xs = ?us @ [?p, c, n] @ vs"
    by (simp only: nv append_assoc append_Cons append_Nil)
  have "nodes q (as @ bs) = (head q # as) @ (bs @ [tail q])"
    by (simp add: nodes_def)
  also have "head q # as = ?us @ [?p]"
    by simp
  finally have "nodes q (as @ bs) = ?us @ [?p, n] @ vs"
    by (simp only: nv append_assoc append_Cons append_Nil)
  with 1 xs show ?thesis by (rule that)
qed

lemma deleteConn_rep:
  assumes rep: "queue_rep q st xs" and c: "c \<in> set xs"
  shows "\<exists>q' st'. deleteConn c q st = Inr (q', st') \<and> queue_rep q' st' (remove1 c xs) \<and>
     head q' = head q \<and> tail q' = tail q \<and> next_addr st' = next_addr st \<and> cells st' c = None \<and>
     (\<forall>p. p \<notin> set (nodes q xs) \<longrightarrow> cells st' p = cells st p) \<and>
     (\<forall>p. p \<noteq> c \<longrightarrow> (cells st' p = None) = (cells st p = None))"
proof -
  obtain us p n vs as bs where zs: "nodes q xs = us @ [p, c, n] @ vs" and xs: "xs = as @ c # bs"
    and zs': "nodes q (as @ bs) = us @ [p, n] @ vs"
    by (rule nodes_split [OF c, where q = q])
  obtain kp kn st' where k: "cells st p = Some kp" "cells st n = Some kn"
    and del: "deleteConn c q st = Inr (q\<lparr>total := total q - 1\<rparr>, st')"
    and st': "st' = st\<lparr>cells := (cells st)(p \<mapsto> kp\<lparr>conn_next := n\<rparr>, n \<mapsto> kn\<lparr>conn_pre := p\<rparr>, c := None)\<rparr>"
    using deleteConn_eq [OF rep zs] by blast
  note R = rep [unfolded queue_rep_def zs]
  let ?q = "q\<lparr>total := total q - 1\<rparr>"
  have "distinct xs"
    using rep by (simp add: queue_rep_def nodes_def)
  then have rm: "remove1 c xs = as @ bs"
    by (simp add: xs remove1_append)
  have l: "linked st (us @ [p])" "linked st (n # vs)"
    using R linked_append [of st us p "[c, n] @ vs"] by simp_all
  have "linked st' (us @ [p])"
    using R l(1) by (subst linked_cong_inner [where st' = st])
      (auto simp: st' nxt_def prv_def k butlast_append tl_append split: list.splits if_splits)
  moreover have "linked st' (n # vs)"
    using R l(2) by (subst linked_cong_inner [where st' = st])
      (auto simp: st' nxt_def prv_def k split: if_splits dest: in_set_butlastD)
  moreover have "nxt st' p = n" "prv st' n = p"
    using R by (auto simp: st' nxt_def prv_def)
  ultimately have L: "linked st' (us @ [p, n] @ vs)"
    using linked_append [of st' us p "n # vs"] by simp
  have ht: "head q \<in> set (us @ [p])" "tail q \<in> set (n # vs)" "head q \<noteq> c" "tail q \<noteq> c"
  proof -
    show "head q \<in> set (us @ [p])"
      using zs by (cases us) (auto simp: nodes_def)
    show "tail q \<in> set (n # vs)"
      using arg_cong [OF zs, of last] by (auto simp: nodes_def split: if_splits)
    show "head q \<noteq> c" "tail q \<noteq> c"
      using rep c by (auto simp: queue_rep_def nodes_def)
  qed
  have rest: "prv st' (head q) = NULL" "nxt st' (tail q) = NULL"
    using R ht k by (auto simp: st' nxt_def prv_def split: if_splits)
  have "nodes ?q (as @ bs) = us @ [p, n] @ vs"
    using zs' by (simp add: nodes_def)
  then have "queue_rep ?q st' (as @ bs)"
    unfolding queue_rep_def using R L rest xs by (auto simp: st')
  then show ?thesis
    using del rm k R by (auto simp: st' zs)
qed

lemma store_ok_delete:
  assumes "store_ok st" and "next_addr st' = next_addr st"
    and "\<forall>p. p \<noteq> c \<longrightarrow> (cells st' p = None) = (cells st p = None)" and "cells st' c = None"
  shows "store_ok st'"
  using assms unfolding store_ok_def by metis

text \<open>A connection that was never inserted has null links: removing it dereferences them.\<close>

lemma deleteConn_unlinked:
  assumes "c \<noteq> NULL" and "cells st c = Some k" and "conn_pre k = NULL"
  shows "deleteConn c q st = Inl Null_deref"
  using assms by (simp add: deleteConn_def store_defs)

text \<open>What a node holds besides its links: insertion and removal leave it alone.\<close>

definition conn_data :: "Conn \<Rightarrow> int \<times> ptr \<times> ptr \<times> ptr \<times> ptr" where
  "conn_data k = (conn_fd k, conn_thread k, conn_bev k, conn_readBuf k, conn_writeBuf k)"

lemma insertConn_payload:
  assumes "queue_rep q st xs" and "store_ok st" and "insertConn fd t q st = Inr (c, q', st')"
  shows "c = next_addr st \<and> map_option conn_data (cells st' c) = Some (fd, t, NULL, NULL, NULL) \<and>
     (\<forall>p. p \<noteq> c \<longrightarrow> map_option conn_data (cells st' p) = map_option conn_data (cells st p))"
proof -
  obtain n zs where zs: "xs @ [tail q] = n # zs"
    by (cases "xs @ [tail q]") auto
  obtain kh kn where k: "cells st (head q) = Some kh" "cells st n = Some kn" and
      ins: "insertConn fd t q st = Inr (next_addr st, q\<lparr>total := total q + 1\<rparr>,
        st\<lparr>cells := (cells st)(next_addr st \<mapsto> (Conn_init fd)\<lparr>conn_thread := t, conn_pre := head q, conn_next := n\<rparr>,
                            head q \<mapsto> kh\<lparr>conn_next := next_addr st\<rparr>, n \<mapsto> kn\<lparr>conn_pre := next_addr st\<rparr>),
         next_addr := Suc (next_addr st)\<rparr>)"
    using insertConn_eq [OF assms(1,2) zs, of fd t] by blast
  have "cells st (next_addr st) = None"
    using assms(2) by (simp add: store_ok_def)
  then show ?thesis
    using assms(3) ins k by (auto simp: conn_data_def Conn_init_def)
qed

lemma deleteConn_payload:
  assumes "queue_rep q st xs" and "c \<in> set xs" and "deleteConn c q st = Inr (q', st')"
  shows "\<forall>p. p \<noteq> c \<longrightarrow> map_option conn_data (cells st' p) = map_option conn_data (cells st p)"
proof -
  obtain us p n vs as bs where zs: "nodes q xs = us @ [p, c, n] @ vs"
    by (rule nodes_split [OF assms(2), where q = q])
  from deleteConn_eq [OF assms(1) zs] assms(3) show ?thesis
    by (auto simp: conn_data_def)
qed

text \<open>A queue does not change when its nodes keep their links.\<close>

lemma queue_rep_links:
  assumes "\<And>p. p \<in> set (nodes q xs) \<Longrightarrow> cells st' p \<noteq> None \<and> nxt st' p = nxt st p \<and> prv st' p = prv st p"
    and "queue_rep q st xs"
  shows "queue_rep q st' xs"
proof -
  have "linked st' (nodes q xs)"
    using assms linked_cong [of "nodes q xs" st' st] by (simp add: queue_rep_def)
  then show ?thesis
    using assms by (auto simp: queue_rep_def nodes_def)
qed

subsection \<open>Construction and destruction\<close>

lemma ConnQueue_init_rep:
  assumes "store_ok st"
  shows "\<exists>q st'. ConnQueue_init st = Inr (q, st') \<and> queue_rep q st' [] \<and> store_ok st' \<and>
     head q = next_addr st \<and> tail q = Suc (next_addr st) \<and> next_addr st' = Suc (Suc (next_addr st)) \<and>
     (\<forall>p. p < next_addr st \<longrightarrow> cells st' p = cells st p)"
  using assms
  by (auto simp: ConnQueue_init_def store_defs Conn_init_def queue_rep_def nodes_def nxt_def prv_def
      store_ok_def)

lemma free_from_linked:
  assumes "distinct zs" and "NULL \<notin> set zs" and "\<forall>p \<in> set zs. cells st p \<noteq> None"
    and "linked st zs" and "zs \<noteq> [] \<longrightarrow> nxt st (last zs) = NULL"
  shows "\<exists>st'. free_from (case zs of [] \<Rightarrow> NULL | z # _ \<Rightarrow> z) st = Some (Inr st') \<and>
     (\<forall>p. cells st' p = (if p \<in> set zs then None else cells st p)) \<and> next_addr st' = next_addr st"
  using assms
proof (induction zs arbitrary: st)
  case Nil
  then show ?case by (simp add: free_from.simps)
next
  case (Cons z zs)
  let ?st = "st\<lparr>cells := (cells st)(z := None)\<rparr>" and ?n = "case zs of [] \<Rightarrow> NULL | y # _ \<Rightarrow> y"
  obtain k where k: "cells st z = Some k"
    using Cons.prems(3) by auto
  have "nxt st z = ?n"
    using Cons.prems(4,5) by (cases zs) auto
  then have kn: "conn_next k = ?n"
    by (simp add: nxt_def k)
  have step: "free_from z st = free_from ?n ?st"
    using Cons.prems(2) by (subst free_from.simps) (simp add: store_defs k kn)
  have "linked ?st zs"
  proof -
    have "linked st zs"
      using Cons.prems(4) by (cases zs) auto
    then show ?thesis
      using Cons.prems(1) by (subst linked_cong [where st' = st]) (auto simp: nxt_def prv_def)
  qed
  moreover have "zs \<noteq> [] \<longrightarrow> nxt ?st (last zs) = NULL"
    using Cons.prems(1,5) by (auto simp: nxt_def)
  moreover have "\<forall>p \<in> set zs. cells ?st p \<noteq> None"
    using Cons.prems(1,3) by auto
  ultimately obtain st' where st': "free_from ?n ?st = Some (Inr st')"
      "\<forall>p. cells st' p = (if p \<in> set zs then None else cells ?st p)" "next_addr st' = next_addr st"
    using Cons.IH [of ?st] Cons.prems(1,2) by auto
  then show ?case
    using step by (intro exI [where x = st']) auto
qed

subsection \<open>The registry a thread sees\<close>

text \<open>
  What the server relies on: a registry of connections behaves as the list of the live ones,
  the newest first. \<open>reg_run\<close> performs a sequence of operations; \<open>spec_run\<close> is the same
  sequence on the abstract list, where a removal must name a live connection.
\<close>

datatype reg_op = Ins int ptr | Del ptr

fun reg_run ::
  "(int \<Rightarrow> ptr \<Rightarrow> 'q \<Rightarrow> 'h \<Rightarrow> (ptr \<times> 'q \<times> 'h) res) \<Rightarrow> (ptr \<Rightarrow> 'q \<Rightarrow> 'h \<Rightarrow> ('q \<times> 'h) res) \<Rightarrow>
   reg_op list \<Rightarrow> 'q \<Rightarrow> 'h \<Rightarrow> ('q \<times> 'h) res" where
  "reg_run ins del [] q h = Inr (q, h)"
| "reg_run ins del (Ins fd t # ops) q h =
     bind_res (ins fd t q h) (\<lambda>(c, q, h). reg_run ins del ops q h)"
| "reg_run ins del (Del c # ops) q h =
     bind_res (del c q h) (\<lambda>(q, h). reg_run ins del ops q h)"

fun spec_run :: "reg_op list \<Rightarrow> ptr \<Rightarrow> ptr list \<Rightarrow> (ptr list \<times> ptr) option" where
  "spec_run [] n xs = Some (xs, n)"
| "spec_run (Ins fd t # ops) n xs = spec_run ops (Suc n) (n # xs)"
| "spec_run (Del c # ops) n xs = (if c \<in> set xs then spec_run ops n (remove1 c xs) else None)"

locale conn_registry =
  fixes ins :: "int \<Rightarrow> ptr \<Rightarrow> 'q \<Rightarrow> 'h \<Rightarrow> (ptr \<times> 'q \<times> 'h) res"
    and del :: "ptr \<Rightarrow> 'q \<Rightarrow> 'h \<Rightarrow> ('q \<times> 'h) res"
    and count :: "'q \<Rightarrow> uint64"
    and fresh :: "'h \<Rightarrow> ptr"
    and rep :: "'q \<Rightarrow> 'h \<Rightarrow> ptr list \<Rightarrow> bool"
  assumes ins_law: "rep q h xs \<Longrightarrow> \<exists>q' h'. ins fd t q h = Inr (fresh h, q', h') \<and>
        rep q' h' (fresh h # xs) \<and> fresh h' = Suc (fresh h)"
    and del_law: "rep q h xs \<Longrightarrow> c \<in> set xs \<Longrightarrow> \<exists>q' h'. del c q h = Inr (q', h') \<and>
        rep q' h' (remove1 c xs) \<and> fresh h' = fresh h"
    and count_law: "rep q h xs \<Longrightarrow> count q = of_nat (length xs)"
    and rep_distinct: "rep q h xs \<Longrightarrow> distinct xs"
begin

lemma run_refines:
  "rep q h xs \<Longrightarrow> spec_run ops (fresh h) xs = Some (ys, n) \<Longrightarrow>
   \<exists>q' h'. reg_run ins del ops q h = Inr (q', h') \<and> rep q' h' ys \<and> fresh h' = n \<and>
     count q' = of_nat (length ys)"
proof (induction ops arbitrary: q h xs)
  case Nil
  then show ?case by (auto dest: count_law)
next
  case (Cons x ops)
  show ?case
  proof (cases x)
    case (Ins fd t)
    obtain q1 h1 where 1: "ins fd t q h = Inr (fresh h, q1, h1)" "rep q1 h1 (fresh h # xs)"
        "fresh h1 = Suc (fresh h)"
      using ins_law [OF Cons.prems(1)] by blast
    with Cons.IH [OF 1(2)] Cons.prems(2) Ins show ?thesis by auto
  next
    case (Del c)
    with Cons.prems(2) have c: "c \<in> set xs"
      by (simp split: if_splits)
    obtain q1 h1 where 1: "del c q h = Inr (q1, h1)" "rep q1 h1 (remove1 c xs)" "fresh h1 = fresh h"
      using del_law [OF Cons.prems(1) c] by blast
    with Cons.IH [OF 1(2)] Cons.prems(2) Del c show ?thesis by auto
  qed
qed

end

definition queue_inv :: "ConnQueue \<Rightarrow> conn_store \<Rightarrow> ptr list \<Rightarrow> bool" where
  "queue_inv q st xs \<longleftrightarrow> queue_rep q st xs \<and> store_ok st"

interpretation cq: conn_registry insertConn deleteConn getCount next_addr queue_inv
proof (unfold_locales, goal_cases)
  case (1 q h xs fd t)
  then show ?case
    using insertConn_rep [of q h xs fd t] by (auto simp: queue_inv_def)
next
  case (2 q h xs c)
  then show ?case
    using deleteConn_rep [of q h xs c] store_ok_delete unfolding queue_inv_def by metis
next
  case (3 q h xs)
  then show ?case by (simp add: queue_inv_def queue_rep_def getCount_def)
next
  case (4 q h xs)
  then show ?case by (simp add: queue_inv_def queue_rep_def nodes_def)
qed

text \<open>
  C14. The linked list implements the abstract list of live connections: any sequence of
  insertions and removals of live connections, from a freshly constructed \<open>ConnQueue\<close>, runs
  without a fault, ends in nodes that represent exactly the list the same sequence gives
  (newest first), and \<open>getCount\<close> is its length.
\<close>

theorem ConnQueue_refines_list:
  assumes "store_ok st" and "ConnQueue_init st = Inr (q0, st0)"
    and "spec_run ops (next_addr st0) [] = Some (ys, n)"
  shows "\<exists>q st'. reg_run insertConn deleteConn ops q0 st0 = Inr (q, st') \<and>
     queue_rep q st' ys \<and> getCount q = of_nat (length ys)"
proof -
  have "queue_inv q0 st0 []"
    using ConnQueue_init_rep [OF assms(1)] assms(2) by (auto simp: queue_inv_def)
  from cq.run_refines [OF this assms(3)] show ?thesis
    by (auto simp: queue_inv_def)
qed

definition empty_store :: conn_store where
  "empty_store = \<lparr>cells = Map.empty, next_addr = 1\<rparr>"

lemma store_ok_empty [simp]: "store_ok empty_store"
  by (simp add: store_ok_def empty_store_def)

theorem ConnQueue_refines_list_witness:
  "\<exists>q0 st0 q st'. ConnQueue_init empty_store = Inr (q0, st0) \<and>
     spec_run [Ins 7 20, Ins 8 20, Del 3] (next_addr st0) [] = Some ([4], 5) \<and>
     reg_run insertConn deleteConn [Ins 7 20, Ins 8 20, Del 3] q0 st0 = Inr (q, st') \<and>
     queue_rep q st' [4] \<and> getCount q = 1"
proof -
  obtain q0 st0 where i: "ConnQueue_init empty_store = Inr (q0, st0)" "next_addr st0 = 3"
    using ConnQueue_init_rep [OF store_ok_empty] by (auto simp: empty_store_def)
  then have s: "spec_run [Ins 7 20, Ins 8 20, Del 3] (next_addr st0) [] = Some ([4], 5)"
    by simp
  from ConnQueue_refines_list [OF store_ok_empty i(1) s] i(1) s show ?thesis
    by auto
qed

text \<open>
  \<open>deleteConn\<close> on a live connection unlinks and releases exactly that node: the rest of
  the list keeps its order, every other object of the store stays allocated, and nodes outside
  the queue keep their contents.
\<close>

theorem deleteConn_removes:
  assumes "queue_rep q st xs" and "c \<in> set xs"
  shows "\<exists>q' st'. deleteConn c q st = Inr (q', st') \<and> queue_rep q' st' (remove1 c xs) \<and>
     cells st' c = None \<and> getCount q' = getCount q - 1 \<and>
     (\<forall>p. p \<notin> set (nodes q xs) \<longrightarrow> cells st' p = cells st p) \<and>
     (\<forall>p. p \<noteq> c \<longrightarrow> (cells st' p = None) = (cells st p = None))"
proof -
  obtain q' st' where d: "deleteConn c q st = Inr (q', st')" "queue_rep q' st' (remove1 c xs)"
      "cells st' c = None" "\<forall>p. p \<notin> set (nodes q xs) \<longrightarrow> cells st' p = cells st p"
      "\<forall>p. p \<noteq> c \<longrightarrow> (cells st' p = None) = (cells st p = None)"
    using deleteConn_rep [OF assms] by blast
  obtain m where "length xs = Suc m"
    using assms(2) by (cases xs) auto
  then have "getCount q' = getCount q - 1"
    using assms d(2) by (simp add: getCount_def queue_rep_def length_remove1)
  with d show ?thesis by blast
qed

theorem deleteConn_removes_witness:
  "\<exists>q st q' st'. queue_rep q st [3] \<and> deleteConn 3 q st = Inr (q', st') \<and> queue_rep q' st' []"
proof -
  obtain q0 st0 where i: "ConnQueue_init empty_store = Inr (q0, st0)" "queue_rep q0 st0 []"
      "store_ok st0" "next_addr st0 = 3"
    using ConnQueue_init_rep [OF store_ok_empty] by (auto simp: empty_store_def)
  then obtain q st where r: "queue_rep q st [3]"
    using insertConn_rep [OF i(2,3), of 7 20] by auto
  from deleteConn_removes [OF r, of 3] r show ?thesis
    by auto
qed

text \<open>
  The destructor of \<open>ConnQueue\<close> returns, and it releases each node of the list and both
  sentinels once, and nothing else.
\<close>

theorem ConnQueue_destroy_frees:
  assumes "queue_rep q st xs"
  shows "\<exists>st'. ConnQueue_destroy q st = Some (Inr st') \<and>
     (\<forall>p. cells st' p = (if p \<in> set (nodes q xs) then None else cells st p))"
  using free_from_linked [of "nodes q xs" st] assms
  by (auto simp: queue_rep_def ConnQueue_destroy_def nodes_def)

theorem ConnQueue_destroy_frees_witness:
  "\<exists>q st st'. queue_rep q st [] \<and> ConnQueue_destroy q st = Some (Inr st') \<and>
     (\<forall>p. cells st' p = (if p \<in> {1, 2} then None else cells st p))"
proof -
  obtain q st where i: "queue_rep q st []" "head q = 1" "tail q = 2"
    using ConnQueue_init_rep [OF store_ok_empty] by (auto simp: empty_store_def numeral_2_eq_2)
  then obtain st' where "ConnQueue_destroy q st = Some (Inr st')"
      "\<forall>p. cells st' p = (if p \<in> {1, 2} then None else cells st p)"
    using ConnQueue_destroy_frees [OF i(1)] by (auto simp: nodes_def)
  with i(1) show ?thesis by blast
qed

end
