(* ===== verification/Evbuffer.thy ===== *)
theory Evbuffer
  imports Prelude "HOL-Library.Sublist"
begin

text \<open>
  The byte buffers of libevent (\<open>event2/buffer.h\<close>), which are not part of the repository.
  The program reaches them through the operations below, so the model takes them as a record
  of functions over the library's own state \<open>'s\<close>. The locale \<open>evbuffer_lib\<close> states the
  documented behaviour the program relies on, with \<open>evb s p\<close> the bytes of the live buffer at
  \<open>p\<close>; \<open>evbuffer_ok\<close> adds that no allocation fails. The chunked buffers at the end of the
  theory (a buffer is a chain of extents, as in the library) satisfy both.
\<close>

record 's evbuffer_ops =
  evbuffer_new :: "'s \<Rightarrow> ptr \<times> 's"
  evbuffer_free :: "ptr \<Rightarrow> 's \<Rightarrow> 's"
  evbuffer_get_length :: "ptr \<Rightarrow> 's \<Rightarrow> uint64"
  evbuffer_add :: "ptr \<Rightarrow> bytes \<Rightarrow> 's \<Rightarrow> int \<times> 's"
  evbuffer_prepend :: "ptr \<Rightarrow> bytes \<Rightarrow> 's \<Rightarrow> int \<times> 's"
  evbuffer_remove :: "ptr \<Rightarrow> nat \<Rightarrow> 's \<Rightarrow> int \<times> bytes \<times> 's"
  evbuffer_copyout :: "ptr \<Rightarrow> nat \<Rightarrow> 's \<Rightarrow> int \<times> bytes"
  evbuffer_drain :: "ptr \<Rightarrow> nat \<Rightarrow> 's \<Rightarrow> int \<times> 's"
  evbuffer_pullup :: "ptr \<Rightarrow> nat \<Rightarrow> 's \<Rightarrow> bytes option \<times> 's"
  evbuffer_peek :: "ptr \<Rightarrow> int \<Rightarrow> nat \<Rightarrow> 's \<Rightarrow> nat \<times> bytes list"
  evbuffer_add_buffer :: "ptr \<Rightarrow> ptr \<Rightarrow> 's \<Rightarrow> int \<times> 's"
  evbuffer_reserve_space :: "ptr \<Rightarrow> nat \<Rightarrow> 's \<Rightarrow> int \<times> ptr \<times> 's"
  evbuffer_commit_space :: "ptr \<Rightarrow> ptr \<Rightarrow> bytes \<Rightarrow> 's \<Rightarrow> int \<times> 's"

subsection \<open>The documented laws\<close>

locale evbuffer_lib =
  fixes E :: "'s evbuffer_ops"
    and evb :: "'s \<Rightarrow> ptr \<rightharpoonup> bytes"
  assumes new_law: "evbuffer_new E s = (p, s') \<Longrightarrow> p \<noteq> NULL \<Longrightarrow>
        evb s p = None \<and> evb s' = (evb s)(p \<mapsto> [])"
    and free_law: "evb s p = Some c \<Longrightarrow> evb (evbuffer_free E p s) = (evb s)(p := None)"
    and length_law: "evb s p = Some c \<Longrightarrow> evbuffer_get_length E p s = of_nat (length c)"
    and add_law: "evb s p = Some c \<Longrightarrow> evbuffer_add E p d s = (0, s') \<Longrightarrow>
        evb s' = (evb s)(p \<mapsto> c @ d)"
    and prepend_law: "evb s p = Some c \<Longrightarrow> evbuffer_prepend E p d s = (0, s') \<Longrightarrow>
        evb s' = (evb s)(p \<mapsto> d @ c)"
    and remove_law: "evb s p = Some c \<Longrightarrow> evbuffer_remove E p n s = (r, d, s') \<Longrightarrow> r \<noteq> - 1 \<Longrightarrow>
        r = int (min n (length c)) \<and> d = take n c \<and> evb s' = (evb s)(p \<mapsto> drop n c)"
    and copyout_law: "evb s p = Some c \<Longrightarrow> evbuffer_copyout E p n s = (r, d) \<Longrightarrow> r \<noteq> - 1 \<Longrightarrow>
        r = int (min n (length c)) \<and> d = take n c"
    and drain_law: "evb s p = Some c \<Longrightarrow> evbuffer_drain E p n s = (0, s') \<Longrightarrow>
        evb s' = (evb s)(p \<mapsto> drop n c)"
    and pullup_law: "evb s p = Some c \<Longrightarrow> evbuffer_pullup E p n s = (Some d, s') \<Longrightarrow>
        n \<le> length c \<and> n \<le> length d \<and> take n d = take n c \<and> evb s' = evb s"
    and pullup_short: "evb s p = Some c \<Longrightarrow> length c < n \<Longrightarrow>
        fst (evbuffer_pullup E p n s) = None"
    and peek_law: "evb s p = Some c \<Longrightarrow>
        \<exists>vs. (\<forall>m. evbuffer_peek E p len m s = (length vs, take m vs)) \<and>
             prefix (concat vs) c \<and>
             (if len < 0 then length c else min (nat len) (length c)) \<le> length (concat vs)"
    and add_buffer_law: "evb s p = Some c \<Longrightarrow> evb s q = Some d \<Longrightarrow> p \<noteq> q \<Longrightarrow>
        evbuffer_add_buffer E p q s = (0, s') \<Longrightarrow> evb s' = (evb s)(p \<mapsto> c @ d, q \<mapsto> [])"
    and commit_law: "evb s p = Some c \<Longrightarrow> evbuffer_reserve_space E p n s = (1, base, s') \<Longrightarrow>
        length d \<le> n \<Longrightarrow>
        \<exists>s''. evbuffer_commit_space E p base d s' = (0, s'') \<and> evb s'' = (evb s)(p \<mapsto> c @ d)"

locale evbuffer_ok = evbuffer_lib +
  assumes new_ok: "fst (evbuffer_new E s) \<noteq> NULL"
    and add_ok: "evb s p = Some c \<Longrightarrow> fst (evbuffer_add E p d s) = 0"
    and prepend_ok: "evb s p = Some c \<Longrightarrow> fst (evbuffer_prepend E p d s) = 0"
    and remove_ok: "evb s p = Some c \<Longrightarrow> fst (evbuffer_remove E p n s) \<noteq> - 1"
    and drain_ok: "evb s p = Some c \<Longrightarrow> fst (evbuffer_drain E p n s) = 0"
    and pullup_ok: "evb s p = Some c \<Longrightarrow> n \<le> length c \<Longrightarrow> fst (evbuffer_pullup E p n s) \<noteq> None"
    and add_buffer_ok: "evb s p = Some c \<Longrightarrow> evb s q = Some d \<Longrightarrow>
        fst (evbuffer_add_buffer E p q s) = 0"
    and reserve_ok: "evb s p = Some c \<Longrightarrow> fst (evbuffer_reserve_space E p n s) = 1"
begin

text \<open>With no failure, every operation is an equation on the contents.\<close>

lemma newE:
  obtains p s' where "evbuffer_new E s = (p, s')" and "p \<noteq> NULL" and "evb s p = None"
    and "evb s' = (evb s)(p \<mapsto> [])"
  using new_ok [of s] new_law by (cases "evbuffer_new E s") auto

lemma addE:
  assumes "evb s p = Some c"
  obtains s' where "evbuffer_add E p d s = (0, s')" and "evb s' = (evb s)(p \<mapsto> c @ d)"
  using add_ok [OF assms, of d] add_law [OF assms] by (cases "evbuffer_add E p d s") auto

lemma prependE:
  assumes "evb s p = Some c"
  obtains s' where "evbuffer_prepend E p d s = (0, s')" and "evb s' = (evb s)(p \<mapsto> d @ c)"
  using prepend_ok [OF assms, of d] prepend_law [OF assms]
  by (cases "evbuffer_prepend E p d s") auto

lemma removeE:
  assumes "evb s p = Some c"
  obtains s' where "evbuffer_remove E p n s = (int (min n (length c)), take n c, s')"
    and "evb s' = (evb s)(p \<mapsto> drop n c)"
proof -
  obtain r d s' where eq: "evbuffer_remove E p n s = (r, d, s')"
    by (metis surj_pair)
  with remove_ok [OF assms, of n] have "r \<noteq> - 1"
    by simp
  from remove_law [OF assms eq this] eq that show ?thesis
    by auto
qed

lemma drainE:
  assumes "evb s p = Some c"
  obtains s' where "evbuffer_drain E p n s = (0, s')" and "evb s' = (evb s)(p \<mapsto> drop n c)"
  using drain_ok [OF assms, of n] drain_law [OF assms] by (cases "evbuffer_drain E p n s") auto

lemma pullupE:
  assumes "evb s p = Some c" and "n \<le> length c"
  obtains d s' where "evbuffer_pullup E p n s = (Some d, s')" and "n \<le> length d"
    and "take n d = take n c" and "evb s' = evb s"
proof -
  obtain r s' where eq: "evbuffer_pullup E p n s = (r, s')"
    by fastforce
  then obtain d where "r = Some d"
    using pullup_ok [OF assms] by auto
  then show ?thesis
    using that eq pullup_law [OF assms(1)] by blast
qed

lemma add_bufferE:
  assumes "evb s p = Some c" and "evb s q = Some d" and "p \<noteq> q"
  obtains s' where "evbuffer_add_buffer E p q s = (0, s')"
    and "evb s' = (evb s)(p \<mapsto> c @ d, q \<mapsto> [])"
  using add_buffer_ok [OF assms(1,2)] add_buffer_law [OF assms]
  by (cases "evbuffer_add_buffer E p q s") auto

lemma reserve_commitE:
  assumes "evb s p = Some c" and "length d \<le> n"
  obtains base s' s'' where "evbuffer_reserve_space E p n s = (1, base, s')"
    and "evbuffer_commit_space E p base d s' = (0, s'')" and "evb s'' = (evb s)(p \<mapsto> c @ d)"
proof -
  obtain base s' where r: "evbuffer_reserve_space E p n s = (1, base, s')"
    using reserve_ok [OF assms(1), of n] by (cases "evbuffer_reserve_space E p n s") auto
  from commit_law [OF assms(1) r assms(2)] show ?thesis
    using that r by blast
qed

lemma peek_whole:
  assumes "evb s p = Some c" and "int (length c) \<le> n"
  obtains vs where "\<forall>m. evbuffer_peek E p n m s = (length vs, take m vs)" and "concat vs = c"
proof -
  obtain vs where vs: "\<forall>m. evbuffer_peek E p n m s = (length vs, take m vs)"
      "prefix (concat vs) c" "(if n < 0 then length c else min (nat n) (length c)) \<le> length (concat vs)"
    using peek_law [OF assms(1)] by blast
  have "length c \<le> length (concat vs)"
    using vs(3) assms(2) by (simp split: if_splits)
  with vs(2) have "concat vs = c"
    by (meson prefix_length_prefix prefix_order.antisym prefix_order.refl)
  with vs(1) show ?thesis by (rule that)
qed

end

subsection \<open>Chunked buffers\<close>

text \<open>
  The library's state as a table of buffers, each a chain of extents; a buffer's address is
  its position in the table plus one, and a released buffer leaves its position unused.
\<close>

record chunk_lib =
  cl_bufs :: "bytes list option list"

definition ch_at :: "'z chunk_lib_scheme \<Rightarrow> ptr \<Rightarrow> bytes list option" where
  "ch_at s p = (if p = NULL \<or> length (cl_bufs s) < p then None else cl_bufs s ! (p - 1))"

definition ch_evb :: "'z chunk_lib_scheme \<Rightarrow> ptr \<rightharpoonup> bytes" where
  "ch_evb s p = map_option concat (ch_at s p)"

definition ch_set :: "ptr \<Rightarrow> bytes list option \<Rightarrow> 'z chunk_lib_scheme \<Rightarrow> 'z chunk_lib_scheme" where
  "ch_set p v s = s\<lparr>cl_bufs := (cl_bufs s)[p - 1 := v]\<rparr>"

definition ch_upd ::
  "ptr \<Rightarrow> (bytes list \<Rightarrow> bytes list) \<Rightarrow> 'z chunk_lib_scheme \<Rightarrow> 'z chunk_lib_scheme" where
  "ch_upd p f s = (case ch_at s p of None \<Rightarrow> s | Some cs \<Rightarrow> ch_set p (Some (f cs)) s)"

fun drain_chunks :: "nat \<Rightarrow> bytes list \<Rightarrow> bytes list" where
  "drain_chunks n [] = []"
| "drain_chunks n (c # cs) =
     (if n < length c then drop n c # cs else drain_chunks (n - length c) cs)"

fun peek_chunks :: "nat \<Rightarrow> bytes list \<Rightarrow> bytes list" where
  "peek_chunks n [] = []"
| "peek_chunks n (c # cs) = (if n = 0 then [] else c # peek_chunks (n - length c) cs)"

definition ch_contents :: "'z chunk_lib_scheme \<Rightarrow> ptr \<Rightarrow> bytes" where
  "ch_contents s p = (case ch_evb s p of None \<Rightarrow> [] | Some c \<Rightarrow> c)"

definition chunked :: "'z chunk_lib_scheme evbuffer_ops" where
  "chunked =
    \<lparr>evbuffer_new = (\<lambda>s. (Suc (length (cl_bufs s)), s\<lparr>cl_bufs := cl_bufs s @ [Some []]\<rparr>)),
     evbuffer_free = (\<lambda>p s. if ch_at s p = None then s else ch_set p None s),
     evbuffer_get_length = (\<lambda>p s. of_nat (length (ch_contents s p))),
     evbuffer_add = (\<lambda>p d s. (0, ch_upd p (\<lambda>cs. cs @ [d]) s)),
     evbuffer_prepend = (\<lambda>p d s. (0, ch_upd p (\<lambda>cs. d # cs) s)),
     evbuffer_remove = (\<lambda>p n s. (int (min n (length (ch_contents s p))),
        take n (ch_contents s p), ch_upd p (drain_chunks n) s)),
     evbuffer_copyout = (\<lambda>p n s. (int (min n (length (ch_contents s p))),
        take n (ch_contents s p))),
     evbuffer_drain = (\<lambda>p n s. (0, ch_upd p (drain_chunks n) s)),
     evbuffer_pullup = (\<lambda>p n s. if length (ch_contents s p) < n then (None, s)
        else (Some (take n (ch_contents s p)),
              ch_upd p (\<lambda>cs. take n (concat cs) # drain_chunks n cs) s)),
     evbuffer_peek = (\<lambda>p n m s. let cs = (case ch_at s p of None \<Rightarrow> [] | Some cs \<Rightarrow> cs);
           vs = (if n < 0 then cs else peek_chunks (nat n) cs)
        in (length vs, take m vs)),
     evbuffer_add_buffer = (\<lambda>p q s. (0, ch_upd q (\<lambda>cs. [])
        (ch_upd p (\<lambda>cs. cs @ [ch_contents s q]) s))),
     evbuffer_reserve_space = (\<lambda>p n s. (1, p, s)),
     evbuffer_commit_space = (\<lambda>p b d s. (0, ch_upd p (\<lambda>cs. cs @ [d]) s))\<rparr>"

lemma concat_drain_chunks [simp]: "concat (drain_chunks n cs) = drop n (concat cs)"
  by (induction n cs rule: drain_chunks.induct) auto

lemma prefix_peek_chunks: "prefix (concat (peek_chunks n cs)) (concat cs)"
  by (induction n cs rule: peek_chunks.induct) auto

lemma length_peek_chunks: "min n (length (concat cs)) \<le> length (concat (peek_chunks n cs))"
  by (induction n cs rule: peek_chunks.induct) auto

lemma ch_at_set: "ch_at s p = Some cs \<Longrightarrow> ch_at (ch_set p v s) = (ch_at s)(p := v)"
  by (rule ext) (auto simp: ch_at_def ch_set_def nth_list_update split: if_splits)

lemma ch_evb_Some: "ch_evb s p = Some c \<longleftrightarrow> (\<exists>cs. ch_at s p = Some cs \<and> c = concat cs)"
  by (auto simp: ch_evb_def)

lemma ch_evb_set: "ch_at s p = Some cs \<Longrightarrow> ch_evb (ch_set p v s) = (ch_evb s)(p := map_option concat v)"
  by (rule ext) (simp add: ch_evb_def ch_at_set)

lemma ch_evb_upd: "ch_at s p = Some cs \<Longrightarrow> ch_evb (ch_upd p f s) = (ch_evb s)(p \<mapsto> concat (f cs))"
  by (simp add: ch_upd_def ch_evb_set)

lemma ch_at_upd: "ch_at s p = Some cs \<Longrightarrow> ch_at (ch_upd p f s) = (ch_at s)(p \<mapsto> f cs)"
  by (simp add: ch_upd_def ch_at_set)

lemma ch_new: "ch_at s (Suc (length (cl_bufs s))) = None"
    "ch_at (s\<lparr>cl_bufs := cl_bufs s @ [Some []]\<rparr>) = (ch_at s)(Suc (length (cl_bufs s)) \<mapsto> [])"
  by (simp add: ch_at_def) (rule ext, auto simp: ch_at_def nth_append)

lemma ch_contents_at [simp]: "ch_at s p = Some cs \<Longrightarrow> ch_contents s p = concat cs"
  by (simp add: ch_contents_def ch_evb_def)

lemma ch_evb_same: "ch_at s p = Some cs \<Longrightarrow> (ch_evb s)(p \<mapsto> concat cs) = ch_evb s"
  by (auto simp: fun_eq_iff ch_evb_def)

lemmas chunk_simps = ch_evb_same ch_evb_Some ch_evb_upd ch_evb_set ch_at_upd chunked_def

interpretation chunks: evbuffer_ok "chunked :: 'z chunk_lib_scheme evbuffer_ops" ch_evb
proof (unfold_locales, goal_cases)
  case (1 s p s')
  then show ?case by (auto simp: chunked_def ch_new ch_evb_def fun_eq_iff)
next
  case (2 s p c)
  then show ?case by (auto simp: chunk_simps)
next
  case (11 s p c n)
  then obtain cs where cs: "ch_at s p = Some cs" "c = concat cs"
    by (auto simp: ch_evb_Some)
  show ?case
    by (rule exI [where x = "if n < 0 then cs else peek_chunks (nat n) cs"])
      (simp add: chunked_def Let_def cs prefix_peek_chunks length_peek_chunks)
next
  case (12 s p c q d s')
  then show ?case by (auto simp: chunk_simps fun_eq_iff)
qed (auto simp: chunk_simps split: if_splits)

end
