(* ===== verification/Connection.thy ===== *)
theory Connection
  imports Conn_Queue Evbuffer
begin

text \<open>
  \<open>src/tcpServer.h\<close>: the methods of \<open>Conn\<close> and the structure \<open>LibeventThread\<close>, over the
  state of one process. The state holds the library's state \<open>ext\<close>, the store of \<open>Conn\<close>
  objects, the event threads by address, and the bufferevents that are allocated; later
  theories extend the record. A method takes the address of its object and faults when the
  pointer, or the buffer pointer it uses, is null or dangling.
\<close>

subsection \<open>Event threads and the process state\<close>

datatype owner = No_owner | Server_owner ptr | Client_owner ptr \<comment> \<open>the union of the two owners\<close>

text \<open>
  The constructor of \<open>LibeventThread\<close> leaves \<open>base\<close> unset; null stands for that, and both
  owners assign it before any use.
\<close>

record LibeventThread =
  thread_id :: int
  base :: ptr
  notify_send_fd :: int
  notify_recv_fd :: int
  connect_queue :: ConnQueue
  lt_owner :: owner

record 's net =
  ext :: 's
  store :: conn_store
  lthreads :: "ptr \<rightharpoonup> LibeventThread"
  live_bevs :: "ptr set"

definition LibeventThread_init :: "conn_store \<Rightarrow> (LibeventThread \<times> conn_store) res" where
  "LibeventThread_init st =
     bind_res (ConnQueue_init st) (\<lambda>(q, st).
     Inr (\<lparr>thread_id = 0, base = NULL, notify_send_fd = 0, notify_recv_fd = 0,
           connect_queue = q, lt_owner = No_owner\<rparr>, st))"

subsection \<open>Methods of \<open>Conn\<close>\<close>

definition getThread :: "ptr \<Rightarrow> ('s, 'z) net_scheme \<Rightarrow> ptr res" where
  "getThread conn w = bind_res (deref (cells (store w)) conn) (\<lambda>c. Inr (conn_thread c))"

definition getFd :: "ptr \<Rightarrow> ('s, 'z) net_scheme \<Rightarrow> int res" where
  "getFd conn w = bind_res (deref (cells (store w)) conn) (\<lambda>c. Inr (conn_fd c))"

definition getBufferevent :: "ptr \<Rightarrow> ('s, 'z) net_scheme \<Rightarrow> ptr res" where
  "getBufferevent conn w = bind_res (deref (cells (store w)) conn) (\<lambda>c. Inr (conn_bev c))"

definition getReadBuffer :: "ptr \<Rightarrow> ('s, 'z) net_scheme \<Rightarrow> ptr res" where
  "getReadBuffer conn w = bind_res (deref (cells (store w)) conn) (\<lambda>c. Inr (conn_readBuf c))"

text \<open>The buffer pointers, checked before they are handed to the library.\<close>

definition live_readBuf :: "ptr \<Rightarrow> ('s, 'z) net_scheme \<Rightarrow> ptr res" where
  "live_readBuf conn w =
     bind_res (getReadBuffer conn w) (\<lambda>b. if b = NULL then Inl Null_deref else Inr b)"

definition live_writeBuf :: "ptr \<Rightarrow> ('s, 'z) net_scheme \<Rightarrow> ptr res" where
  "live_writeBuf conn w =
     bind_res (deref (cells (store w)) conn) (\<lambda>c.
       if conn_writeBuf c = NULL then Inl Null_deref else Inr (conn_writeBuf c))"

definition getReadBufferLen :: "'s evbuffer_ops \<Rightarrow> ptr \<Rightarrow> ('s, 'z) net_scheme \<Rightarrow> uint32 res" where
  "getReadBufferLen E conn w =
     bind_res (live_readBuf conn w) (\<lambda>b. Inr (ucast (evbuffer_get_length E b (ext w))))"

text \<open>The parameter is an \<open>int\<close>, which the library takes as a \<open>size_t\<close>.\<close>

definition readBuffer ::
  "'s evbuffer_ops \<Rightarrow> ptr \<Rightarrow> int32 \<Rightarrow> ('s, 'z) net_scheme \<Rightarrow> (int \<times> bytes \<times> ('s, 'z) net_scheme) res" where
  "readBuffer E conn len w =
     bind_res (live_readBuf conn w) (\<lambda>b.
       let (r, d, s) = evbuffer_remove E b (unat (scast len :: uint64)) (ext w) in Inr (r, d, w\<lparr>ext := s\<rparr>))"

definition copyBuffer ::
  "'s evbuffer_ops \<Rightarrow> ptr \<Rightarrow> int32 \<Rightarrow> ('s, 'z) net_scheme \<Rightarrow> (int \<times> bytes) res" where
  "copyBuffer E conn len w =
     bind_res (live_readBuf conn w) (\<lambda>b. Inr (evbuffer_copyout E b (unat (scast len :: uint64)) (ext w)))"

definition getWriteBufferLen :: "'s evbuffer_ops \<Rightarrow> ptr \<Rightarrow> ('s, 'z) net_scheme \<Rightarrow> uint32 res" where
  "getWriteBufferLen E conn w =
     bind_res (live_writeBuf conn w) (\<lambda>b. Inr (ucast (evbuffer_get_length E b (ext w))))"

definition addToWriteBuffer ::
  "'s evbuffer_ops \<Rightarrow> ptr \<Rightarrow> bytes \<Rightarrow> ('s, 'z) net_scheme \<Rightarrow> (int \<times> ('s, 'z) net_scheme) res" where
  "addToWriteBuffer E conn d w =
     bind_res (live_writeBuf conn w) (\<lambda>b.
       let (r, s) = evbuffer_add E b d (ext w) in Inr (r, w\<lparr>ext := s\<rparr>))"

definition addBufToWriteBuffer ::
  "'s evbuffer_ops \<Rightarrow> ptr \<Rightarrow> ptr \<Rightarrow> ('s, 'z) net_scheme \<Rightarrow> (int \<times> ('s, 'z) net_scheme) res" where
  "addBufToWriteBuffer E conn buf w =
     bind_res (live_writeBuf conn w) (\<lambda>b.
       let (r, s) = evbuffer_add_buffer E b buf (ext w) in Inr (r, w\<lparr>ext := s\<rparr>))"

definition moveBufferReadToWrite ::
  "'s evbuffer_ops \<Rightarrow> ptr \<Rightarrow> ('s, 'z) net_scheme \<Rightarrow> ('s, 'z) net_scheme res" where
  "moveBufferReadToWrite E conn w =
     bind_res (live_writeBuf conn w) (\<lambda>wb.
     bind_res (live_readBuf conn w) (\<lambda>rb.
       let (r, s) = evbuffer_add_buffer E wb rb (ext w) in Inr (w\<lparr>ext := s\<rparr>)))"

text \<open>The calls \<open>thread->connect_queue.insertConn(...)\<close> and \<open>.deleteConn(...)\<close>.\<close>

definition thread_insertConn ::
  "ptr \<Rightarrow> int \<Rightarrow> ('s, 'z) net_scheme \<Rightarrow> (ptr \<times> ('s, 'z) net_scheme) res" where
  "thread_insertConn thread fd w =
     bind_res (deref (lthreads w) thread) (\<lambda>t.
     bind_res (insertConn fd thread (connect_queue t) (store w)) (\<lambda>(c, q, st).
     Inr (c, w\<lparr>store := st, lthreads := (lthreads w)(thread \<mapsto> t\<lparr>connect_queue := q\<rparr>)\<rparr>)))"

definition thread_deleteConn ::
  "ptr \<Rightarrow> ptr \<Rightarrow> ('s, 'z) net_scheme \<Rightarrow> ('s, 'z) net_scheme res" where
  "thread_deleteConn thread conn w =
     bind_res (deref (lthreads w) thread) (\<lambda>t.
     bind_res (deleteConn conn (connect_queue t) (store w)) (\<lambda>(q, st).
     Inr (w\<lparr>store := st, lthreads := (lthreads w)(thread \<mapsto> t\<lparr>connect_queue := q\<rparr>)\<rparr>)))"

text \<open>\<open>bufferevent_free\<close>: a bufferevent may be released once.\<close>

definition free_bev :: "ptr \<Rightarrow> ('s, 'z) net_scheme \<Rightarrow> ('s, 'z) net_scheme res" where
  "free_bev bev w =
     (if bev = NULL then Inl Null_deref
      else if bev \<notin> live_bevs w then Inl Double_free
      else Inr (w\<lparr>live_bevs := live_bevs w - {bev}\<rparr>))"

lemmas conn_method_defs =
  getThread_def getFd_def getBufferevent_def getReadBuffer_def live_readBuf_def live_writeBuf_def
  getReadBufferLen_def readBuffer_def copyBuffer_def getWriteBufferLen_def addToWriteBuffer_def
  addBufToWriteBuffer_def moveBufferReadToWrite_def

subsection \<open>Connections with live buffers\<close>

text \<open>
  \<open>reads w conn b c\<close>: the connection's read buffer is the live buffer \<open>b\<close> with contents
  \<open>c\<close>; \<open>writes\<close> is the same for the write buffer.
\<close>

definition reads :: "('s \<Rightarrow> ptr \<rightharpoonup> bytes) \<Rightarrow> ('s, 'z) net_scheme \<Rightarrow> ptr \<Rightarrow> ptr \<Rightarrow> bytes \<Rightarrow> bool" where
  "reads evb w conn b c \<longleftrightarrow>
     (\<exists>k. deref (cells (store w)) conn = Inr k \<and> conn_readBuf k = b) \<and> b \<noteq> NULL \<and> evb (ext w) b = Some c"

definition writes :: "('s \<Rightarrow> ptr \<rightharpoonup> bytes) \<Rightarrow> ('s, 'z) net_scheme \<Rightarrow> ptr \<Rightarrow> ptr \<Rightarrow> bytes \<Rightarrow> bool" where
  "writes evb w conn b c \<longleftrightarrow>
     (\<exists>k. deref (cells (store w)) conn = Inr k \<and> conn_writeBuf k = b) \<and> b \<noteq> NULL \<and> evb (ext w) b = Some c"

lemma reads_live: "reads evb w conn b c \<Longrightarrow> live_readBuf conn w = Inr b"
  by (auto simp: reads_def live_readBuf_def getReadBuffer_def)

lemma writes_live: "writes evb w conn b c \<Longrightarrow> live_writeBuf conn w = Inr b"
  by (auto simp: writes_def live_writeBuf_def)

lemma reads_ext: "reads evb w conn b c \<Longrightarrow> evb s b = Some d \<Longrightarrow> reads evb (w\<lparr>ext := s\<rparr>) conn b d"
  by (simp add: reads_def)

lemma writes_ext: "writes evb w conn b c \<Longrightarrow> evb s b = Some d \<Longrightarrow> writes evb (w\<lparr>ext := s\<rparr>) conn b d"
  by (simp add: writes_def)

context evbuffer_ok
begin

lemma getReadBufferLen_reads:
  assumes "reads evb w conn b c"
  shows "getReadBufferLen E conn w = Inr (of_nat (length c))"
  using assms
  by (simp add: getReadBufferLen_def reads_live [OF assms] length_law [of "ext w" b c] reads_def)

lemma readBuffer_reads:
  assumes "reads evb w conn b c" and "unat (scast len :: uint64) = n"
  obtains s where "readBuffer E conn len w = Inr (int (min n (length c)), take n c, w\<lparr>ext := s\<rparr>)"
    and "evb s = (evb (ext w))(b \<mapsto> drop n c)" and "reads evb (w\<lparr>ext := s\<rparr>) conn b (drop n c)"
proof -
  have "evb (ext w) b = Some c"
    using assms(1) by (simp add: reads_def)
  then obtain s where s: "evbuffer_remove E b n (ext w) = (int (min n (length c)), take n c, s)"
      "evb s = (evb (ext w))(b \<mapsto> drop n c)"
    by (rule removeE)
  then show ?thesis
    using that reads_ext [OF assms(1), of s "drop n c"] assms(2) by (simp add: readBuffer_def reads_live [OF assms(1)])
qed

end

end
