(* ===== verification/Protobuf.thy ===== *)
theory Protobuf
  imports Prelude
begin

text \<open>
  The part of the protocol-buffer runtime (version 2.6.1) that the generated class
  \<open>RpcMessage\<close> calls: \<open>WireFormatLite\<close>, \<open>CodedInputStream\<close> and \<open>UnknownFieldSet\<close>. The
  runtime is not part of the repository, so its functions are a record over the stream state
  \<open>'s\<close> and the unknown-field set \<open>'u\<close>. The locale \<open>pb_lib\<close> states the wire format as it is
  documented, with \<open>unread s\<close> the bytes a stream has not read yet; \<open>pb_progress\<close> states that
  reading never puts bytes back. The reference encoding at the end of the theory (base-128
  varints, little-endian fixed 64-bit values, length-delimited strings) satisfies both.
\<close>

record ('s, 'u) pb_ops =
  WriteEnumNoTagToArray :: "int32 \<Rightarrow> bytes"
  WriteFixed64NoTagToArray :: "uint64 \<Rightarrow> bytes"
  WriteStringWithSizeToArray :: "bytes \<Rightarrow> bytes"
  WriteEnumToArray :: "nat \<Rightarrow> int32 \<Rightarrow> bytes"
  WriteFixed64ToArray :: "nat \<Rightarrow> uint64 \<Rightarrow> bytes"
  WriteStringToArray :: "nat \<Rightarrow> bytes \<Rightarrow> bytes"
  WriteBytesToArray :: "nat \<Rightarrow> bytes \<Rightarrow> bytes"
  WriteEnum :: "nat \<Rightarrow> int32 \<Rightarrow> bytes"
  WriteFixed64 :: "nat \<Rightarrow> uint64 \<Rightarrow> bytes"
  WriteStringMaybeAliased :: "nat \<Rightarrow> bytes \<Rightarrow> bytes"
  WriteBytesMaybeAliased :: "nat \<Rightarrow> bytes \<Rightarrow> bytes"
  EnumSize :: "int32 \<Rightarrow> int32"
  StringSize :: "bytes \<Rightarrow> int32"
  BytesSize :: "bytes \<Rightarrow> int32"
  GetTagFieldNumber :: "uint32 \<Rightarrow> uint32"
  GetTagWireType :: "uint32 \<Rightarrow> uint32"
  ReadTagWithCutoff :: "uint32 \<Rightarrow> 's \<Rightarrow> (uint32 \<times> bool) \<times> 's"
  ExpectTag :: "uint32 \<Rightarrow> 's \<Rightarrow> bool \<times> 's"
  ExpectAtEnd :: "'s \<Rightarrow> bool \<times> 's"
  ReadEnum :: "'s \<Rightarrow> int32 option \<times> 's"
  ReadFixed64 :: "'s \<Rightarrow> uint64 option \<times> 's"
  ReadString :: "bytes \<Rightarrow> 's \<Rightarrow> bool \<times> bytes \<times> 's" \<comment> \<open>old and new value of the string\<close>
  ReadBytes :: "bytes \<Rightarrow> 's \<Rightarrow> bool \<times> bytes \<times> 's"
  SkipField :: "uint32 \<Rightarrow> 'u \<Rightarrow> 's \<Rightarrow> bool \<times> 'u \<times> 's"
  stream_of_array :: "bytes \<Rightarrow> 's"
  ConsumedEntireMessage :: "'s \<Rightarrow> bool"
  uf_new :: 'u
  uf_empty :: "'u \<Rightarrow> bool"
  uf_AddVarint :: "nat \<Rightarrow> uint64 \<Rightarrow> 'u \<Rightarrow> 'u"
  uf_MergeFrom :: "'u \<Rightarrow> 'u \<Rightarrow> 'u" \<comment> \<open>source, then target\<close>
  SerializeUnknownFields :: "'u \<Rightarrow> bytes"
  SerializeUnknownFieldsToArray :: "'u \<Rightarrow> bytes"
  ComputeUnknownFieldsSize :: "'u \<Rightarrow> int32"

definition tag_byte :: "nat \<Rightarrow> nat \<Rightarrow> byte" where
  "tag_byte field wire_type = of_nat (8 * field + wire_type)"

subsection \<open>The documented laws\<close>

locale pb_lib =
  fixes L :: "('s, 'u) pb_ops"
    and unread :: "'s \<Rightarrow> bytes"
  assumes write_enum: "1 \<le> f \<Longrightarrow> f \<le> 15 \<Longrightarrow>
        WriteEnumToArray L f v = tag_byte f 0 # WriteEnumNoTagToArray L v"
    and write_fixed64: "1 \<le> f \<Longrightarrow> f \<le> 15 \<Longrightarrow>
        WriteFixed64ToArray L f w = tag_byte f 1 # WriteFixed64NoTagToArray L w"
    and write_string: "1 \<le> f \<Longrightarrow> f \<le> 15 \<Longrightarrow>
        WriteStringToArray L f x = tag_byte f 2 # WriteStringWithSizeToArray L x"
    and write_bytes: "1 \<le> f \<Longrightarrow> f \<le> 15 \<Longrightarrow>
        WriteBytesToArray L f x = tag_byte f 2 # WriteStringWithSizeToArray L x"
    and write_stream:
        "WriteEnum L f v = WriteEnumToArray L f v" "WriteFixed64 L f w = WriteFixed64ToArray L f w"
        "WriteStringMaybeAliased L f x = WriteStringToArray L f x"
        "WriteBytesMaybeAliased L f x = WriteBytesToArray L f x"
        "SerializeUnknownFields L u = SerializeUnknownFieldsToArray L u"
    and sizes:
        "EnumSize L v = of_nat (length (WriteEnumNoTagToArray L v))"
        "StringSize L x = of_nat (length (WriteStringWithSizeToArray L x))"
        "BytesSize L x = of_nat (length (WriteStringWithSizeToArray L x))"
        "length (WriteFixed64NoTagToArray L w) = 8"
        "length (WriteEnumNoTagToArray L v) \<le> 10"
        "ComputeUnknownFieldsSize L u = of_nat (length (SerializeUnknownFieldsToArray L u))"
    and tag_parts: "GetTagFieldNumber L t = drop_bit 3 t" "GetTagWireType L t = t AND 7"
    and read_tag: "unread s = b # rest \<Longrightarrow> b \<noteq> 0 \<Longrightarrow> b < 128 \<Longrightarrow>
        \<exists>s'. ReadTagWithCutoff L 127 s = ((ucast b, True), s') \<and> unread s' = rest"
    and read_tag_end: "unread s = [] \<Longrightarrow>
        \<exists>s'. ReadTagWithCutoff L 127 s = ((0, False), s') \<and> unread s' = [] \<and>
             ConsumedEntireMessage L s'"
    and expect_tag: "ExpectTag L t s = (r, s') \<Longrightarrow> t \<noteq> 0 \<Longrightarrow> t < 128 \<Longrightarrow>
        unread s = (if r then ucast t # unread s' else unread s')"
    and expect_end: "ExpectAtEnd L s = (r, s') \<Longrightarrow>
        unread s' = unread s \<and> (r \<longrightarrow> unread s = [] \<and> ConsumedEntireMessage L s')"
    and read_enum: "unread s = WriteEnumNoTagToArray L v @ rest \<Longrightarrow>
        \<exists>s'. ReadEnum L s = (Some v, s') \<and> unread s' = rest"
    and read_fixed64: "unread s = WriteFixed64NoTagToArray L w @ rest \<Longrightarrow>
        \<exists>s'. ReadFixed64 L s = (Some w, s') \<and> unread s' = rest"
    and read_string: "unread s = WriteStringWithSizeToArray L x @ rest \<Longrightarrow> length x < 2 ^ 31 \<Longrightarrow>
        \<exists>s'. ReadString L old s = (True, x, s') \<and> unread s' = rest"
    and read_bytes: "unread s = WriteStringWithSizeToArray L x @ rest \<Longrightarrow> length x < 2 ^ 31 \<Longrightarrow>
        \<exists>s'. ReadBytes L old s = (True, x, s') \<and> unread s' = rest"
    and stream_of: "unread (stream_of_array L bs) = bs"
    and uf_new_empty: "uf_empty L (uf_new L)"
    and uf_merge_new: "uf_MergeFrom L u (uf_new L) = u"
    and string_size: "length x < 2 ^ 31 \<Longrightarrow> length (WriteStringWithSizeToArray L x) \<le> length x + 5"

locale pb_progress =
  fixes L :: "('s, 'u) pb_ops"
    and unread :: "'s \<Rightarrow> bytes"
  assumes tag_progress: "ReadTagWithCutoff L c s = ((t, ok), s') \<Longrightarrow> t \<noteq> 0 \<Longrightarrow>
        length (unread s') < length (unread s)"
    and tag_zero: "ReadTagWithCutoff L c s = ((0, ok), s') \<Longrightarrow> \<not> ok"
    and expect_progress: "ExpectTag L t s = (r, s') \<Longrightarrow>
        (if r then length (unread s') < length (unread s) else length (unread s') \<le> length (unread s))"
    and end_progress: "ExpectAtEnd L s = (b, s') \<Longrightarrow> length (unread s') \<le> length (unread s)"
    and enum_progress: "ReadEnum L s = (v, s') \<Longrightarrow> length (unread s') \<le> length (unread s)"
    and fixed64_progress: "ReadFixed64 L s = (w, s') \<Longrightarrow> length (unread s') \<le> length (unread s)"
    and string_progress: "ReadString L x s = (b, y, s') \<Longrightarrow> length (unread s') \<le> length (unread s)"
    and bytes_progress: "ReadBytes L x s = (b, y, s') \<Longrightarrow> length (unread s') \<le> length (unread s)"
    and skip_progress: "SkipField L t u s = (b, u', s') \<Longrightarrow> length (unread s') \<le> length (unread s)"

subsection \<open>The reference encoding\<close>

fun varint :: "nat \<Rightarrow> bytes" where
  "varint n = (if n < 128 then [of_nat n] else of_nat (n mod 128 + 128) # varint (n div 128))"

declare varint.simps [simp del]

fun read_varint :: "nat \<Rightarrow> bytes \<Rightarrow> (nat \<times> bytes) option" where
  "read_varint 0 bs = None"
| "read_varint (Suc k) [] = None"
| "read_varint (Suc k) (b # bs) =
     (if unat b < 128 then Some (unat b, bs)
      else case read_varint k bs of
        None \<Rightarrow> None
      | Some (n, rest) \<Rightarrow> Some (unat b mod 128 + 128 * n, rest))"

lemma read_varint_varint:
  "n < 128 ^ k \<Longrightarrow> 0 < k \<Longrightarrow> read_varint k (varint n @ rest) = Some (n, rest)"
proof (induction n arbitrary: k rule: varint.induct)
  case (1 n)
  show ?case
  proof (cases k)
    case 0
    with 1 show ?thesis by simp
  next
    case (Suc j)
    show ?thesis
    proof (cases "n < 128")
      case True
      then show ?thesis
        by (simp add: Suc varint.simps [of n] unat_of_nat take_bit_nat_eq_self)
    next
      case False
      have "n div 128 < 128 ^ j"
        using "1.prems" Suc by (simp add: less_mult_imp_div_less mult.commute)
      moreover have "0 < j"
        using "1.prems" Suc False by (cases j) auto
      ultimately have IH: "read_varint j (varint (n div 128) @ rest) = Some (n div 128, rest)"
        using "1.IH" False by blast
      have "unat (of_nat (n mod 128 + 128) :: byte) = n mod 128 + 128"
        by (subst unat_of_nat) (simp add: take_bit_nat_eq_self)
      then show ?thesis
        using False IH by (simp add: Suc varint.simps [of n])
    qed
  qed
qed

lemma length_varint: "n < 128 ^ k \<Longrightarrow> 0 < k \<Longrightarrow> length (varint n) \<le> k"
proof (induction n arbitrary: k rule: varint.induct)
  case (1 n)
  show ?case
  proof (cases "n < 128")
    case True
    with 1 show ?thesis by (simp add: varint.simps [of n])
  next
    case False
    then obtain j where j: "k = Suc j" "0 < j"
      using "1.prems" by (cases k; cases "k - 1") auto
    moreover have "n div 128 < 128 ^ j"
      using "1.prems" j by (simp add: less_mult_imp_div_less mult.commute)
    ultimately show ?thesis
      using "1.IH" [OF False, of j] False by (simp add: varint.simps [of n])
  qed
qed

lemma read_varint_length: "read_varint k bs = Some (n, rest) \<Longrightarrow> length rest < length bs"
  by (induction k bs arbitrary: n rest rule: read_varint.induct)
    (auto split: if_splits option.splits intro: less_SucI)

record ref_stream =
  rs_unread :: bytes
  rs_end :: bool

definition ref_enum :: "int32 \<Rightarrow> bytes" where
  "ref_enum v = varint (unat (scast v :: uint64))"

definition ref_string :: "bytes \<Rightarrow> bytes" where
  "ref_string x = varint (length x) @ x"

definition ref_read_tag :: "uint32 \<Rightarrow> ref_stream \<Rightarrow> (uint32 \<times> bool) \<times> ref_stream" where
  "ref_read_tag c s =
     (if rs_unread s = [] then ((0, False), s\<lparr>rs_end := True\<rparr>)
      else case read_varint 5 (rs_unread s) of
        None \<Rightarrow> ((0, False), s)
      | Some (n, rest) \<Rightarrow> ((of_nat n, (of_nat n :: uint32) - 1 < c), s\<lparr>rs_unread := rest\<rparr>))"

definition ref_expect_tag :: "uint32 \<Rightarrow> ref_stream \<Rightarrow> bool \<times> ref_stream" where
  "ref_expect_tag t s =
     (case rs_unread s of
        [] \<Rightarrow> (False, s)
      | b # rest \<Rightarrow> if t < 128 \<and> b = ucast t then (True, s\<lparr>rs_unread := rest\<rparr>) else (False, s))"

definition ref_expect_end :: "ref_stream \<Rightarrow> bool \<times> ref_stream" where
  "ref_expect_end s = (if rs_unread s = [] then (True, s\<lparr>rs_end := True\<rparr>) else (False, s))"

definition ref_read_enum :: "ref_stream \<Rightarrow> int32 option \<times> ref_stream" where
  "ref_read_enum s =
     (case read_varint 10 (rs_unread s) of
        None \<Rightarrow> (None, s)
      | Some (n, rest) \<Rightarrow> (Some (ucast (of_nat n :: uint64)), s\<lparr>rs_unread := rest\<rparr>))"

definition ref_read_fixed64 :: "ref_stream \<Rightarrow> uint64 option \<times> ref_stream" where
  "ref_read_fixed64 s =
     (if length (rs_unread s) < 8 then (None, s)
      else (Some (word_of_mem (take 8 (rs_unread s))), s\<lparr>rs_unread := drop 8 (rs_unread s)\<rparr>))"

definition ref_read_string :: "bytes \<Rightarrow> ref_stream \<Rightarrow> bool \<times> bytes \<times> ref_stream" where
  "ref_read_string old s =
     (case read_varint 5 (rs_unread s) of
        None \<Rightarrow> (False, old, s)
      | Some (n, rest) \<Rightarrow>
          if 2 ^ 31 \<le> n \<or> length rest < n then (False, take n rest, s\<lparr>rs_unread := []\<rparr>)
          else (True, take n rest, s\<lparr>rs_unread := drop n rest\<rparr>))"

definition ref_skip :: "uint32 \<Rightarrow> bytes \<Rightarrow> ref_stream \<Rightarrow> bool \<times> bytes \<times> ref_stream" where
  "ref_skip t u s =
     (let bs = rs_unread s;
          size = (if t AND 7 = 0 then map_option (\<lambda>(n, rest). length bs - length rest) (read_varint 10 bs)
                  else if t AND 7 = 1 then Some 8
                  else if t AND 7 = 2 then
                    map_option (\<lambda>(n, rest). length bs - length rest + n) (read_varint 5 bs)
                  else if t AND 7 = 5 then Some 4
                  else None)
      in case size of
           None \<Rightarrow> (False, u, s)
         | Some k \<Rightarrow>
             if length bs < k then (False, u, s\<lparr>rs_unread := []\<rparr>)
             else (True, u @ varint (unat t) @ take k bs, s\<lparr>rs_unread := drop k bs\<rparr>))"

definition ref_wire :: "(ref_stream, bytes) pb_ops" where
  "ref_wire =
    \<lparr>WriteEnumNoTagToArray = ref_enum,
     WriteFixed64NoTagToArray = mem_of_word,
     WriteStringWithSizeToArray = ref_string,
     WriteEnumToArray = (\<lambda>f v. tag_byte f 0 # ref_enum v),
     WriteFixed64ToArray = (\<lambda>f w. tag_byte f 1 # mem_of_word w),
     WriteStringToArray = (\<lambda>f x. tag_byte f 2 # ref_string x),
     WriteBytesToArray = (\<lambda>f x. tag_byte f 2 # ref_string x),
     WriteEnum = (\<lambda>f v. tag_byte f 0 # ref_enum v),
     WriteFixed64 = (\<lambda>f w. tag_byte f 1 # mem_of_word w),
     WriteStringMaybeAliased = (\<lambda>f x. tag_byte f 2 # ref_string x),
     WriteBytesMaybeAliased = (\<lambda>f x. tag_byte f 2 # ref_string x),
     EnumSize = (\<lambda>v. of_nat (length (ref_enum v))),
     StringSize = (\<lambda>x. of_nat (length (ref_string x))),
     BytesSize = (\<lambda>x. of_nat (length (ref_string x))),
     GetTagFieldNumber = (\<lambda>t. drop_bit 3 t),
     GetTagWireType = (\<lambda>t. t AND 7),
     ReadTagWithCutoff = ref_read_tag,
     ExpectTag = ref_expect_tag,
     ExpectAtEnd = ref_expect_end,
     ReadEnum = ref_read_enum,
     ReadFixed64 = ref_read_fixed64,
     ReadString = ref_read_string,
     ReadBytes = ref_read_string,
     SkipField = ref_skip,
     stream_of_array = (\<lambda>bs. \<lparr>rs_unread = bs, rs_end = False\<rparr>),
     ConsumedEntireMessage = rs_end,
     uf_new = [],
     uf_empty = (\<lambda>u. u = []),
     uf_AddVarint = (\<lambda>f v u. u @ tag_byte f 0 # varint (unat v)),
     uf_MergeFrom = (\<lambda>src u. u @ src),
     SerializeUnknownFields = id,
     SerializeUnknownFieldsToArray = id,
     ComputeUnknownFieldsSize = (\<lambda>u. of_nat (length u))\<rparr>"

lemmas ref_defs = ref_enum_def ref_string_def ref_read_tag_def ref_expect_tag_def ref_expect_end_def
  ref_read_enum_def ref_read_fixed64_def ref_read_string_def ref_skip_def

lemma ucast_scast_32_64 [simp]: "ucast (scast (v :: int32) :: uint64) = v"
  by (rule bit_word_eqI) (auto simp: bit_simps)

lemma read_varint_Nil: "read_varint k [] = None"
  by (cases k) simp_all

lemma read_varint_byte: "b < (128 :: byte) \<Longrightarrow> 0 < k \<Longrightarrow> read_varint k (b # bs) = Some (unat b, bs)"
  by (cases k) (auto simp: word_less_nat_alt)

lemma unat_less_128_10: "unat (w :: uint64) < 128 ^ 10"
  using unsigned_less [of w, where 'a = nat] by simp

lemma unat_ucast_byte [simp]: "unat (ucast (b :: byte) :: uint32) = unat b"
proof -
  have "unat b < 2 ^ 32"
    using unsigned_less [of b, where 'a = nat] by simp
  then show ?thesis
    by (simp add: unsigned_ucast_eq take_bit_nat_eq_self)
qed

lemma of_nat_unat_byte [simp]: "(of_nat (unat (b :: byte)) :: uint32) = ucast b"
  using word_of_nat_eq_iff [of "unat b" "unat (ucast b :: uint32)", where 'a = 32] by simp

lemma ref_tag_byte:
  assumes "b \<noteq> 0" and "b < (128 :: byte)"
  shows "(ucast b :: uint32) - 1 < 127"
proof -
  have 0: "unat (ucast b :: uint32) \<noteq> 0" and lt: "unat b < 128"
    using assms by (simp_all add: unat_eq_zero word_less_nat_alt)
  have "(ucast b :: uint32) \<noteq> 0"
    using 0 by (metis unsigned_0)
  then have "unat ((ucast b :: uint32) - 1) = unat b - 1"
    by (simp add: unat_minus_one)
  then show ?thesis
    using lt 0 by (simp add: word_less_nat_alt)
qed

lemma ref_read_tag_byte:
  assumes "rs_unread s = b # rest" and "b \<noteq> 0" and "b < 128"
  shows "ref_read_tag 127 s = ((ucast b, True), s\<lparr>rs_unread := rest\<rparr>)"
  using assms ref_tag_byte [OF assms(2,3)] by (simp add: ref_read_tag_def read_varint_byte)

lemma ref_read_enum_ref_enum:
  "rs_unread s = ref_enum v @ rest \<Longrightarrow> ref_read_enum s = (Some v, s\<lparr>rs_unread := rest\<rparr>)"
  using read_varint_varint [OF unat_less_128_10 [of "scast v"], of rest]
  by (simp add: ref_read_enum_def ref_enum_def)

lemma ref_read_string_ref_string:
  assumes "rs_unread s = ref_string x @ rest" and "length x < 2 ^ 31"
  shows "ref_read_string old s = (True, x, s\<lparr>rs_unread := rest\<rparr>)"
proof -
  have "length x < 128 ^ 5"
    using assms(2) by simp
  then have "read_varint 5 (rs_unread s) = Some (length x, x @ rest)"
    by (simp add: assms(1) ref_string_def read_varint_varint)
  with assms(2) show ?thesis
    by (simp add: ref_read_string_def)
qed

lemma length_ref_enum: "length (ref_enum v) \<le> 10"
  unfolding ref_enum_def by (rule length_varint [OF unat_less_128_10]) simp

lemma length_ref_string: "length x < 2 ^ 31 \<Longrightarrow> length (ref_string x) \<le> length x + 5"
  using length_varint [of "length x" 5] by (simp add: ref_string_def)

interpretation ref: pb_lib ref_wire rs_unread
proof (unfold_locales, goal_cases)
  case (18 s b rest)
  then show ?case by (simp add: ref_wire_def ref_read_tag_byte)
next
  case (19 s)
  then show ?case by (simp add: ref_wire_def ref_read_tag_def)
next
  case (20 t s r s')
  then show ?case by (auto simp: ref_wire_def ref_expect_tag_def split: list.splits if_splits)
next
  case (21 s r s')
  then show ?case by (auto simp: ref_wire_def ref_expect_end_def split: if_splits)
next
  case (22 s v rest)
  then show ?case by (simp add: ref_wire_def ref_read_enum_ref_enum)
next
  case (23 s w rest)
  then show ?case by (simp add: ref_wire_def ref_read_fixed64_def)
next
  case (24 s x rest old)
  then show ?case by (simp add: ref_wire_def ref_read_string_ref_string)
next
  case (25 s x rest old)
  then show ?case by (simp add: ref_wire_def ref_read_string_ref_string)
qed (simp_all add: ref_wire_def length_ref_enum length_ref_string)

interpretation ref_prog: pb_progress ref_wire rs_unread
proof (unfold_locales, goal_cases)
  case (1 c s t ok s')
  then show ?case
    by (auto simp: ref_wire_def ref_read_tag_def dest: read_varint_length split: if_splits option.splits prod.splits)
next
  case (2 c s ok s')
  then show ?case
    by (auto simp: ref_wire_def ref_read_tag_def not_less split: if_splits option.splits prod.splits)
next
  case (3 t s r s')
  then show ?case by (auto simp: ref_wire_def ref_expect_tag_def split: list.splits if_splits)
next
  case (4 s b s')
  then show ?case by (auto simp: ref_wire_def ref_expect_end_def split: if_splits)
next
  case (5 s v s')
  then show ?case
    by (auto simp: ref_wire_def ref_read_enum_def dest!: read_varint_length split: option.splits prod.splits)
next
  case (6 s w s')
  then show ?case by (auto simp: ref_wire_def ref_read_fixed64_def split: if_splits)
next
  case (7 x s b y s')
  then show ?case
    by (auto simp: ref_wire_def ref_read_string_def dest!: read_varint_length split: if_splits option.splits prod.splits)
next
  case (8 x s b y s')
  then show ?case
    by (auto simp: ref_wire_def ref_read_string_def dest!: read_varint_length split: if_splits option.splits prod.splits)
next
  case (9 t u s b u' s')
  then show ?case
    by (auto simp: ref_wire_def ref_skip_def Let_def split: if_splits option.splits)
qed

end
