(* ===== verification/Rpc_Message.thy ===== *)
theory Rpc_Message
  imports Protobuf
begin

text \<open>
  \<open>src/rpc.pb.h\<close> and \<open>src/rpc.pb.cc\<close>: the message class \<open>RpcMessage\<close> generated from
  \<open>src/rpc.proto\<close>. The record has the class's fields (the presence bits, the values, the
  string pointers that start at the shared empty string, the cached size, the unknown
  fields); every accessor and the serialisation, parsing, merging and clearing methods are
  translated. The protocol-buffer runtime they call is the record \<open>L\<close> of theory
  \<open>Protobuf\<close>. The UTF-8 verification of the string fields only logs and is left out.
\<close>

subsection \<open>Enumerations\<close>

abbreviation (input) UNKNOW :: int32 where "UNKNOW \<equiv> 0"
abbreviation (input) REQUEST :: int32 where "REQUEST \<equiv> 1"
abbreviation (input) RESPONSE :: int32 where "RESPONSE \<equiv> 2"
abbreviation (input) ERROR :: int32 where "ERROR \<equiv> 3"

definition MessageType_IsValid :: "int32 \<Rightarrow> bool" where
  "MessageType_IsValid v \<longleftrightarrow> v = 0 \<or> v = 1 \<or> v = 2 \<or> v = 3"

abbreviation (input) NO_ERROR :: int32 where "NO_ERROR \<equiv> 0"
abbreviation (input) WRONG_PROTO :: int32 where "WRONG_PROTO \<equiv> 1"
abbreviation (input) NO_SERVICE :: int32 where "NO_SERVICE \<equiv> 2"
abbreviation (input) NO_METHOD :: int32 where "NO_METHOD \<equiv> 3"
abbreviation (input) INVALID_REQUEST :: int32 where "INVALID_REQUEST \<equiv> 4"
abbreviation (input) INVALID_RESPONSE :: int32 where "INVALID_RESPONSE \<equiv> 5"
abbreviation (input) TIMEOUT :: int32 where "TIMEOUT \<equiv> 6"

definition ErrorCode_IsValid :: "int32 \<Rightarrow> bool" where
  "ErrorCode_IsValid v \<longleftrightarrow>
     v = 0 \<or> v = 1 \<or> v = 2 \<or> v = 3 \<or> v = 4 \<or> v = 5 \<or> v = 6"

subsection \<open>The object\<close>

text \<open>A string field points to the runtime's shared empty string or to a string it owns.\<close>

datatype pstring = EmptyString | Owned bytes

primrec str_val :: "pstring \<Rightarrow> bytes" where
  "str_val EmptyString = []"
| "str_val (Owned x) = x"

record 'u RpcMessage =
  unknown_fields_f :: 'u
  has_bits_f :: uint32
  cached_size_f :: int32
  id_f :: uint64
  service_f :: pstring
  method_f :: pstring
  type_f :: int32
  error_f :: int32
  request_f :: pstring
  response_f :: pstring

definition SharedCtor :: "('s, 'u) pb_ops \<Rightarrow> 'u RpcMessage" where
  "SharedCtor L =
    \<lparr>unknown_fields_f = uf_new L, has_bits_f = 0, cached_size_f = 0, id_f = 0,
     service_f = EmptyString, method_f = EmptyString, type_f = 0, error_f = 0,
     request_f = EmptyString, response_f = EmptyString\<rparr>"

definition RpcMessage_new :: "('s, 'u) pb_ops \<Rightarrow> 'u RpcMessage" where
  "RpcMessage_new L = SharedCtor L"

text \<open>The strings the destructor deletes: those the object owns.\<close>

definition SharedDtor :: "'u RpcMessage \<Rightarrow> bytes list" where
  "SharedDtor m =
     [str_val p. p \<leftarrow> [service_f m, method_f m, request_f m, response_f m], p \<noteq> EmptyString]"

definition SetCachedSize :: "int32 \<Rightarrow> 'u RpcMessage \<Rightarrow> 'u RpcMessage" where
  "SetCachedSize sz m = m\<lparr>cached_size_f := sz\<rparr>"

subsection \<open>Accessors\<close>

text \<open>Field \<open>type\<close>.\<close>

definition has_type :: "'u RpcMessage \<Rightarrow> bool" where
  "has_type m \<longleftrightarrow> has_bits_f m AND 0x00000001 \<noteq> 0"

definition set_has_type :: "'u RpcMessage \<Rightarrow> 'u RpcMessage" where
  "set_has_type m = m\<lparr>has_bits_f := has_bits_f m OR 0x00000001\<rparr>"

definition clear_has_type :: "'u RpcMessage \<Rightarrow> 'u RpcMessage" where
  "clear_has_type m = m\<lparr>has_bits_f := has_bits_f m AND NOT 0x00000001\<rparr>"

definition clear_type :: "'u RpcMessage \<Rightarrow> 'u RpcMessage" where
  "clear_type m = clear_has_type (m\<lparr>type_f := 0\<rparr>)"

definition type_get :: "'u RpcMessage \<Rightarrow> int32" where
  "type_get m = type_f m"

definition set_type :: "int32 \<Rightarrow> 'u RpcMessage \<Rightarrow> 'u RpcMessage res" where
  "set_type v m = (if \<not> MessageType_IsValid v then Inl Assertion_failed else Inr ((set_has_type m)\<lparr>type_f := v\<rparr>))"

text \<open>Field \<open>id\<close>.\<close>

definition has_id :: "'u RpcMessage \<Rightarrow> bool" where
  "has_id m \<longleftrightarrow> has_bits_f m AND 0x00000002 \<noteq> 0"

definition set_has_id :: "'u RpcMessage \<Rightarrow> 'u RpcMessage" where
  "set_has_id m = m\<lparr>has_bits_f := has_bits_f m OR 0x00000002\<rparr>"

definition clear_has_id :: "'u RpcMessage \<Rightarrow> 'u RpcMessage" where
  "clear_has_id m = m\<lparr>has_bits_f := has_bits_f m AND NOT 0x00000002\<rparr>"

definition clear_id :: "'u RpcMessage \<Rightarrow> 'u RpcMessage" where
  "clear_id m = clear_has_id (m\<lparr>id_f := 0\<rparr>)"

definition id_get :: "'u RpcMessage \<Rightarrow> uint64" where
  "id_get m = id_f m"

definition set_id :: "uint64 \<Rightarrow> 'u RpcMessage \<Rightarrow> 'u RpcMessage" where
  "set_id v m = (set_has_id m)\<lparr>id_f := v\<rparr>"

text \<open>Field \<open>service\<close>.\<close>

definition has_service :: "'u RpcMessage \<Rightarrow> bool" where
  "has_service m \<longleftrightarrow> has_bits_f m AND 0x00000004 \<noteq> 0"

definition set_has_service :: "'u RpcMessage \<Rightarrow> 'u RpcMessage" where
  "set_has_service m = m\<lparr>has_bits_f := has_bits_f m OR 0x00000004\<rparr>"

definition clear_has_service :: "'u RpcMessage \<Rightarrow> 'u RpcMessage" where
  "clear_has_service m = m\<lparr>has_bits_f := has_bits_f m AND NOT 0x00000004\<rparr>"

definition clear_service :: "'u RpcMessage \<Rightarrow> 'u RpcMessage" where
  "clear_service m =
     clear_has_service (if service_f m \<noteq> EmptyString then m\<lparr>service_f := Owned []\<rparr> else m)"

definition service_get :: "'u RpcMessage \<Rightarrow> bytes" where
  "service_get m = str_val (service_f m)"

definition mutable_service :: "'u RpcMessage \<Rightarrow> 'u RpcMessage" where
  "mutable_service m =
     (let m = set_has_service m in if service_f m = EmptyString then m\<lparr>service_f := Owned []\<rparr> else m)"

definition set_service :: "bytes \<Rightarrow> 'u RpcMessage \<Rightarrow> 'u RpcMessage" where
  "set_service v m =
     (let m = set_has_service m;
          m = (if service_f m = EmptyString then m\<lparr>service_f := Owned []\<rparr> else m)
      in m\<lparr>service_f := Owned v\<rparr>)"

definition set_service_cstr :: "bytes \<Rightarrow> 'u RpcMessage \<Rightarrow> 'u RpcMessage" where
  "set_service_cstr v m =
     (let m = set_has_service m;
          m = (if service_f m = EmptyString then m\<lparr>service_f := Owned []\<rparr> else m)
      in m\<lparr>service_f := Owned (takeWhile (\<lambda>b. b \<noteq> 0) v)\<rparr>)"

definition set_service_pointer :: "bytes \<Rightarrow> nat \<Rightarrow> 'u RpcMessage \<Rightarrow> 'u RpcMessage" where
  "set_service_pointer v sz m =
     (let m = set_has_service m;
          m = (if service_f m = EmptyString then m\<lparr>service_f := Owned []\<rparr> else m)
      in m\<lparr>service_f := Owned (take sz v)\<rparr>)"

definition release_service :: "'u RpcMessage \<Rightarrow> bytes option \<times> 'u RpcMessage" where
  "release_service m =
     (let m = clear_has_service m in
      case service_f m of
        EmptyString \<Rightarrow> (None, m)
      | Owned temp \<Rightarrow> (Some temp, m\<lparr>service_f := EmptyString\<rparr>))"

definition set_allocated_service :: "bytes option \<Rightarrow> 'u RpcMessage \<Rightarrow> 'u RpcMessage" where
  "set_allocated_service v m =
     (case v of
        Some x \<Rightarrow> (set_has_service m)\<lparr>service_f := Owned x\<rparr>
      | None \<Rightarrow> (clear_has_service m)\<lparr>service_f := EmptyString\<rparr>)"

text \<open>Field \<open>method\<close>.\<close>

definition has_method :: "'u RpcMessage \<Rightarrow> bool" where
  "has_method m \<longleftrightarrow> has_bits_f m AND 0x00000008 \<noteq> 0"

definition set_has_method :: "'u RpcMessage \<Rightarrow> 'u RpcMessage" where
  "set_has_method m = m\<lparr>has_bits_f := has_bits_f m OR 0x00000008\<rparr>"

definition clear_has_method :: "'u RpcMessage \<Rightarrow> 'u RpcMessage" where
  "clear_has_method m = m\<lparr>has_bits_f := has_bits_f m AND NOT 0x00000008\<rparr>"

definition clear_method :: "'u RpcMessage \<Rightarrow> 'u RpcMessage" where
  "clear_method m =
     clear_has_method (if method_f m \<noteq> EmptyString then m\<lparr>method_f := Owned []\<rparr> else m)"

definition method_get :: "'u RpcMessage \<Rightarrow> bytes" where
  "method_get m = str_val (method_f m)"

definition mutable_method :: "'u RpcMessage \<Rightarrow> 'u RpcMessage" where
  "mutable_method m =
     (let m = set_has_method m in if method_f m = EmptyString then m\<lparr>method_f := Owned []\<rparr> else m)"

definition set_method :: "bytes \<Rightarrow> 'u RpcMessage \<Rightarrow> 'u RpcMessage" where
  "set_method v m =
     (let m = set_has_method m;
          m = (if method_f m = EmptyString then m\<lparr>method_f := Owned []\<rparr> else m)
      in m\<lparr>method_f := Owned v\<rparr>)"

definition set_method_cstr :: "bytes \<Rightarrow> 'u RpcMessage \<Rightarrow> 'u RpcMessage" where
  "set_method_cstr v m =
     (let m = set_has_method m;
          m = (if method_f m = EmptyString then m\<lparr>method_f := Owned []\<rparr> else m)
      in m\<lparr>method_f := Owned (takeWhile (\<lambda>b. b \<noteq> 0) v)\<rparr>)"

definition set_method_pointer :: "bytes \<Rightarrow> nat \<Rightarrow> 'u RpcMessage \<Rightarrow> 'u RpcMessage" where
  "set_method_pointer v sz m =
     (let m = set_has_method m;
          m = (if method_f m = EmptyString then m\<lparr>method_f := Owned []\<rparr> else m)
      in m\<lparr>method_f := Owned (take sz v)\<rparr>)"

definition release_method :: "'u RpcMessage \<Rightarrow> bytes option \<times> 'u RpcMessage" where
  "release_method m =
     (let m = clear_has_method m in
      case method_f m of
        EmptyString \<Rightarrow> (None, m)
      | Owned temp \<Rightarrow> (Some temp, m\<lparr>method_f := EmptyString\<rparr>))"

definition set_allocated_method :: "bytes option \<Rightarrow> 'u RpcMessage \<Rightarrow> 'u RpcMessage" where
  "set_allocated_method v m =
     (case v of
        Some x \<Rightarrow> (set_has_method m)\<lparr>method_f := Owned x\<rparr>
      | None \<Rightarrow> (clear_has_method m)\<lparr>method_f := EmptyString\<rparr>)"

text \<open>Field \<open>request\<close>.\<close>

definition has_request :: "'u RpcMessage \<Rightarrow> bool" where
  "has_request m \<longleftrightarrow> has_bits_f m AND 0x00000010 \<noteq> 0"

definition set_has_request :: "'u RpcMessage \<Rightarrow> 'u RpcMessage" where
  "set_has_request m = m\<lparr>has_bits_f := has_bits_f m OR 0x00000010\<rparr>"

definition clear_has_request :: "'u RpcMessage \<Rightarrow> 'u RpcMessage" where
  "clear_has_request m = m\<lparr>has_bits_f := has_bits_f m AND NOT 0x00000010\<rparr>"

definition clear_request :: "'u RpcMessage \<Rightarrow> 'u RpcMessage" where
  "clear_request m =
     clear_has_request (if request_f m \<noteq> EmptyString then m\<lparr>request_f := Owned []\<rparr> else m)"

definition request_get :: "'u RpcMessage \<Rightarrow> bytes" where
  "request_get m = str_val (request_f m)"

definition mutable_request :: "'u RpcMessage \<Rightarrow> 'u RpcMessage" where
  "mutable_request m =
     (let m = set_has_request m in if request_f m = EmptyString then m\<lparr>request_f := Owned []\<rparr> else m)"

definition set_request :: "bytes \<Rightarrow> 'u RpcMessage \<Rightarrow> 'u RpcMessage" where
  "set_request v m =
     (let m = set_has_request m;
          m = (if request_f m = EmptyString then m\<lparr>request_f := Owned []\<rparr> else m)
      in m\<lparr>request_f := Owned v\<rparr>)"

definition set_request_cstr :: "bytes \<Rightarrow> 'u RpcMessage \<Rightarrow> 'u RpcMessage" where
  "set_request_cstr v m =
     (let m = set_has_request m;
          m = (if request_f m = EmptyString then m\<lparr>request_f := Owned []\<rparr> else m)
      in m\<lparr>request_f := Owned (takeWhile (\<lambda>b. b \<noteq> 0) v)\<rparr>)"

definition set_request_pointer :: "bytes \<Rightarrow> nat \<Rightarrow> 'u RpcMessage \<Rightarrow> 'u RpcMessage" where
  "set_request_pointer v sz m =
     (let m = set_has_request m;
          m = (if request_f m = EmptyString then m\<lparr>request_f := Owned []\<rparr> else m)
      in m\<lparr>request_f := Owned (take sz v)\<rparr>)"

definition release_request :: "'u RpcMessage \<Rightarrow> bytes option \<times> 'u RpcMessage" where
  "release_request m =
     (let m = clear_has_request m in
      case request_f m of
        EmptyString \<Rightarrow> (None, m)
      | Owned temp \<Rightarrow> (Some temp, m\<lparr>request_f := EmptyString\<rparr>))"

definition set_allocated_request :: "bytes option \<Rightarrow> 'u RpcMessage \<Rightarrow> 'u RpcMessage" where
  "set_allocated_request v m =
     (case v of
        Some x \<Rightarrow> (set_has_request m)\<lparr>request_f := Owned x\<rparr>
      | None \<Rightarrow> (clear_has_request m)\<lparr>request_f := EmptyString\<rparr>)"

text \<open>Field \<open>response\<close>.\<close>

definition has_response :: "'u RpcMessage \<Rightarrow> bool" where
  "has_response m \<longleftrightarrow> has_bits_f m AND 0x00000020 \<noteq> 0"

definition set_has_response :: "'u RpcMessage \<Rightarrow> 'u RpcMessage" where
  "set_has_response m = m\<lparr>has_bits_f := has_bits_f m OR 0x00000020\<rparr>"

definition clear_has_response :: "'u RpcMessage \<Rightarrow> 'u RpcMessage" where
  "clear_has_response m = m\<lparr>has_bits_f := has_bits_f m AND NOT 0x00000020\<rparr>"

definition clear_response :: "'u RpcMessage \<Rightarrow> 'u RpcMessage" where
  "clear_response m =
     clear_has_response (if response_f m \<noteq> EmptyString then m\<lparr>response_f := Owned []\<rparr> else m)"

definition response_get :: "'u RpcMessage \<Rightarrow> bytes" where
  "response_get m = str_val (response_f m)"

definition mutable_response :: "'u RpcMessage \<Rightarrow> 'u RpcMessage" where
  "mutable_response m =
     (let m = set_has_response m in if response_f m = EmptyString then m\<lparr>response_f := Owned []\<rparr> else m)"

definition set_response :: "bytes \<Rightarrow> 'u RpcMessage \<Rightarrow> 'u RpcMessage" where
  "set_response v m =
     (let m = set_has_response m;
          m = (if response_f m = EmptyString then m\<lparr>response_f := Owned []\<rparr> else m)
      in m\<lparr>response_f := Owned v\<rparr>)"

definition set_response_cstr :: "bytes \<Rightarrow> 'u RpcMessage \<Rightarrow> 'u RpcMessage" where
  "set_response_cstr v m =
     (let m = set_has_response m;
          m = (if response_f m = EmptyString then m\<lparr>response_f := Owned []\<rparr> else m)
      in m\<lparr>response_f := Owned (takeWhile (\<lambda>b. b \<noteq> 0) v)\<rparr>)"

definition set_response_pointer :: "bytes \<Rightarrow> nat \<Rightarrow> 'u RpcMessage \<Rightarrow> 'u RpcMessage" where
  "set_response_pointer v sz m =
     (let m = set_has_response m;
          m = (if response_f m = EmptyString then m\<lparr>response_f := Owned []\<rparr> else m)
      in m\<lparr>response_f := Owned (take sz v)\<rparr>)"

definition release_response :: "'u RpcMessage \<Rightarrow> bytes option \<times> 'u RpcMessage" where
  "release_response m =
     (let m = clear_has_response m in
      case response_f m of
        EmptyString \<Rightarrow> (None, m)
      | Owned temp \<Rightarrow> (Some temp, m\<lparr>response_f := EmptyString\<rparr>))"

definition set_allocated_response :: "bytes option \<Rightarrow> 'u RpcMessage \<Rightarrow> 'u RpcMessage" where
  "set_allocated_response v m =
     (case v of
        Some x \<Rightarrow> (set_has_response m)\<lparr>response_f := Owned x\<rparr>
      | None \<Rightarrow> (clear_has_response m)\<lparr>response_f := EmptyString\<rparr>)"

text \<open>Field \<open>error\<close>.\<close>

definition has_error :: "'u RpcMessage \<Rightarrow> bool" where
  "has_error m \<longleftrightarrow> has_bits_f m AND 0x00000040 \<noteq> 0"

definition set_has_error :: "'u RpcMessage \<Rightarrow> 'u RpcMessage" where
  "set_has_error m = m\<lparr>has_bits_f := has_bits_f m OR 0x00000040\<rparr>"

definition clear_has_error :: "'u RpcMessage \<Rightarrow> 'u RpcMessage" where
  "clear_has_error m = m\<lparr>has_bits_f := has_bits_f m AND NOT 0x00000040\<rparr>"

definition clear_error :: "'u RpcMessage \<Rightarrow> 'u RpcMessage" where
  "clear_error m = clear_has_error (m\<lparr>error_f := 0\<rparr>)"

definition error_get :: "'u RpcMessage \<Rightarrow> int32" where
  "error_get m = error_f m"

definition set_error :: "int32 \<Rightarrow> 'u RpcMessage \<Rightarrow> 'u RpcMessage res" where
  "set_error v m = (if \<not> ErrorCode_IsValid v then Inl Assertion_failed else Inr ((set_has_error m)\<lparr>error_f := v\<rparr>))"

lemmas has_defs = has_type_def has_id_def has_service_def has_method_def has_request_def has_response_def has_error_def
lemmas bit_defs = set_has_type_def set_has_id_def set_has_service_def set_has_method_def set_has_request_def set_has_response_def set_has_error_def
  clear_has_type_def clear_has_id_def clear_has_service_def clear_has_method_def clear_has_request_def clear_has_response_def clear_has_error_def
lemmas get_defs = type_get_def id_get_def service_get_def method_get_def request_get_def response_get_def error_get_def
lemmas clear_field_defs = clear_type_def clear_id_def clear_service_def clear_method_def clear_request_def clear_response_def clear_error_def
lemmas set_defs = set_type_def set_id_def set_service_def set_method_def set_request_def set_response_def set_error_def
lemmas mutable_defs = mutable_service_def mutable_method_def mutable_request_def mutable_response_def

subsection \<open>Clearing, merging, swapping\<close>

definition Clear :: "('s, 'u) pb_ops \<Rightarrow> 'u RpcMessage \<Rightarrow> 'u RpcMessage" where
  "Clear L m =
     (let m = (if has_bits_f m AND 127 \<noteq> 0 then
                 (let m = m\<lparr>type_f := 0, error_f := 0\<rparr>;
                      m = m\<lparr>id_f := 0\<rparr>;
                      m = (if has_service m \<and> service_f m \<noteq> EmptyString then m\<lparr>service_f := Owned []\<rparr> else m);
                      m = (if has_method m \<and> method_f m \<noteq> EmptyString then m\<lparr>method_f := Owned []\<rparr> else m);
                      m = (if has_request m \<and> request_f m \<noteq> EmptyString then m\<lparr>request_f := Owned []\<rparr> else m)
                  in if has_response m \<and> response_f m \<noteq> EmptyString then m\<lparr>response_f := Owned []\<rparr> else m)
               else m)
      in m\<lparr>has_bits_f := 0, unknown_fields_f := uf_new L\<rparr>)"

text \<open>
  \<open>same\<close> says that \<open>from\<close> and \<open>this\<close> are one object, which the method checks first. The
  version that takes a \<open>Message\<close> comes here when the argument is an \<open>RpcMessage\<close>.
\<close>

definition MergeFrom ::
  "('s, 'u) pb_ops \<Rightarrow> bool \<Rightarrow> 'u RpcMessage \<Rightarrow> 'u RpcMessage \<Rightarrow> 'u RpcMessage res" where
  "MergeFrom L same from m =
     (if same then Inl (Check_failed ''&from != this'')
      else
       bind_res
        (if has_bits_f from AND 0xff \<noteq> 0 then
          bind_res (if has_type from then set_type (type_get from) m else Inr m) (\<lambda>m.
          let m = (if has_id from then set_id (id_get from) m else m);
              m = (if has_service from then set_service (service_get from) m else m);
              m = (if has_method from then set_method (method_get from) m else m);
              m = (if has_request from then set_request (request_get from) m else m);
              m = (if has_response from then set_response (response_get from) m else m)
          in if has_error from then set_error (error_get from) m else Inr m)
         else Inr m)
        (\<lambda>m. Inr (m\<lparr>unknown_fields_f := uf_MergeFrom L (unknown_fields_f from) (unknown_fields_f m)\<rparr>)))"

definition CopyFrom ::
  "('s, 'u) pb_ops \<Rightarrow> bool \<Rightarrow> 'u RpcMessage \<Rightarrow> 'u RpcMessage \<Rightarrow> 'u RpcMessage res" where
  "CopyFrom L same from m = (if same then Inr m else MergeFrom L False from (Clear L m))"

definition RpcMessage_copy :: "('s, 'u) pb_ops \<Rightarrow> 'u RpcMessage \<Rightarrow> 'u RpcMessage res" where
  "RpcMessage_copy L from = MergeFrom L False from (SharedCtor L)"

definition IsInitialized :: "'u RpcMessage \<Rightarrow> bool" where
  "IsInitialized m = True"

definition Swap :: "'u RpcMessage \<Rightarrow> 'u RpcMessage \<Rightarrow> 'u RpcMessage \<times> 'u RpcMessage" where
  "Swap m other =
    (m\<lparr>type_f := type_f other, id_f := id_f other, service_f := service_f other,
       method_f := method_f other, request_f := request_f other, response_f := response_f other,
       error_f := error_f other, has_bits_f := has_bits_f other,
       unknown_fields_f := unknown_fields_f other, cached_size_f := cached_size_f other\<rparr>,
     other\<lparr>type_f := type_f m, id_f := id_f m, service_f := service_f m,
       method_f := method_f m, request_f := request_f m, response_f := response_f m,
       error_f := error_f m, has_bits_f := has_bits_f m,
       unknown_fields_f := unknown_fields_f m, cached_size_f := cached_size_f m\<rparr>)"

subsection \<open>Serialisation\<close>

definition SerializeWithCachedSizesToArray :: "('s, 'u) pb_ops \<Rightarrow> 'u RpcMessage \<Rightarrow> bytes" where
  "SerializeWithCachedSizesToArray L m =
     (if has_type m then WriteEnumToArray L 1 (type_get m) else []) @
     (if has_id m then WriteFixed64ToArray L 2 (id_get m) else []) @
     (if has_service m then WriteStringToArray L 3 (service_get m) else []) @
     (if has_method m then WriteStringToArray L 4 (method_get m) else []) @
     (if has_request m then WriteBytesToArray L 5 (request_get m) else []) @
     (if has_response m then WriteBytesToArray L 6 (response_get m) else []) @
     (if has_error m then WriteEnumToArray L 7 (error_get m) else []) @
     (if \<not> uf_empty L (unknown_fields_f m)
      then SerializeUnknownFieldsToArray L (unknown_fields_f m) else [])"

definition SerializeWithCachedSizes :: "('s, 'u) pb_ops \<Rightarrow> 'u RpcMessage \<Rightarrow> bytes \<Rightarrow> bytes" where
  "SerializeWithCachedSizes L m output =
     (let output = (if has_type m then output @ WriteEnum L 1 (type_get m) else output);
          output = (if has_id m then output @ WriteFixed64 L 2 (id_get m) else output);
          output = (if has_service m then output @ WriteStringMaybeAliased L 3 (service_get m) else output);
          output = (if has_method m then output @ WriteStringMaybeAliased L 4 (method_get m) else output);
          output = (if has_request m then output @ WriteBytesMaybeAliased L 5 (request_get m) else output);
          output = (if has_response m then output @ WriteBytesMaybeAliased L 6 (response_get m) else output);
          output = (if has_error m then output @ WriteEnum L 7 (error_get m) else output)
      in if \<not> uf_empty L (unknown_fields_f m)
         then output @ SerializeUnknownFields L (unknown_fields_f m) else output)"

text \<open>
  \<open>ByteSize\<close> sums in a signed \<open>int\<close>, and stores its result in the cached size. A present field
  adds its tag byte and the size of its value: \<open>total_size += 1 + size\<close>.
\<close>

definition add_size :: "bool \<Rightarrow> int32 \<Rightarrow> int32 \<Rightarrow> int32 res" where
  "add_size present sz total_size =
     (if present then bind_res (signed_add 1 sz) (signed_add total_size) else Inr total_size)"

definition ByteSize :: "('s, 'u) pb_ops \<Rightarrow> 'u RpcMessage \<Rightarrow> (int32 \<times> 'u RpcMessage) res" where
  "ByteSize L m =
     bind_res
       (if has_bits_f m AND 0xff \<noteq> 0 then
          bind_res (add_size (has_type m) (EnumSize L (type_get m)) 0) (\<lambda>total_size.
          bind_res (add_size (has_id m) 8 total_size) (\<lambda>total_size.
          bind_res (add_size (has_service m) (StringSize L (service_get m)) total_size) (\<lambda>total_size.
          bind_res (add_size (has_method m) (StringSize L (method_get m)) total_size) (\<lambda>total_size.
          bind_res (add_size (has_request m) (BytesSize L (request_get m)) total_size) (\<lambda>total_size.
          bind_res (add_size (has_response m) (BytesSize L (response_get m)) total_size) (\<lambda>total_size.
          add_size (has_error m) (EnumSize L (error_get m)) total_size))))))
        else Inr 0) (\<lambda>total_size.
     bind_res
       (if \<not> uf_empty L (unknown_fields_f m)
        then signed_add total_size (ComputeUnknownFieldsSize L (unknown_fields_f m)) else Inr total_size) (\<lambda>total_size.
     Inr (total_size, SetCachedSize total_size m)))"

text \<open>Every part of the serialised message is shorter than two gigabytes.\<close>

definition parts_fit :: "('s, 'u) pb_ops \<Rightarrow> 'u RpcMessage \<Rightarrow> bool" where
  "parts_fit L m \<longleftrightarrow>
     (has_service m \<longrightarrow> length (WriteStringWithSizeToArray L (service_get m)) < 2 ^ 31) \<and>
     (has_method m \<longrightarrow> length (WriteStringWithSizeToArray L (method_get m)) < 2 ^ 31) \<and>
     (has_request m \<longrightarrow> length (WriteStringWithSizeToArray L (request_get m)) < 2 ^ 31) \<and>
     (has_response m \<longrightarrow> length (WriteStringWithSizeToArray L (response_get m)) < 2 ^ 31) \<and>
     (\<not> uf_empty L (unknown_fields_f m) \<longrightarrow> length (SerializeUnknownFieldsToArray L (unknown_fields_f m)) < 2 ^ 31)"

subsection \<open>Parsing\<close>

text \<open>
  The body of \<open>MergePartialFromCodedStream\<close> is a loop over a switch whose cases jump to the
  label of the next field when its tag follows. A label is the program point; \<open>Read_tag\<close> is
  the top of the loop. A step either jumps or returns.
\<close>

datatype parse_label =
  Read_tag | Parse_id | Parse_service | Parse_method | Parse_request | Parse_response | Parse_error

datatype (dead 's, dead 'u) parse_next =
    Goto parse_label "'u RpcMessage" 's
  | Return "(bool \<times> 'u RpcMessage \<times> 's) res"

definition handle_unusual ::
  "('s, 'u) pb_ops \<Rightarrow> uint32 \<Rightarrow> 'u RpcMessage \<Rightarrow> 's \<Rightarrow> ('s, 'u) parse_next" where
  "handle_unusual L tag m s =
     (if tag = 0 \<or> GetTagWireType L tag = 4 then Return (Inr (True, m, s))
      else let (ok, u, s) = SkipField L tag (unknown_fields_f m) s;
               m = m\<lparr>unknown_fields_f := u\<rparr>
           in if ok then Goto Read_tag m s else Return (Inr (False, m, s)))"

definition do_type :: "('s, 'u) pb_ops \<Rightarrow> 'u RpcMessage \<Rightarrow> 's \<Rightarrow> ('s, 'u) parse_next" where
  "do_type L m s =
     (case ReadEnum L s of
        (None, s) \<Rightarrow> Return (Inr (False, m, s))
      | (Some v, s) \<Rightarrow>
         (case (if MessageType_IsValid v then set_type v m
                else Inr (m\<lparr>unknown_fields_f := uf_AddVarint L 1 (scast v) (unknown_fields_f m)\<rparr>)) of
            Inl e \<Rightarrow> Return (Inl e)
          | Inr m \<Rightarrow> let (b, s) = ExpectTag L 17 s in Goto (if b then Parse_id else Read_tag) m s))"

definition do_id :: "('s, 'u) pb_ops \<Rightarrow> 'u RpcMessage \<Rightarrow> 's \<Rightarrow> ('s, 'u) parse_next" where
  "do_id L m s =
     (case ReadFixed64 L s of
        (None, s) \<Rightarrow> Return (Inr (False, m, s))
      | (Some v, s) \<Rightarrow>
          let m = set_has_id (m\<lparr>id_f := v\<rparr>);
              (b, s) = ExpectTag L 26 s
          in Goto (if b then Parse_service else Read_tag) m s)"

definition do_service :: "('s, 'u) pb_ops \<Rightarrow> 'u RpcMessage \<Rightarrow> 's \<Rightarrow> ('s, 'u) parse_next" where
  "do_service L m s =
     (let m = mutable_service m;
          (ok, x, s) = ReadString L (service_get m) s;
          m = m\<lparr>service_f := Owned x\<rparr>
      in if \<not> ok then Return (Inr (False, m, s))
         else let (b, s) = ExpectTag L 34 s
              in Goto (if b then Parse_method else Read_tag) m s)"

definition do_method :: "('s, 'u) pb_ops \<Rightarrow> 'u RpcMessage \<Rightarrow> 's \<Rightarrow> ('s, 'u) parse_next" where
  "do_method L m s =
     (let m = mutable_method m;
          (ok, x, s) = ReadString L (method_get m) s;
          m = m\<lparr>method_f := Owned x\<rparr>
      in if \<not> ok then Return (Inr (False, m, s))
         else let (b, s) = ExpectTag L 42 s
              in Goto (if b then Parse_request else Read_tag) m s)"

definition do_request :: "('s, 'u) pb_ops \<Rightarrow> 'u RpcMessage \<Rightarrow> 's \<Rightarrow> ('s, 'u) parse_next" where
  "do_request L m s =
     (let m = mutable_request m;
          (ok, x, s) = ReadBytes L (request_get m) s;
          m = m\<lparr>request_f := Owned x\<rparr>
      in if \<not> ok then Return (Inr (False, m, s))
         else let (b, s) = ExpectTag L 50 s
              in Goto (if b then Parse_response else Read_tag) m s)"

definition do_response :: "('s, 'u) pb_ops \<Rightarrow> 'u RpcMessage \<Rightarrow> 's \<Rightarrow> ('s, 'u) parse_next" where
  "do_response L m s =
     (let m = mutable_response m;
          (ok, x, s) = ReadBytes L (response_get m) s;
          m = m\<lparr>response_f := Owned x\<rparr>
      in if \<not> ok then Return (Inr (False, m, s))
         else let (b, s) = ExpectTag L 56 s
              in Goto (if b then Parse_error else Read_tag) m s)"

definition do_error :: "('s, 'u) pb_ops \<Rightarrow> 'u RpcMessage \<Rightarrow> 's \<Rightarrow> ('s, 'u) parse_next" where
  "do_error L m s =
     (case ReadEnum L s of
        (None, s) \<Rightarrow> Return (Inr (False, m, s))
      | (Some v, s) \<Rightarrow>
         (case (if ErrorCode_IsValid v then set_error v m
                else Inr (m\<lparr>unknown_fields_f := uf_AddVarint L 7 (scast v) (unknown_fields_f m)\<rparr>)) of
            Inl e \<Rightarrow> Return (Inl e)
          | Inr m \<Rightarrow> let (b, s) = ExpectAtEnd L s
                     in if b then Return (Inr (True, m, s)) else Goto Read_tag m s))"

definition do_tag :: "('s, 'u) pb_ops \<Rightarrow> 'u RpcMessage \<Rightarrow> 's \<Rightarrow> ('s, 'u) parse_next" where
  "do_tag L m s =
     (let ((tag, ok), s) = ReadTagWithCutoff L 127 s; field = GetTagFieldNumber L tag in
      if \<not> ok then handle_unusual L tag m s
      else if field = 1 then (if tag = 8 then do_type L m s else handle_unusual L tag m s)
      else if field = 2 then (if tag = 17 then do_id L m s else handle_unusual L tag m s)
      else if field = 3 then (if tag = 26 then do_service L m s else handle_unusual L tag m s)
      else if field = 4 then (if tag = 34 then do_method L m s else handle_unusual L tag m s)
      else if field = 5 then (if tag = 42 then do_request L m s else handle_unusual L tag m s)
      else if field = 6 then (if tag = 50 then do_response L m s else handle_unusual L tag m s)
      else if field = 7 then (if tag = 56 then do_error L m s else handle_unusual L tag m s)
      else handle_unusual L tag m s)"

fun parse_step ::
  "('s, 'u) pb_ops \<Rightarrow> parse_label \<Rightarrow> 'u RpcMessage \<Rightarrow> 's \<Rightarrow> ('s, 'u) parse_next" where
  "parse_step L Read_tag m s = do_tag L m s"
| "parse_step L Parse_id m s = do_id L m s"
| "parse_step L Parse_service m s = do_service L m s"
| "parse_step L Parse_method m s = do_method L m s"
| "parse_step L Parse_request m s = do_request L m s"
| "parse_step L Parse_response m s = do_response L m s"
| "parse_step L Parse_error m s = do_error L m s"

partial_function (option) parse_loop ::
  "('s, 'u) pb_ops \<Rightarrow> parse_label \<Rightarrow> 'u RpcMessage \<Rightarrow> 's \<Rightarrow> (bool \<times> 'u RpcMessage \<times> 's) res option" where
  "parse_loop L lab m s =
     (case parse_step L lab m s of
        Return r \<Rightarrow> Some r
      | Goto lab' m' s' \<Rightarrow> parse_loop L lab' m' s')"

definition MergePartialFromCodedStream ::
  "('s, 'u) pb_ops \<Rightarrow> 'u RpcMessage \<Rightarrow> 's \<Rightarrow> (bool \<times> 'u RpcMessage \<times> 's) res option" where
  "MergePartialFromCodedStream L m s = parse_loop L Read_tag m s"

subsection \<open>Presence bits\<close>

lemma has_bit_iff:
  "has_type m \<longleftrightarrow> bit (has_bits_f m) 0" "has_id m \<longleftrightarrow> bit (has_bits_f m) 1"
  "has_service m \<longleftrightarrow> bit (has_bits_f m) 2" "has_method m \<longleftrightarrow> bit (has_bits_f m) 3"
  "has_request m \<longleftrightarrow> bit (has_bits_f m) 4" "has_response m \<longleftrightarrow> bit (has_bits_f m) 5"
  "has_error m \<longleftrightarrow> bit (has_bits_f m) 6"
  using and_exp_eq_0_iff_not_bit [of "has_bits_f m" 0] and_exp_eq_0_iff_not_bit [of "has_bits_f m" 1]
    and_exp_eq_0_iff_not_bit [of "has_bits_f m" 2] and_exp_eq_0_iff_not_bit [of "has_bits_f m" 3]
    and_exp_eq_0_iff_not_bit [of "has_bits_f m" 4] and_exp_eq_0_iff_not_bit [of "has_bits_f m" 5]
    and_exp_eq_0_iff_not_bit [of "has_bits_f m" 6]
  by (simp_all add: has_defs)

subsection \<open>The abstract message\<close>

text \<open>
  What a message means: for each field its value, or nothing when the field is absent. The
  class invariant says that an absent field has its default value and that the two
  enumerations hold valid numbers.
\<close>

record rpc_view =
  v_type :: "int32 option"
  v_id :: "uint64 option"
  v_service :: "bytes option"
  v_method :: "bytes option"
  v_request :: "bytes option"
  v_response :: "bytes option"
  v_error :: "int32 option"

definition view :: "'u RpcMessage \<Rightarrow> rpc_view" where
  "view m = \<lparr>
     v_type = (if has_type m then Some (type_get m) else None),
     v_id = (if has_id m then Some (id_get m) else None),
     v_service = (if has_service m then Some (service_get m) else None),
     v_method = (if has_method m then Some (method_get m) else None),
     v_request = (if has_request m then Some (request_get m) else None),
     v_response = (if has_response m then Some (response_get m) else None),
     v_error = (if has_error m then Some (error_get m) else None)\<rparr>"

definition empty_view :: rpc_view where
  "empty_view = \<lparr>v_type = None, v_id = None, v_service = None, v_method = None, v_request = None, v_response = None, v_error = None\<rparr>"

definition pick :: "'a option \<Rightarrow> 'a option \<Rightarrow> 'a option" where
  "pick new old = (case new of None \<Rightarrow> old | Some x \<Rightarrow> Some x)"

definition merge_view :: "rpc_view \<Rightarrow> rpc_view \<Rightarrow> rpc_view" where
  "merge_view from v = \<lparr>
     v_type = pick (v_type from) (v_type v),
     v_id = pick (v_id from) (v_id v),
     v_service = pick (v_service from) (v_service v),
     v_method = pick (v_method from) (v_method v),
     v_request = pick (v_request from) (v_request v),
     v_response = pick (v_response from) (v_response v),
     v_error = pick (v_error from) (v_error v)\<rparr>"

definition msg_inv :: "'u RpcMessage \<Rightarrow> bool" where
  "msg_inv m \<longleftrightarrow>
     MessageType_IsValid (type_f m) \<and> ErrorCode_IsValid (error_f m) \<and>
     (\<not> has_type m \<longrightarrow> type_f m = 0) \<and> (\<not> has_id m \<longrightarrow> id_f m = 0) \<and>
     (\<not> has_service m \<longrightarrow> str_val (service_f m) = []) \<and>
     (\<not> has_method m \<longrightarrow> str_val (method_f m) = []) \<and>
     (\<not> has_request m \<longrightarrow> str_val (request_f m) = []) \<and>
     (\<not> has_response m \<longrightarrow> str_val (response_f m) = []) \<and>
     (\<not> has_error m \<longrightarrow> error_f m = 0)"

lemma valid_zero [simp]: "MessageType_IsValid 0" "ErrorCode_IsValid 0"
  by (simp_all add: MessageType_IsValid_def ErrorCode_IsValid_def)

lemmas set_simps = set_defs mutable_defs bit_defs get_defs has_bit_iff Let_def

lemma set_type_valid [simp]:
  "MessageType_IsValid v \<Longrightarrow> set_type v m = Inr ((set_has_type m)\<lparr>type_f := v\<rparr>)"
  by (simp add: set_type_def)

lemma set_error_valid [simp]:
  "ErrorCode_IsValid v \<Longrightarrow> set_error v m = Inr ((set_has_error m)\<lparr>error_f := v\<rparr>)"
  by (simp add: set_error_def)

text \<open>Each setter changes its own field of the abstract message and no other.\<close>

lemma view_set [simp]:
  "view ((set_has_type m)\<lparr>type_f := t\<rparr>) = (view m)\<lparr>v_type := Some t\<rparr>"
  "view ((set_has_error m)\<lparr>error_f := t\<rparr>) = (view m)\<lparr>v_error := Some t\<rparr>"
  "view (set_id w m) = (view m)\<lparr>v_id := Some w\<rparr>"
  "view (set_service x m) = (view m)\<lparr>v_service := Some x\<rparr>"
  "view (set_method x m) = (view m)\<lparr>v_method := Some x\<rparr>"
  "view (set_request x m) = (view m)\<lparr>v_request := Some x\<rparr>"
  "view (set_response x m) = (view m)\<lparr>v_response := Some x\<rparr>"
  by (simp_all add: view_def set_simps bit_simps)

lemma view_frame [simp]:
  "view (m\<lparr>unknown_fields_f := u\<rparr>) = view m" "view (m\<lparr>cached_size_f := c\<rparr>) = view m"
  by (simp_all add: view_def get_defs has_bit_iff)

lemma unknown_set [simp]:
  "unknown_fields_f ((set_has_type m)\<lparr>type_f := t\<rparr>) = unknown_fields_f m"
  "unknown_fields_f ((set_has_error m)\<lparr>error_f := t\<rparr>) = unknown_fields_f m"
  "unknown_fields_f (set_id w m) = unknown_fields_f m"
  "unknown_fields_f (set_service x m) = unknown_fields_f m"
  "unknown_fields_f (set_method x m) = unknown_fields_f m"
  "unknown_fields_f (set_request x m) = unknown_fields_f m"
  "unknown_fields_f (set_response x m) = unknown_fields_f m"
  by (simp_all add: set_simps)

lemma msg_inv_set [simp, intro]:
  "msg_inv m \<Longrightarrow> MessageType_IsValid t \<Longrightarrow> msg_inv ((set_has_type m)\<lparr>type_f := t\<rparr>)"
  "msg_inv m \<Longrightarrow> ErrorCode_IsValid t \<Longrightarrow> msg_inv ((set_has_error m)\<lparr>error_f := t\<rparr>)"
  "msg_inv m \<Longrightarrow> msg_inv (set_id w m)"
  "msg_inv m \<Longrightarrow> msg_inv (set_service x m)"
  "msg_inv m \<Longrightarrow> msg_inv (set_method x m)"
  "msg_inv m \<Longrightarrow> msg_inv (set_request x m)"
  "msg_inv m \<Longrightarrow> msg_inv (set_response x m)"
  by (simp_all add: msg_inv_def set_simps bit_simps)

lemma msg_inv_frame [simp]:
  "msg_inv (m\<lparr>unknown_fields_f := u\<rparr>) = msg_inv m" "msg_inv (m\<lparr>cached_size_f := c\<rparr>) = msg_inv m"
  by (simp_all add: msg_inv_def has_bit_iff)

lemma new_message [simp]:
  "view (SharedCtor L) = empty_view" "msg_inv (SharedCtor L)"
  "unknown_fields_f (SharedCtor L) = uf_new L"
  by (simp_all add: view_def empty_view_def msg_inv_def has_bit_iff SharedCtor_def)

text \<open>Setting through the mutable pointer is setting.\<close>

lemma mutable_assign:
  "(mutable_service m)\<lparr>service_f := Owned x\<rparr> = set_service x m"
  "(mutable_method m)\<lparr>method_f := Owned x\<rparr> = set_method x m"
  "(mutable_request m)\<lparr>request_f := Owned x\<rparr> = set_request x m"
  "(mutable_response m)\<lparr>response_f := Owned x\<rparr> = set_response x m"
  by (simp_all add: set_defs mutable_defs Let_def)

subsection \<open>Parsing reads back what serialisation wrote\<close>

text \<open>The input still to be consumed at a program point: at a field's label its tag is gone.\<close>

fun pending :: "('s \<Rightarrow> bytes) \<Rightarrow> parse_label \<Rightarrow> 's \<Rightarrow> bytes" where
  "pending unread Read_tag s = unread s"
| "pending unread Parse_id s = tag_byte 2 1 # unread s"
| "pending unread Parse_service s = tag_byte 3 2 # unread s"
| "pending unread Parse_method s = tag_byte 4 2 # unread s"
| "pending unread Parse_request s = tag_byte 5 2 # unread s"
| "pending unread Parse_response s = tag_byte 6 2 # unread s"
| "pending unread Parse_error s = tag_byte 7 0 # unread s"

lemma set_id_alt: "set_has_id (m\<lparr>id_f := v\<rparr>) = set_id v m"
  by (simp add: set_id_def bit_defs)

context pb_lib
begin

lemma dispatch_type:
  assumes "pending unread lab s = tag_byte 1 0 # r"
  shows "\<exists>s'. unread s' = r \<and> parse_step L lab m s = do_type L m s'"
  using assms read_tag [of s "tag_byte 1 0" r]
  by (cases lab) (auto simp: tag_byte_def do_tag_def tag_parts drop_bit_eq_div Let_def)

lemma dispatch_id:
  assumes "pending unread lab s = tag_byte 2 1 # r"
  shows "\<exists>s'. unread s' = r \<and> parse_step L lab m s = do_id L m s'"
  using assms read_tag [of s "tag_byte 2 1" r]
  by (cases lab) (auto simp: tag_byte_def do_tag_def tag_parts drop_bit_eq_div Let_def)

lemma dispatch_service:
  assumes "pending unread lab s = tag_byte 3 2 # r"
  shows "\<exists>s'. unread s' = r \<and> parse_step L lab m s = do_service L m s'"
  using assms read_tag [of s "tag_byte 3 2" r]
  by (cases lab) (auto simp: tag_byte_def do_tag_def tag_parts drop_bit_eq_div Let_def)

lemma dispatch_method:
  assumes "pending unread lab s = tag_byte 4 2 # r"
  shows "\<exists>s'. unread s' = r \<and> parse_step L lab m s = do_method L m s'"
  using assms read_tag [of s "tag_byte 4 2" r]
  by (cases lab) (auto simp: tag_byte_def do_tag_def tag_parts drop_bit_eq_div Let_def)

lemma dispatch_request:
  assumes "pending unread lab s = tag_byte 5 2 # r"
  shows "\<exists>s'. unread s' = r \<and> parse_step L lab m s = do_request L m s'"
  using assms read_tag [of s "tag_byte 5 2" r]
  by (cases lab) (auto simp: tag_byte_def do_tag_def tag_parts drop_bit_eq_div Let_def)

lemma dispatch_response:
  assumes "pending unread lab s = tag_byte 6 2 # r"
  shows "\<exists>s'. unread s' = r \<and> parse_step L lab m s = do_response L m s'"
  using assms read_tag [of s "tag_byte 6 2" r]
  by (cases lab) (auto simp: tag_byte_def do_tag_def tag_parts drop_bit_eq_div Let_def)

lemma dispatch_error:
  assumes "pending unread lab s = tag_byte 7 0 # r"
  shows "\<exists>s'. unread s' = r \<and> parse_step L lab m s = do_error L m s'"
  using assms read_tag [of s "tag_byte 7 0" r]
  by (cases lab) (auto simp: tag_byte_def do_tag_def tag_parts drop_bit_eq_div Let_def)

lemma expect_pending:
  "ExpectTag L 17 s = (b, s') \<Longrightarrow> pending unread (if b then Parse_id else Read_tag) s' = unread s"
  "ExpectTag L 26 s = (b, s') \<Longrightarrow> pending unread (if b then Parse_service else Read_tag) s' = unread s"
  "ExpectTag L 34 s = (b, s') \<Longrightarrow> pending unread (if b then Parse_method else Read_tag) s' = unread s"
  "ExpectTag L 42 s = (b, s') \<Longrightarrow> pending unread (if b then Parse_request else Read_tag) s' = unread s"
  "ExpectTag L 50 s = (b, s') \<Longrightarrow> pending unread (if b then Parse_response else Read_tag) s' = unread s"
  "ExpectTag L 56 s = (b, s') \<Longrightarrow> pending unread (if b then Parse_error else Read_tag) s' = unread s"
  by (drule expect_tag; simp add: tag_byte_def split: if_splits)+

lemma do_type_reads:
  assumes "unread s = WriteEnumNoTagToArray L v @ rest" and "MessageType_IsValid v"
  shows "\<exists>lab s'. do_type L m s = Goto lab ((set_has_type m)\<lparr>type_f := v\<rparr>) s' \<and> pending unread lab s' = rest"
proof -
  obtain s1 where 1: "ReadEnum L s = (Some v, s1)" "unread s1 = rest"
    using read_enum [OF assms(1)] by blast
  obtain b s2 where 2: "ExpectTag L 17 s1 = (b, s2)"
    by fastforce
  show ?thesis
    using 1 2 expect_pending(1) [OF 2] assms(2) by (auto simp: do_type_def)
qed

lemma do_id_reads:
  assumes "unread s = WriteFixed64NoTagToArray L v @ rest"
  shows "\<exists>lab s'. do_id L m s = Goto lab (set_id v m) s' \<and> pending unread lab s' = rest"
proof -
  obtain s1 where 1: "ReadFixed64 L s = (Some v, s1)" "unread s1 = rest"
    using read_fixed64 [OF assms(1)] by blast
  obtain b s2 where 2: "ExpectTag L 26 s1 = (b, s2)"
    by fastforce
  show ?thesis
    using 1 2 expect_pending(2) [OF 2] by (auto simp: do_id_def set_id_alt)
qed

lemma do_service_reads:
  assumes "unread s = WriteStringWithSizeToArray L x @ rest" and "length x < 2 ^ 31"
  shows "\<exists>lab s'. do_service L m s = Goto lab (set_service x m) s' \<and> pending unread lab s' = rest"
proof -
  obtain s1 where 1: "ReadString L (service_get (mutable_service m)) s = (True, x, s1)" "unread s1 = rest"
    using read_string [OF assms] by blast
  obtain b s2 where 2: "ExpectTag L 34 s1 = (b, s2)"
    by fastforce
  show ?thesis
    using 1 2 expect_pending(3) [OF 2] by (auto simp: do_service_def mutable_assign)
qed

lemma do_method_reads:
  assumes "unread s = WriteStringWithSizeToArray L x @ rest" and "length x < 2 ^ 31"
  shows "\<exists>lab s'. do_method L m s = Goto lab (set_method x m) s' \<and> pending unread lab s' = rest"
proof -
  obtain s1 where 1: "ReadString L (method_get (mutable_method m)) s = (True, x, s1)" "unread s1 = rest"
    using read_string [OF assms] by blast
  obtain b s2 where 2: "ExpectTag L 42 s1 = (b, s2)"
    by fastforce
  show ?thesis
    using 1 2 expect_pending(4) [OF 2] by (auto simp: do_method_def mutable_assign)
qed

lemma do_request_reads:
  assumes "unread s = WriteStringWithSizeToArray L x @ rest" and "length x < 2 ^ 31"
  shows "\<exists>lab s'. do_request L m s = Goto lab (set_request x m) s' \<and> pending unread lab s' = rest"
proof -
  obtain s1 where 1: "ReadBytes L (request_get (mutable_request m)) s = (True, x, s1)" "unread s1 = rest"
    using read_bytes [OF assms] by blast
  obtain b s2 where 2: "ExpectTag L 50 s1 = (b, s2)"
    by fastforce
  show ?thesis
    using 1 2 expect_pending(5) [OF 2] by (auto simp: do_request_def mutable_assign)
qed

lemma do_response_reads:
  assumes "unread s = WriteStringWithSizeToArray L x @ rest" and "length x < 2 ^ 31"
  shows "\<exists>lab s'. do_response L m s = Goto lab (set_response x m) s' \<and> pending unread lab s' = rest"
proof -
  obtain s1 where 1: "ReadBytes L (response_get (mutable_response m)) s = (True, x, s1)" "unread s1 = rest"
    using read_bytes [OF assms] by blast
  obtain b s2 where 2: "ExpectTag L 56 s1 = (b, s2)"
    by fastforce
  show ?thesis
    using 1 2 expect_pending(6) [OF 2] by (auto simp: do_response_def mutable_assign)
qed

lemma do_error_reads:
  assumes "unread s = WriteEnumNoTagToArray L v" and "ErrorCode_IsValid v"
  shows "\<exists>s'. unread s' = [] \<and> (do_error L m s = Goto Read_tag ((set_has_error m)\<lparr>error_f := v\<rparr>) s' \<or>
     do_error L m s = Return (Inr (True, (set_has_error m)\<lparr>error_f := v\<rparr>, s')) \<and> ConsumedEntireMessage L s')"
proof -
  obtain s1 where 1: "ReadEnum L s = (Some v, s1)" "unread s1 = []"
    using read_enum [of s v "[]"] assms(1) by auto
  obtain b s2 where 2: "ExpectAtEnd L s1 = (b, s2)"
    by fastforce
  show ?thesis
    using 1 2 expect_end [OF 2] assms(2) by (cases b) (auto simp: do_error_def)
qed

text \<open>One optional field: the loop goes on after it, with the field set if it was present.\<close>

lemma loop_step:
  "parse_step L lab m s = Goto lab' m' s' \<Longrightarrow> parse_loop L lab m s = parse_loop L lab' m' s'"
  by (subst parse_loop.simps) simp

lemma loop_field:
  assumes "pending unread lab s = (if p then t # body else []) @ rest"
    and "\<And>r. pending unread lab s = t # r \<Longrightarrow> \<exists>s'. unread s' = r \<and> parse_step L lab m s = act m s'"
    and "\<And>s'. p \<Longrightarrow> unread s' = body @ rest \<Longrightarrow>
       \<exists>lab' s''. act m s' = Goto lab' m' s'' \<and> pending unread lab' s'' = rest"
  shows "\<exists>lab' s'. pending unread lab' s' = rest \<and>
     parse_loop L lab m s = parse_loop L lab' (if p then m' else m) s'"
proof (cases p)
  case True
  then obtain s1 where "unread s1 = body @ rest" "parse_step L lab m s = act m s1"
    using assms(1,2) by auto
  then show ?thesis
    using assms(3) [of s1] True loop_step by (metis (full_types))
qed (use assms(1) in auto)

lemma loop_type:
  assumes "pending unread lab s = (if p then WriteEnumToArray L 1 v else []) @ rest"
    and "p \<longrightarrow> MessageType_IsValid v"
  shows "\<exists>lab' s'. pending unread lab' s' = rest \<and>
     parse_loop L lab m s = parse_loop L lab' (if p then (set_has_type m)\<lparr>type_f := v\<rparr> else m) s'"
  by (rule loop_field [OF _ dispatch_type do_type_reads]) (use assms in \<open>auto simp: write_enum\<close>)

lemma loop_id:
  assumes "pending unread lab s = (if p then WriteFixed64ToArray L 2 v else []) @ rest"
  shows "\<exists>lab' s'. pending unread lab' s' = rest \<and>
     parse_loop L lab m s = parse_loop L lab' (if p then set_id v m else m) s'"
  by (rule loop_field [OF _ dispatch_id do_id_reads]) (use assms in \<open>auto simp: write_fixed64\<close>)

lemma loop_service:
  assumes "pending unread lab s = (if p then WriteStringToArray L 3 x else []) @ rest" and "length x < 2 ^ 31"
  shows "\<exists>lab' s'. pending unread lab' s' = rest \<and>
     parse_loop L lab m s = parse_loop L lab' (if p then set_service x m else m) s'"
  by (rule loop_field [OF _ dispatch_service do_service_reads]) (use assms in \<open>auto simp: write_string\<close>)

lemma loop_method:
  assumes "pending unread lab s = (if p then WriteStringToArray L 4 x else []) @ rest" and "length x < 2 ^ 31"
  shows "\<exists>lab' s'. pending unread lab' s' = rest \<and>
     parse_loop L lab m s = parse_loop L lab' (if p then set_method x m else m) s'"
  by (rule loop_field [OF _ dispatch_method do_method_reads]) (use assms in \<open>auto simp: write_string\<close>)

lemma loop_request:
  assumes "pending unread lab s = (if p then WriteBytesToArray L 5 x else []) @ rest" and "length x < 2 ^ 31"
  shows "\<exists>lab' s'. pending unread lab' s' = rest \<and>
     parse_loop L lab m s = parse_loop L lab' (if p then set_request x m else m) s'"
  by (rule loop_field [OF _ dispatch_request do_request_reads]) (use assms in \<open>auto simp: write_bytes\<close>)

lemma loop_response:
  assumes "pending unread lab s = (if p then WriteBytesToArray L 6 x else []) @ rest" and "length x < 2 ^ 31"
  shows "\<exists>lab' s'. pending unread lab' s' = rest \<and>
     parse_loop L lab m s = parse_loop L lab' (if p then set_response x m else m) s'"
  by (rule loop_field [OF _ dispatch_response do_response_reads]) (use assms in \<open>auto simp: write_bytes\<close>)

lemma loop_end:
  assumes "pending unread lab s = []"
  shows "\<exists>s'. parse_loop L lab m s = Some (Inr (True, m, s')) \<and> ConsumedEntireMessage L s'"
proof -
  have "lab = Read_tag" and "unread s = []"
    using assms by (cases lab; simp)+
  then show ?thesis
    using read_tag_end [of s] by (subst parse_loop.simps) (auto simp: do_tag_def handle_unusual_def)
qed

lemma loop_error:
  assumes "pending unread lab s = (if p then WriteEnumToArray L 7 v else [])"
    and "p \<longrightarrow> ErrorCode_IsValid v"
  shows "\<exists>s'. ConsumedEntireMessage L s' \<and>
     parse_loop L lab m s = Some (Inr (True, if p then (set_has_error m)\<lparr>error_f := v\<rparr> else m, s'))"
proof (cases p)
  case True
  then obtain s1 where 1: "unread s1 = WriteEnumNoTagToArray L v" "parse_step L lab m s = do_error L m s1"
    using assms(1) dispatch_error [of lab s "WriteEnumNoTagToArray L v" m] by (auto simp: write_enum)
  let ?m = "(set_has_error m)\<lparr>error_f := v\<rparr>"
  obtain s2 where 2: "unread s2 = []" "do_error L m s1 = Goto Read_tag ?m s2 \<or>
      do_error L m s1 = Return (Inr (True, ?m, s2)) \<and> ConsumedEntireMessage L s2"
    using do_error_reads [OF 1(1)] assms(2) True by blast
  then show ?thesis
  proof (elim disjE conjE)
    assume "do_error L m s1 = Goto Read_tag ?m s2"
    then have "parse_loop L lab m s = parse_loop L Read_tag ?m s2"
      using 1(2) by (simp add: loop_step)
    then show ?thesis
      using loop_end [of Read_tag s2 ?m] 2(1) True by auto
  next
    assume "do_error L m s1 = Return (Inr (True, ?m, s2))" and "ConsumedEntireMessage L s2"
    then show ?thesis
      using 1(2) True by (subst parse_loop.simps) auto
  qed
qed (use assms loop_end [of lab s m] in auto)

end

subsection \<open>Parsing reads back a whole message\<close>

text \<open>A message that fits the format: valid, no unknown fields, strings below the size limit.\<close>

definition sendable :: "('s, 'u) pb_ops \<Rightarrow> 'u RpcMessage \<Rightarrow> bool" where
  "sendable L m \<longleftrightarrow> msg_inv m \<and> uf_empty L (unknown_fields_f m) \<and>
     length (service_get m) < 2 ^ 31 \<and> length (method_get m) < 2 ^ 31 \<and>
     length (request_get m) < 2 ^ 31 \<and> length (response_get m) < 2 ^ 31"

definition apply_fields :: "'u RpcMessage \<Rightarrow> 'u RpcMessage \<Rightarrow> 'u RpcMessage" where
  "apply_fields m m0 =
     (let m1 = (if has_type m then (set_has_type m0)\<lparr>type_f := type_get m\<rparr> else m0);
          m2 = (if has_id m then set_id (id_get m) m1 else m1);
          m3 = (if has_service m then set_service (service_get m) m2 else m2);
          m4 = (if has_method m then set_method (method_get m) m3 else m3);
          m5 = (if has_request m then set_request (request_get m) m4 else m4);
          m6 = (if has_response m then set_response (response_get m) m5 else m5)
      in if has_error m then (set_has_error m6)\<lparr>error_f := error_get m\<rparr> else m6)"

lemma if_view:
  "view (if p then a else b) = (if p then view a else view b)"
  "msg_inv (if p then a else b) = (if p then msg_inv a else msg_inv b)"
  "unknown_fields_f (if p then a else b) = (if p then unknown_fields_f a else unknown_fields_f b)"
  by simp_all

lemma view_apply_fields: "view (apply_fields m m0) = merge_view (view m) (view m0)"
  unfolding apply_fields_def Let_def if_view view_set
  by (rule rpc_view.equality) (simp_all add: merge_view_def pick_def view_def [of m])

lemma unknown_apply_fields: "unknown_fields_f (apply_fields m m0) = unknown_fields_f m0"
  unfolding apply_fields_def Let_def if_view unknown_set by simp

lemma valid_get: "msg_inv m \<Longrightarrow> MessageType_IsValid (type_get m)" "msg_inv m \<Longrightarrow> ErrorCode_IsValid (error_get m)"
  by (simp_all add: msg_inv_def get_defs)

lemma msg_inv_apply_fields: "msg_inv m \<Longrightarrow> msg_inv m0 \<Longrightarrow> msg_inv (apply_fields m m0)"
  unfolding apply_fields_def Let_def if_view by (simp add: msg_inv_set valid_get)

lemma low_byte_zero:
  assumes "has_bits_f m AND 0xff = 0"
  shows "\<not> has_type m" "\<not> has_id m" "\<not> has_service m" "\<not> has_method m" "\<not> has_request m"
    "\<not> has_response m" "\<not> has_error m"
  using and_mask_zero [of "has_bits_f m" 8] assms
  by (simp_all add: has_bit_iff mask_eq_exp_minus_1)

context pb_lib
begin

lemma add_size_total:
  assumes "p \<Longrightarrow> k < 2 ^ 31"
  shows "bind_res (int_total n) (add_size p (of_nat k)) = int_total (n + (if p then Suc k else 0))"
proof (cases "n < 2 ^ 31 \<and> p \<and> Suc k < 2 ^ 31")
  case True
  then show ?thesis
    using signed_add_of_nat [of 1 k] signed_add_of_nat [of n "Suc k"] by (simp add: int_total_def add_size_def)
next
  case False
  then show ?thesis
    using signed_add_of_nat [of 1 k] assms by (auto simp: int_total_def add_size_def)
qed

lemma add_size_bind:
  "(p \<Longrightarrow> k < 2 ^ 31) \<Longrightarrow>
   bind_res (int_total n) (\<lambda>t. bind_res (add_size p (of_nat k) t) f) = bind_res (int_total (n + (if p then Suc k else 0))) f"
  by (simp add: add_size_total flip: bind_res_assoc)

lemma add_unknown_bind:
  assumes "parts_fit L m"
  shows "bind_res (int_total n) (\<lambda>t. bind_res
       (if \<not> uf_empty L (unknown_fields_f m) then signed_add t (ComputeUnknownFieldsSize L (unknown_fields_f m)) else Inr t) f) =
     bind_res (int_total (n + (if uf_empty L (unknown_fields_f m) then 0
       else length (SerializeUnknownFieldsToArray L (unknown_fields_f m))))) f"
  using assms signed_add_of_nat [of n "length (SerializeUnknownFieldsToArray L (unknown_fields_f m))"]
  by (auto simp: parts_fit_def sizes int_total_def)

lemma ByteSize_total:
  assumes "parts_fit L m"
  shows "ByteSize L m = bind_res (int_total (length (SerializeWithCachedSizesToArray L m)))
     (\<lambda>n. Inr (n, SetCachedSize n m))"
proof -
  note w = write_enum write_fixed64 write_string write_bytes
  have e: "length (WriteEnumNoTagToArray L v) < 2 ^ 31" for v
    using sizes(5) [of v] by simp
  have start: "f 0 = bind_res (int_total 0) f" for f :: "int32 \<Rightarrow> (int32 \<times> 'u RpcMessage) res"
    by (simp add: int_total_def)
  have p: "has_service m \<Longrightarrow> length (WriteStringWithSizeToArray L (service_get m)) < 2 ^ 31"
      "has_method m \<Longrightarrow> length (WriteStringWithSizeToArray L (method_get m)) < 2 ^ 31"
      "has_request m \<Longrightarrow> length (WriteStringWithSizeToArray L (request_get m)) < 2 ^ 31"
      "has_response m \<Longrightarrow> length (WriteStringWithSizeToArray L (response_get m)) < 2 ^ 31"
    using assms by (simp_all add: parts_fit_def)
  have eight: "bind_res (int_total n) (\<lambda>t. bind_res (add_size q 8 t) f) = bind_res (int_total (n + (if q then Suc 8 else 0))) f" for n q f
    using add_size_bind [of q 8 n f] by (simp split del: if_split)
  note steps = add_size_bind [OF e] add_size_bind [OF p(1)] add_size_bind [OF p(2)] add_size_bind [OF p(3)]
    add_size_bind [OF p(4)] eight add_unknown_bind [OF assms]
  show ?thesis
  proof (cases "has_bits_f m AND 0xff = 0")
    case True
    then have "ByteSize L m = bind_res (int_total 0) (\<lambda>t. bind_res
       (if \<not> uf_empty L (unknown_fields_f m) then signed_add t (ComputeUnknownFieldsSize L (unknown_fields_f m)) else Inr t)
       (\<lambda>n. Inr (n, SetCachedSize n m)))"
      unfolding ByteSize_def by (subst start [symmetric]) simp
    then show ?thesis
      using True by (simp add: add_unknown_bind [OF assms] SerializeWithCachedSizesToArray_def low_byte_zero)
  next
    case False
    then have "ByteSize L m = bind_res (int_total 0) (\<lambda>t.
        bind_res (add_size (has_type m) (EnumSize L (type_get m)) t) (\<lambda>t.
        bind_res (add_size (has_id m) 8 t) (\<lambda>t.
        bind_res (add_size (has_service m) (StringSize L (service_get m)) t) (\<lambda>t.
        bind_res (add_size (has_method m) (StringSize L (method_get m)) t) (\<lambda>t.
        bind_res (add_size (has_request m) (BytesSize L (request_get m)) t) (\<lambda>t.
        bind_res (add_size (has_response m) (BytesSize L (response_get m)) t) (\<lambda>t.
        bind_res (add_size (has_error m) (EnumSize L (error_get m)) t) (\<lambda>t.
        bind_res (if \<not> uf_empty L (unknown_fields_f m) then signed_add t (ComputeUnknownFieldsSize L (unknown_fields_f m)) else Inr t)
          (\<lambda>n. Inr (n, SetCachedSize n m))))))))))"
      unfolding ByteSize_def by (subst start [symmetric]) (simp add: bind_res_assoc)
    also have "\<dots> = bind_res (int_total (length (SerializeWithCachedSizesToArray L m))) (\<lambda>n. Inr (n, SetCachedSize n m))"
      by (simp only: sizes(1-3) steps) (simp add: SerializeWithCachedSizesToArray_def w sizes(4) add.assoc)
    finally show ?thesis .
  qed
qed

lemma ByteSize_small:
  assumes "length (SerializeWithCachedSizesToArray L m) < 2 ^ 31"
  shows "ByteSize L m = Inr (of_nat (length (SerializeWithCachedSizesToArray L m)),
     SetCachedSize (of_nat (length (SerializeWithCachedSizesToArray L m))) m)"
proof -
  have "parts_fit L m"
    using assms by (auto simp: parts_fit_def SerializeWithCachedSizesToArray_def write_enum write_fixed64 write_string write_bytes)
  then show ?thesis
    using assms by (simp add: ByteSize_total int_total_def)
qed

lemma parse_serialized:
  assumes "sendable L m" and "unread s = SerializeWithCachedSizesToArray L m"
  shows "\<exists>s'. MergePartialFromCodedStream L m0 s = Some (Inr (True, apply_fields m m0, s')) \<and>
     ConsumedEntireMessage L s'"
proof -
  have v: "has_type m \<longrightarrow> MessageType_IsValid (type_get m)" "has_error m \<longrightarrow> ErrorCode_IsValid (error_get m)"
    using assms(1) by (simp_all add: sendable_def valid_get)
  have l: "length (service_get m) < 2 ^ 31" "length (method_get m) < 2 ^ 31"
     "length (request_get m) < 2 ^ 31" "length (response_get m) < 2 ^ 31"
    using assms(1) by (simp_all add: sendable_def)
  let ?r7 = "if \<not> uf_empty L (unknown_fields_f m) then SerializeUnknownFieldsToArray L (unknown_fields_f m) else []"
  let ?r6 = "(if has_error m then WriteEnumToArray L 7 (error_get m) else []) @ ?r7"
  let ?r5 = "(if has_response m then WriteBytesToArray L 6 (response_get m) else []) @ ?r6"
  let ?r4 = "(if has_request m then WriteBytesToArray L 5 (request_get m) else []) @ ?r5"
  let ?r3 = "(if has_method m then WriteStringToArray L 4 (method_get m) else []) @ ?r4"
  let ?r2 = "(if has_service m then WriteStringToArray L 3 (service_get m) else []) @ ?r3"
  let ?r1 = "(if has_id m then WriteFixed64ToArray L 2 (id_get m) else []) @ ?r2"
  let ?m1 = "if has_type m then (set_has_type m0)\<lparr>type_f := type_get m\<rparr> else m0"
  let ?m2 = "if has_id m then set_id (id_get m) ?m1 else ?m1"
  let ?m3 = "if has_service m then set_service (service_get m) ?m2 else ?m2"
  let ?m4 = "if has_method m then set_method (method_get m) ?m3 else ?m3"
  let ?m5 = "if has_request m then set_request (request_get m) ?m4 else ?m4"
  let ?m6 = "if has_response m then set_response (response_get m) ?m5 else ?m5"
  have 0: "pending unread Read_tag s = (if has_type m then WriteEnumToArray L 1 (type_get m) else []) @ ?r1"
    using assms(2) by (simp only: pending.simps SerializeWithCachedSizesToArray_def)
  obtain lab1 s1 where 1: "pending unread lab1 s1 = ?r1"
      "parse_loop L Read_tag m0 s = parse_loop L lab1 ?m1 s1"
    using loop_type [OF 0 v(1)] by blast
  obtain lab2 s2 where 2: "pending unread lab2 s2 = ?r2"
      "parse_loop L lab1 ?m1 s1 = parse_loop L lab2 ?m2 s2"
    using loop_id [OF 1(1)] by blast
  obtain lab3 s3 where 3: "pending unread lab3 s3 = ?r3"
      "parse_loop L lab2 ?m2 s2 = parse_loop L lab3 ?m3 s3"
    using loop_service [OF 2(1) l(1)] by blast
  obtain lab4 s4 where 4: "pending unread lab4 s4 = ?r4"
      "parse_loop L lab3 ?m3 s3 = parse_loop L lab4 ?m4 s4"
    using loop_method [OF 3(1) l(2)] by blast
  obtain lab5 s5 where 5: "pending unread lab5 s5 = ?r5"
      "parse_loop L lab4 ?m4 s4 = parse_loop L lab5 ?m5 s5"
    using loop_request [OF 4(1) l(3)] by blast
  obtain lab6 s6 where 6: "pending unread lab6 s6 = ?r6"
      "parse_loop L lab5 ?m5 s5 = parse_loop L lab6 ?m6 s6"
    using loop_response [OF 5(1) l(4)] by blast
  have "uf_empty L (unknown_fields_f m)"
    using assms(1) by (simp add: sendable_def)
  with 6(1) have e: "pending unread lab6 s6 = (if has_error m then WriteEnumToArray L 7 (error_get m) else [])"
    by simp
  show ?thesis
    using loop_error [OF e v(2), of ?m6]
    unfolding MergePartialFromCodedStream_def apply_fields_def Let_def 1(2) 2(2) 3(2) 4(2) 5(2) 6(2)
    by blast
qed

text \<open>Into an empty message, what was serialised comes back.\<close>

lemma parse_serialized_new:
  assumes "sendable L m" and "view m0 = empty_view" and "msg_inv m0"
  shows "\<exists>m' s'. MergePartialFromCodedStream L m0
       (stream_of_array L (SerializeWithCachedSizesToArray L m)) = Some (Inr (True, m', s')) \<and>
     ConsumedEntireMessage L s' \<and> view m' = view m \<and> unknown_fields_f m' = unknown_fields_f m0 \<and> msg_inv m'"
proof -
  have "view (apply_fields m m0) = merge_view (view m) empty_view"
    by (simp add: view_apply_fields assms(2))
  also have "\<dots> = view m"
    by (rule rpc_view.equality) (simp_all add: merge_view_def empty_view_def pick_def split: option.splits)
  finally have "view (apply_fields m m0) = view m" .
  moreover have "msg_inv (apply_fields m m0)"
    using assms by (simp add: msg_inv_apply_fields sendable_def)
  ultimately show ?thesis
    using parse_serialized [OF assms(1) stream_of, of m0] unknown_apply_fields [of m m0] by blast
qed

end

subsection \<open>Parsing arbitrary input\<close>

fun next_ok :: "('s, 'u) parse_next \<Rightarrow> bool" where
  "next_ok (Goto lab m s) = msg_inv m"
| "next_ok (Return r) = (\<exists>ok m s. r = Inr (ok, m, s) \<and> msg_inv m)"

lemma handle_unusual_ok: "msg_inv m \<Longrightarrow> next_ok (handle_unusual L tag m s)"
  by (auto simp: handle_unusual_def Let_def split: prod.splits)

lemma do_fields_ok:
  assumes "msg_inv m"
  shows "next_ok (do_type L m s)" "next_ok (do_id L m s)" "next_ok (do_service L m s)"
    "next_ok (do_method L m s)" "next_ok (do_request L m s)" "next_ok (do_response L m s)"
    "next_ok (do_error L m s)"
  using assms
  by (auto simp: do_type_def do_id_def do_service_def do_method_def do_request_def do_response_def
      do_error_def set_id_alt mutable_assign Let_def split: prod.splits option.splits)

lemma parse_step_ok: "msg_inv m \<Longrightarrow> next_ok (parse_step L lab m s)"
  by (cases lab)
    (auto simp: do_tag_def Let_def do_fields_ok handle_unusual_ok split: prod.splits)

definition parse_measure :: "('s \<Rightarrow> bytes) \<Rightarrow> parse_label \<Rightarrow> 's \<Rightarrow> nat" where
  "parse_measure unread lab s = 2 * length (unread s) + (if lab = Read_tag then 0 else 1)"

definition shrinks :: "('s \<Rightarrow> bytes) \<Rightarrow> nat \<Rightarrow> ('s, 'u) parse_next \<Rightarrow> bool" where
  "shrinks unread n r \<longleftrightarrow>
     (case r of Goto lab m s \<Rightarrow> parse_measure unread lab s \<le> n | Return _ \<Rightarrow> True)"

context pb_progress
begin

lemma goto_expect:
  assumes "ExpectTag L t s = (b, s')"
  shows "parse_measure unread (if b then lab else Read_tag) s' \<le> 2 * length (unread s)"
  using expect_progress [OF assms] by (auto simp: parse_measure_def split: if_splits)

lemmas progress_laws = enum_progress fixed64_progress string_progress bytes_progress skip_progress end_progress

lemma handle_unusual_shrinks: "shrinks unread (2 * length (unread s)) (handle_unusual L tag m s)"
  by (auto simp: handle_unusual_def shrinks_def parse_measure_def Let_def dest: skip_progress split: prod.splits)

lemma do_fields_shrinks:
  shows "shrinks unread (2 * length (unread s)) (do_type L m s)" "shrinks unread (2 * length (unread s)) (do_id L m s)"
    "shrinks unread (2 * length (unread s)) (do_service L m s)" "shrinks unread (2 * length (unread s)) (do_method L m s)"
    "shrinks unread (2 * length (unread s)) (do_request L m s)" "shrinks unread (2 * length (unread s)) (do_response L m s)"
    "shrinks unread (2 * length (unread s)) (do_error L m s)"
  unfolding do_type_def do_id_def do_service_def do_method_def do_request_def do_response_def
      do_error_def Let_def shrinks_def
  by (fastforce dest!: goto_expect progress_laws simp: parse_measure_def
      split: prod.splits option.splits sum.splits if_splits)+

lemma parse_step_shrinks:
  assumes "parse_step L lab m s = Goto lab' m' s'"
  shows "parse_measure unread lab' s' < parse_measure unread lab s"
proof (cases "lab = Read_tag")
  case True
  obtain t ok s1 where r: "ReadTagWithCutoff L 127 s = ((t, ok), s1)"
    by (metis surj_pair)
  have step: "do_tag L m s = Goto lab' m' s'"
    using assms True by simp
  have "t \<noteq> 0"
  proof
    assume "t = 0"
    with r tag_zero have "\<not> ok" by blast
    with r \<open>t = 0\<close> step show False by (simp add: do_tag_def handle_unusual_def)
  qed
  with r have "length (unread s1) < length (unread s)"
    by (rule tag_progress)
  moreover have "shrinks unread (2 * length (unread s1)) (do_tag L m s)"
    by (simp add: do_tag_def r Let_def do_fields_shrinks handle_unusual_shrinks)
  ultimately show ?thesis
    using step True by (simp add: shrinks_def parse_measure_def [of unread Read_tag s])
next
  case False
  then have "shrinks unread (2 * length (unread s)) (parse_step L lab m s)"
    by (cases lab) (simp_all add: do_fields_shrinks)
  with assms False show ?thesis
    by (simp add: shrinks_def parse_measure_def [of unread lab s])
qed

lemma parse_loop_total:
  "msg_inv m \<Longrightarrow> \<exists>ok m' s'. parse_loop L lab m s = Some (Inr (ok, m', s')) \<and> msg_inv m'"
proof (induction "parse_measure unread lab s" arbitrary: lab m s rule: less_induct)
  case less
  show ?case
  proof (cases "parse_step L lab m s")
    case (Goto lab' m' s')
    then have "parse_measure unread lab' s' < parse_measure unread lab s"
      by (rule parse_step_shrinks)
    moreover have "msg_inv m'"
      using parse_step_ok [OF less.prems, of L lab s] Goto by simp
    ultimately have "\<exists>ok m'' s''. parse_loop L lab' m' s' = Some (Inr (ok, m'', s'')) \<and> msg_inv m''"
      using less.hyps by blast
    with Goto show ?thesis
      by (subst parse_loop.simps) simp
  next
    case (Return r)
    with parse_step_ok [OF less.prems, of L lab s] show ?thesis
      by (subst parse_loop.simps) auto
  qed
qed

end
subsection \<open>Properties\<close>

definition sample_message :: "bytes RpcMessage" where
  "sample_message =
     set_request [1, 2, 3] (set_method [80, 117, 116] (set_service [75, 86]
       (set_id 7 ((set_has_type (SharedCtor ref_wire))\<lparr>type_f := REQUEST\<rparr>))))"

lemma sample_facts:
  "has_bits_f sample_message = 31" "type_get sample_message = 1" "id_get sample_message = 7"
  "service_get sample_message = [75, 86]" "method_get sample_message = [80, 117, 116]"
  "request_get sample_message = [1, 2, 3]" "response_get sample_message = []"
  "unknown_fields_f sample_message = []"
  by (simp_all add: sample_message_def set_defs bit_defs get_defs SharedCtor_def Let_def ref_wire_def)

lemma serialized_sample:
  "SerializeWithCachedSizesToArray ref_wire sample_message =
     [8, 1, 17, 7, 0, 0, 0, 0, 0, 0, 0, 26, 2, 75, 86, 34, 3, 80, 117, 116, 42, 3, 1, 2, 3]"
  by (simp add: SerializeWithCachedSizesToArray_def has_defs sample_facts ref_wire_def tag_byte_def
      ref_enum_def ref_string_def varint.simps mem_of_word_def upt_conv_Cons)

lemma sample_sendable: "sendable ref_wire sample_message"
proof -
  have "msg_inv sample_message"
    unfolding sample_message_def by (intro msg_inv_set) (simp_all add: MessageType_IsValid_def)
  then show ?thesis
    by (simp add: sendable_def sample_facts ref_wire_def)
qed

text \<open>
  C13. Serialising a message that can be sent (well-formed, with no unknown fields and every
  string shorter than two gigabytes) and parsing the bytes into a new one gives the same message:
  every present field has its value, every absent field is absent, nothing lands in the
  unknown fields, and the whole input is consumed.
\<close>

theorem parse_serialize_roundtrip:
  assumes "pb_lib L unread" and "sendable L m"
  shows "\<exists>m' s'. MergePartialFromCodedStream L (RpcMessage_new L)
       (stream_of_array L (SerializeWithCachedSizesToArray L m)) = Some (Inr (True, m', s')) \<and>
     ConsumedEntireMessage L s' \<and> view m' = view m \<and> unknown_fields_f m' = uf_new L \<and> msg_inv m'"
  using pb_lib.parse_serialized_new [OF assms, of "RpcMessage_new L"]
  by (simp add: RpcMessage_new_def)

theorem parse_serialize_roundtrip_witness:
  "\<exists>m' s'. MergePartialFromCodedStream ref_wire (RpcMessage_new ref_wire)
       (stream_of_array ref_wire (SerializeWithCachedSizesToArray ref_wire sample_message))
       = Some (Inr (True, m', s')) \<and> v_id (view m') = Some 7 \<and> v_error (view m') = None"
proof -
  have "v_id (view sample_message) = Some 7" "v_error (view sample_message) = None"
    by (simp_all add: view_def has_defs sample_facts)
  with parse_serialize_roundtrip [OF ref.pb_lib_axioms sample_sendable] show ?thesis
    by force
qed

text \<open>
  C34. For a message whose single fields are each shorter than two gigabytes, \<open>ByteSize\<close> is the
  number of bytes \<open>SerializeWithCachedSizesToArray\<close> writes, as long as that fits an \<open>int\<close>, and is
  cached; this is what lets the codec reserve the space before it serialises. A longer message
  overflows the signed sum.
\<close>

theorem ByteSize_exact:
  assumes "pb_lib L unread" and "parts_fit L m"
  shows "if length (SerializeWithCachedSizesToArray L m) < 2 ^ 31
     then \<exists>n. ByteSize L m = Inr (n, SetCachedSize n m) \<and> sint n = int (length (SerializeWithCachedSizesToArray L m))
     else ByteSize L m = Inl Signed_overflow"
  using pb_lib.ByteSize_total [OF assms] sint_of_nat32 by (simp add: int_total_def)

theorem ByteSize_exact_witness:
  "\<exists>n. ByteSize ref_wire sample_message = Inr (n, SetCachedSize n sample_message) \<and>
     sint n = int (length (SerializeWithCachedSizesToArray ref_wire sample_message))"
proof -
  have "length (ref_string x) < 2 ^ 31" if "length x \<le> 3" for x
    using ref.string_size [of x] that by (simp add: ref_wire_def)
  then have "parts_fit ref_wire sample_message"
    by (simp add: parts_fit_def has_defs sample_facts) (simp add: ref_wire_def)
  from ByteSize_exact [OF ref.pb_lib_axioms this] show ?thesis
    by (simp add: serialized_sample)
qed

text \<open>
  C35. The two serialisers agree: writing to an output stream appends exactly the bytes that
  writing to an array stores.
\<close>

theorem serializers_agree:
  assumes "pb_lib L unread"
  shows "SerializeWithCachedSizes L m out = out @ SerializeWithCachedSizesToArray L m"
  by (simp add: SerializeWithCachedSizes_def SerializeWithCachedSizesToArray_def Let_def
      pb_lib.write_stream [OF assms])

theorem serializers_agree_witness:
  "SerializeWithCachedSizes ref_wire sample_message [] =
     [] @ SerializeWithCachedSizesToArray ref_wire sample_message"
  by (rule serializers_agree [OF ref.pb_lib_axioms])

text \<open>
  C16. Parsing is total and safe on any input, well-formed or not: it returns, none of the
  generated assertions fires, and the message it leaves (complete or partial) satisfies the
  class invariant, so its enumeration fields hold valid values.
\<close>

theorem parse_total_safe:
  assumes "pb_progress L unread" and "msg_inv m"
  shows "\<exists>ok m' s'. MergePartialFromCodedStream L m s = Some (Inr (ok, m', s')) \<and> msg_inv m'"
  using pb_progress.parse_loop_total [OF assms] by (simp add: MergePartialFromCodedStream_def)

theorem parse_total_safe_witness:
  "\<exists>ok m' s'. MergePartialFromCodedStream ref_wire (RpcMessage_new ref_wire)
     (stream_of_array ref_wire [8, 9, 58, 200, 0, 26, 5, 1]) = Some (Inr (ok, m', s')) \<and> msg_inv m'"
  by (rule parse_total_safe [OF ref_prog.pb_progress_axioms]) (simp add: RpcMessage_new_def)

lemma MergeFrom_eq:
  assumes "msg_inv from"
  shows "MergeFrom L False from m = Inr ((apply_fields from m)\<lparr>unknown_fields_f :=
     uf_MergeFrom L (unknown_fields_f from) (unknown_fields_f m)\<rparr>)"
proof (cases "has_bits_f from AND 0xff = 0")
  case True
  then show ?thesis
    by (simp add: MergeFrom_def apply_fields_def Let_def low_byte_zero)
next
  case False
  have "unknown_fields_f (apply_fields from m) = unknown_fields_f m"
    by (rule unknown_apply_fields)
  with False show ?thesis
    by (simp add: MergeFrom_def apply_fields_def Let_def valid_get [OF assms])
qed

text \<open>
  \<open>MergeFrom\<close> overrides the target field by field: a field present in the source
  replaces the target's, any other field of the target is kept, and the assertions of the
  setters hold. Merging an object into itself is the failed check.
\<close>

theorem MergeFrom_overrides:
  assumes "msg_inv from" and "msg_inv m"
  shows "\<exists>m'. MergeFrom L False from m = Inr m' \<and> view m' = merge_view (view from) (view m) \<and>
     msg_inv m' \<and> unknown_fields_f m' = uf_MergeFrom L (unknown_fields_f from) (unknown_fields_f m)"
  using assms by (simp add: MergeFrom_eq view_apply_fields msg_inv_apply_fields)

theorem MergeFrom_overrides_witness:
  "\<exists>m'. MergeFrom ref_wire False sample_message (set_id 9 (set_response [5] (SharedCtor ref_wire))) = Inr m' \<and>
     v_id (view m') = Some 7 \<and> v_response (view m') = Some [5]"
proof -
  have i: "msg_inv (set_id 9 (set_response [5] (SharedCtor ref_wire)))"
    by (intro msg_inv_set new_message)
  have "msg_inv sample_message"
    using sample_sendable by (simp add: sendable_def)
  from MergeFrom_overrides [OF this i, of ref_wire] show ?thesis
    by (auto simp: merge_view_def pick_def view_def [of sample_message] has_defs sample_facts empty_view_def)
qed

lemma low_bits_zero:
  assumes "has_bits_f m AND 127 = 0"
  shows "\<not> has_type m" "\<not> has_id m" "\<not> has_service m" "\<not> has_method m" "\<not> has_request m"
    "\<not> has_response m" "\<not> has_error m"
  using and_mask_zero [of "has_bits_f m" 7] assms
  by (simp_all add: has_bit_iff mask_eq_exp_minus_1)

lemma Clear_fields:
  assumes "msg_inv m"
  shows "has_bits_f (Clear L m) = 0 \<and> unknown_fields_f (Clear L m) = uf_new L \<and>
    type_f (Clear L m) = 0 \<and> id_f (Clear L m) = 0 \<and> error_f (Clear L m) = 0 \<and>
    str_val (service_f (Clear L m)) = [] \<and> str_val (method_f (Clear L m)) = [] \<and>
    str_val (request_f (Clear L m)) = [] \<and> str_val (response_f (Clear L m)) = []"
proof -
  have "has_bits_f m AND 127 = 0 \<Longrightarrow> msg_inv m \<Longrightarrow> ?thesis"
    by (simp add: Clear_def Let_def msg_inv_def low_bits_zero)
  moreover have "has_bits_f m AND 127 \<noteq> 0 \<Longrightarrow> msg_inv m \<Longrightarrow> ?thesis"
    by (simp add: Clear_def Let_def msg_inv_def has_defs)
  ultimately show ?thesis
    using assms by blast
qed

lemma Clear_view:
  assumes "msg_inv m"
  shows "view (Clear L m) = empty_view" and "msg_inv (Clear L m)"
  by (simp_all add: view_def empty_view_def msg_inv_def get_defs has_bit_iff Clear_fields [OF assms])

text \<open>
  \<open>Clear\<close> empties a message whatever it held: no field is present, every getter returns
  the default, the unknown fields are gone, and the invariant holds.
\<close>

lemma Clear_empties:
  assumes "msg_inv m"
  shows "view (Clear L m) = empty_view \<and> msg_inv (Clear L m) \<and> unknown_fields_f (Clear L m) = uf_new L \<and>
     type_get (Clear L m) = UNKNOW \<and> id_get (Clear L m) = 0 \<and> service_get (Clear L m) = [] \<and>
     method_get (Clear L m) = [] \<and> request_get (Clear L m) = [] \<and> response_get (Clear L m) = [] \<and>
     error_get (Clear L m) = NO_ERROR"
  by (simp add: view_def empty_view_def msg_inv_def get_defs has_bit_iff Clear_fields [OF assms])

lemma Clear_empties_example:
  "view (Clear ref_wire sample_message) = empty_view \<and> view sample_message \<noteq> empty_view"
proof -
  have "msg_inv sample_message"
    using sample_sendable by (simp add: sendable_def)
  from Clear_empties [OF this, of ref_wire] show ?thesis
    by (simp add: view_def [of sample_message] empty_view_def has_defs sample_facts)
qed

text \<open>
  \<open>CopyFrom\<close> makes the target a copy of the source, whatever the target held before; on
  the object itself it does nothing.
\<close>

theorem CopyFrom_copies:
  assumes "pb_lib L unread" and "msg_inv from" and "msg_inv m"
  shows "\<exists>m'. CopyFrom L False from m = Inr m' \<and> view m' = view from \<and>
     unknown_fields_f m' = unknown_fields_f from \<and> msg_inv m' \<and> CopyFrom L True m m = Inr m"
proof -
  have "merge_view (view from) empty_view = view from"
    by (rule rpc_view.equality) (simp_all add: merge_view_def empty_view_def pick_def split: option.splits)
  then show ?thesis
    using assms Clear_view [OF assms(3), of L] by (simp add: CopyFrom_def MergeFrom_eq view_apply_fields msg_inv_apply_fields
        Clear_fields pb_lib.uf_merge_new)
qed

theorem CopyFrom_copies_witness:
  "\<exists>m'. CopyFrom ref_wire False sample_message (set_response [5] (SharedCtor ref_wire)) = Inr m' \<and>
     view m' = view sample_message \<and> v_response (view m') = None"
proof -
  have i: "msg_inv (set_response [5] (SharedCtor ref_wire))"
    by (intro msg_inv_set new_message)
  have "msg_inv sample_message"
    using sample_sendable by (simp add: sendable_def)
  from CopyFrom_copies [OF ref.pb_lib_axioms this i] show ?thesis
    by (auto simp: view_def [of sample_message] has_defs sample_facts)
qed

text \<open>
  \<open>Swap\<close> exchanges the two messages completely, and handing a string over with
  \<open>release_service\<close> and taking it back with \<open>set_allocated_service\<close> restores the field.
\<close>

lemma Swap_release_roundtrip:
  "Swap m other = (other, m) \<and>
   (has_service m \<and> service_f m \<noteq> EmptyString \<longrightarrow>
      set_allocated_service (fst (release_service m)) (snd (release_service m)) = m \<and>
      \<not> has_service (snd (release_service m)) \<and> service_get (snd (release_service m)) = [])"
proof
  show "Swap m other = (other, m)"
    by (simp add: Swap_def)
  show "has_service m \<and> service_f m \<noteq> EmptyString \<longrightarrow>
      set_allocated_service (fst (release_service m)) (snd (release_service m)) = m \<and>
      \<not> has_service (snd (release_service m)) \<and> service_get (snd (release_service m)) = []"
  proof (intro impI)
    assume h: "has_service m \<and> service_f m \<noteq> EmptyString"
    then obtain x where x: "service_f m = Owned x"
      by (cases "service_f m") auto
    have "(has_bits_f m AND NOT 4) OR 4 = has_bits_f m"
    proof (rule bit_word_eqI)
      fix n
      assume "n < LENGTH(32)"
      have "bit (4 :: uint32) n \<longleftrightarrow> n = 2"
        using bit_exp_iff [of 2 n, where 'a = "32 word"] \<open>n < LENGTH(32)\<close> by simp
      then show "bit ((has_bits_f m AND NOT 4) OR 4) n = bit (has_bits_f m) n"
        using h \<open>n < LENGTH(32)\<close> by (auto simp: bit_simps has_bit_iff)
    qed
    then show "set_allocated_service (fst (release_service m)) (snd (release_service m)) = m \<and>
      \<not> has_service (snd (release_service m)) \<and> service_get (snd (release_service m)) = []"
      using x by (simp add: release_service_def set_allocated_service_def bit_defs get_defs has_bit_iff
          bit_simps)
  qed
qed

lemma Swap_release_roundtrip_example:
  "has_service sample_message \<and> service_f sample_message \<noteq> EmptyString \<and>
   set_allocated_service (fst (release_service sample_message)) (snd (release_service sample_message))
     = sample_message"
proof -
  have "has_service sample_message \<and> service_f sample_message \<noteq> EmptyString"
    using sample_facts by (auto simp: has_defs get_defs)
  with Swap_release_roundtrip [of sample_message sample_message] show ?thesis
    by blast
qed

end
