(* ===== verification/Codec.thy ===== *)
theory Codec
  imports Connection Endian
begin

text \<open>
  \<open>src/codeClite.h\<close>, \<open>src/codeClite.cpp\<close> and \<open>src/google-inl.h\<close>: the class
  \<open>ProtobufCodecLite\<close>, which frames messages on a connection. A frame is a four-byte length,
  a tag, the serialised message and a four-byte Adler-32 checksum of tag and message, the
  integers in network byte order. Messages are reached through the record \<open>M\<close> of the
  virtual methods of \<open>google::protobuf::Message\<close>, zlib through the function \<open>Z\<close>, libevent
  through the record \<open>E\<close>. The abstract decoder \<open>decode_stream\<close> says what the receiving loop
  delivers from a byte stream, and the loop is shown to refine it.
\<close>

subsection \<open>The interfaces the codec uses\<close>

record 'm message_ops =
  msg_New :: 'm
  msg_IsInitialized :: "'m \<Rightarrow> bool"
  msg_ByteSize :: "'m \<Rightarrow> int32 res"
  msg_SerializeWithCachedSizesToArray :: "'m \<Rightarrow> bytes"
  msg_ParseFromArray :: "bytes \<Rightarrow> 'm \<Rightarrow> (bool \<times> 'm) res option"
  msg_GetTypeName :: string
  msg_InitializationErrorString :: "'m \<Rightarrow> string"

text \<open>\<open>adler32(adler, buf, len)\<close>: \<open>None\<close> is the null buffer \<open>Z_NULL\<close>.\<close>

type_synonym adler32_fun = "uint64 \<Rightarrow> bytes option \<Rightarrow> uint64"

subsection \<open>\<open>google-inl.h\<close>\<close>

definition ByteSizeConsistencyError :: "int32 \<Rightarrow> int32 \<Rightarrow> int32 \<Rightarrow> fault" where
  "ByteSizeConsistencyError before_serialization after_serialization produced =
     (if before_serialization \<noteq> after_serialization
      then Check_failed ''Protocol message was modified concurrently during serialization.''
      else if produced \<noteq> before_serialization
      then Check_failed (''Byte size calculation and serialization were inconsistent.  This '' @
        ''may indicate a bug in protocol buffers or it may be caused by '' @
        ''concurrent modification of the message.'')
      else Check_failed ''This shouldn't be called if all the sizes are equal.'')"

definition InitializationErrorMessage :: "string \<Rightarrow> 'm message_ops \<Rightarrow> 'm \<Rightarrow> string" where
  "InitializationErrorMessage action M message =
     (let result = [];
          result = result @ ''Can't '';
          result = result @ action;
          result = result @ '' message of type \"'';
          result = result @ msg_GetTypeName M;
          result = result @ ''\" because it is missing required fields: '';
          result = result @ msg_InitializationErrorString M message
      in result)"

subsection \<open>The codec\<close>

datatype ErrorCode =
  noError | invalidLength | checkSumError | invalidNameLen | unknownMessageType | parseError

definition headerLen :: nat where "headerLen = 4"
definition checksumLen :: nat where "checksumLen = 4"
definition maxMessageLen :: int where "maxMessageLen = 64 * 1024 * 1024"

record ('m, 'w) ProtobufCodecLite =
  codec_tag :: bytes
  messageCallback :: "ptr \<Rightarrow> 'm \<Rightarrow> 'w \<Rightarrow> 'w res"
  rawCb :: "(ptr \<Rightarrow> int32 \<Rightarrow> 'w \<Rightarrow> (bool \<times> 'w) res) option"
  codec_errorCallback :: "ptr \<Rightarrow> ErrorCode \<Rightarrow> 'w \<Rightarrow> 'w res"
  minMessageLen :: uint32

text \<open>The tag is the C string \<open>tagArg\<close> up to its terminator.\<close>

definition ProtobufCodecLite_init ::
  "bytes \<Rightarrow> (ptr \<Rightarrow> 'm \<Rightarrow> 'w \<Rightarrow> 'w res) \<Rightarrow> (ptr \<Rightarrow> int32 \<Rightarrow> 'w \<Rightarrow> (bool \<times> 'w) res) option \<Rightarrow>
   (ptr \<Rightarrow> ErrorCode \<Rightarrow> 'w \<Rightarrow> 'w res) \<Rightarrow> ('m, 'w) ProtobufCodecLite" where
  "ProtobufCodecLite_init tagArg messageCb raw errorCb =
     (let tag = takeWhile (\<lambda>b. b \<noteq> 0) tagArg in
      \<lparr>codec_tag = tag, messageCallback = messageCb, rawCb = raw, codec_errorCallback = errorCb,
       minMessageLen = of_nat (length tag + checksumLen)\<rparr>)"

definition get_tag :: "('m, 'w) ProtobufCodecLite \<Rightarrow> bytes" where
  "get_tag cd = codec_tag cd"

text \<open>The default branch, \<open>UnknownError\<close>, is for values outside the enumeration, which the type has not.\<close>

fun errorCodeToString :: "ErrorCode \<Rightarrow> string" where
  "errorCodeToString noError = ''NoError''"
| "errorCodeToString invalidLength = ''InvalidLength''"
| "errorCodeToString checkSumError = ''CheckSumError''"
| "errorCodeToString invalidNameLen = ''InvalidNameLen''"
| "errorCodeToString unknownMessageType = ''UnknownMessageType''"
| "errorCodeToString parseError = ''ParseError''"

definition defaultErrorCallback ::
  "ptr \<Rightarrow> ErrorCode \<Rightarrow> ('s, 'z) net_scheme \<Rightarrow> ('s, 'z) net_scheme res" where
  "defaultErrorCallback conn errorCode w =
     (if conn \<noteq> NULL then
        bind_res (getBufferevent conn w) (\<lambda>bev.
        bind_res (free_bev bev w) (\<lambda>w.
        bind_res (getThread conn w) (\<lambda>thread.
        thread_deleteConn thread conn w)))
      else Inr w)"

definition asInt32 :: "bytes \<Rightarrow> int32 res" where
  "asInt32 buf =
     (if length buf < 4 then Inl Out_of_bounds
      else Inr (networkToHost32 (word_of_mem (take 4 buf))))"

text \<open>The checksum of the first \<open>len\<close> bytes of a buffer, over the extents that cover them.\<close>

definition checksum :: "'s evbuffer_ops \<Rightarrow> adler32_fun \<Rightarrow> ptr \<Rightarrow> int32 \<Rightarrow> 's \<Rightarrow> int32 res" where
  "checksum E Z buf len s =
     (let adler = Z 1 None;
          n = fst (evbuffer_peek E buf (sint len) 0 s);
          (r, vec) = evbuffer_peek E buf (sint len) n s
      in if r \<noteq> n then Inl Assertion_failed
         else Inr (ucast (fold (\<lambda>v a. Z a (Some v)) vec adler)))"

definition validateChecksum :: "adler32_fun \<Rightarrow> bytes \<Rightarrow> int \<Rightarrow> bool res" where
  "validateChecksum Z buf len =
     (if len < int checksumLen \<or> int (length buf) < len then Inl Out_of_bounds
      else bind_res (asInt32 (drop (nat len - checksumLen) buf)) (\<lambda>expectedCheckSum.
        let adler = Z 1 None;
            adler = Z adler (Some (take (nat len - checksumLen) buf))
        in Inr ((ucast adler :: int32) = expectedCheckSum)))"

subsection \<open>Sending\<close>

definition serializeToBuffer ::
  "'s evbuffer_ops \<Rightarrow> 'm message_ops \<Rightarrow> 'm \<Rightarrow> ptr \<Rightarrow> 's \<Rightarrow> (int32 \<times> 's) res" where
  "serializeToBuffer E M message buf s =
     (if \<not> msg_IsInitialized M message
      then Inl (Check_failed (InitializationErrorMessage ''serialize'' M message))
      else
        bind_res (msg_ByteSize M message) (\<lambda>byte_size.
        let room = unat (byte_size + of_nat checksumLen);
            (n, iov_base, s) = evbuffer_reserve_space E buf room s
        in if n \<noteq> 1 then Inl Uninitialised
           else
             let out = msg_SerializeWithCachedSizesToArray M message in
             if room < length out then Inl Out_of_bounds
             else if length out \<noteq> unat byte_size
             then bind_res (msg_ByteSize M message) (\<lambda>after_size.
               Inl (ByteSizeConsistencyError byte_size after_size (of_nat (length out))))
             else
               let (r, s) = evbuffer_commit_space E buf iov_base out s
               in Inr (of_nat (length out), s)))"

definition fillEmptyBuffer ::
  "'s evbuffer_ops \<Rightarrow> adler32_fun \<Rightarrow> 'm message_ops \<Rightarrow> ('m, 'w) ProtobufCodecLite \<Rightarrow>
   ptr \<Rightarrow> 'm \<Rightarrow> 's \<Rightarrow> (int \<times> 's) res" where
  "fillEmptyBuffer E Z M cd buf message s =
     (let (r, s) = evbuffer_add E buf (codec_tag cd) s in
      if r < 0 then Inr (r, s)
      else
        bind_res (serializeToBuffer E M message buf s) (\<lambda>(byte_size, s).
        bind_res (checksum E Z buf (byte_size + of_nat (length (codec_tag cd))) s) (\<lambda>checkSum.
          let len = hostToNetwork32 checkSum;
              (r, s) = evbuffer_add E buf (mem_of_word len) s
          in if r < 0 then Inr (r, s)
             else
               let len = hostToNetwork32 (of_nat (length (codec_tag cd)) + byte_size + of_nat checksumLen);
                   (r, s) = evbuffer_prepend E buf (mem_of_word len) s
               in if r < 0 then Inr (r, s) else Inr (0, s))))"

definition send ::
  "'s evbuffer_ops \<Rightarrow> adler32_fun \<Rightarrow> 'm message_ops \<Rightarrow> ('m, ('s, 'z) net_scheme) ProtobufCodecLite \<Rightarrow>
   ptr \<Rightarrow> 'm \<Rightarrow> ('s, 'z) net_scheme \<Rightarrow> ('s, 'z) net_scheme res" where
  "send E Z M cd conn message w =
     (let (ebuf, s) = evbuffer_new E (ext w) in
      if ebuf = NULL then Inl Null_deref
      else
        bind_res (fillEmptyBuffer E Z M cd ebuf message s) (\<lambda>(r, s).
        bind_res (addBufToWriteBuffer E conn ebuf (w\<lparr>ext := s\<rparr>)) (\<lambda>(r, w).
        Inr (w\<lparr>ext := evbuffer_free E ebuf (ext w)\<rparr>))))"

subsection \<open>Receiving\<close>

definition parseFromBuffer :: "'m message_ops \<Rightarrow> bytes \<Rightarrow> 'm \<Rightarrow> (bool \<times> 'm) res option" where
  "parseFromBuffer M buf message = msg_ParseFromArray M buf message"

definition parse ::
  "'s evbuffer_ops \<Rightarrow> adler32_fun \<Rightarrow> 'm message_ops \<Rightarrow> ('m, 'w) ProtobufCodecLite \<Rightarrow> ptr \<Rightarrow> int32 \<Rightarrow> 'm \<Rightarrow>
   ('s, 'z) net_scheme \<Rightarrow> (ErrorCode \<times> 'm \<times> ('s, 'z) net_scheme) res option" where
  "parse E Z M cd conn len message w =
     (case live_readBuf conn w of
        Inl e \<Rightarrow> Some (Inl e)
      | Inr rb \<Rightarrow>
         (if sint len < 0 then Some (Inl Out_of_bounds)
          else case evbuffer_pullup E rb (unat len) (ext w) of
            (None, s) \<Rightarrow> Some (Inl Null_deref)
          | (Some data, s) \<Rightarrow>
             (case validateChecksum Z data (sint len) of
                Inl e \<Rightarrow> Some (Inl e)
              | Inr False \<Rightarrow> Some (Inr (unknownMessageType, message, w\<lparr>ext := s\<rparr>))
              | Inr True \<Rightarrow>
                 (if length data < length (codec_tag cd) then Some (Inl Out_of_bounds)
                  else if take (length (codec_tag cd)) data = codec_tag cd then
                    let dataLen = sint len - int checksumLen - int (length (codec_tag cd)) in
                    if dataLen < 0 then Some (Inl Out_of_bounds)
                    else
                     (case parseFromBuffer M (take (nat dataLen) (drop (length (codec_tag cd)) data)) message of
                        None \<Rightarrow> None
                      | Some (Inl e) \<Rightarrow> Some (Inl e)
                      | Some (Inr (ok, message)) \<Rightarrow> Some (Inr (noError, message, w\<lparr>ext := s\<rparr>)))
                  else Some (Inr (parseError, message, w\<lparr>ext := s\<rparr>))))))"

text \<open>
  One turn of the loop of \<open>onMessage\<close>: it continues, or leaves the loop with a result. The local
  \<open>len\<close> starts at zero and its bytes are overwritten by what \<open>readBuffer\<close> stores.
\<close>

definition drain_message ::
  "'s evbuffer_ops \<Rightarrow> ptr \<Rightarrow> int32 \<Rightarrow> ('s, 'z) net_scheme \<Rightarrow> ('s, 'z) net_scheme res" where
  "drain_message E conn len w =
     bind_res (live_readBuf conn w) (\<lambda>rb.
       let (r, s) = evbuffer_drain E rb (unat (scast len :: uint64)) (ext w) in Inr (w\<lparr>ext := s\<rparr>))"

definition read_header ::
  "'s evbuffer_ops \<Rightarrow> ptr \<Rightarrow> ('s, 'z) net_scheme \<Rightarrow> (int32 \<times> ('s, 'z) net_scheme) res" where
  "read_header E conn w =
     bind_res (readBuffer E conn 4 w) (\<lambda>(r, d, w).
     bind_res (asInt32 (d @ drop (length d) (mem_of_word (0 :: int32)))) (\<lambda>len. Inr (len, w)))"

datatype 'w turn = Continue 'w | Leave "'w res"

definition deliver ::
  "'s evbuffer_ops \<Rightarrow> adler32_fun \<Rightarrow> 'm message_ops \<Rightarrow> ('m, ('s, 'z) net_scheme) ProtobufCodecLite \<Rightarrow>
   ptr \<Rightarrow> int32 \<Rightarrow> ('s, 'z) net_scheme \<Rightarrow> ('s, 'z) net_scheme turn option" where
  "deliver E Z M cd conn len w =
     (case (case rawCb cd of None \<Rightarrow> Inr (True, w) | Some f \<Rightarrow> f conn len w) of
        Inl e \<Rightarrow> Some (Leave (Inl e))
      | Inr (False, w) \<Rightarrow>
         (case drain_message E conn len w of
            Inl e \<Rightarrow> Some (Leave (Inl e))
          | Inr w \<Rightarrow> Some (Continue w))
      | Inr (True, w) \<Rightarrow>
         (case parse E Z M cd conn len (msg_New M) w of
            None \<Rightarrow> None
          | Some (Inl e) \<Rightarrow> Some (Leave (Inl e))
          | Some (Inr (errorCode, message, w)) \<Rightarrow>
             (if errorCode = noError then
               (case bind_res (messageCallback cd conn message w) (drain_message E conn len) of
                  Inl e \<Rightarrow> Some (Leave (Inl e))
                | Inr w \<Rightarrow> Some (Continue w))
              else Some (Leave (codec_errorCallback cd conn errorCode w)))))"

definition onMessage_turn ::
  "'s evbuffer_ops \<Rightarrow> adler32_fun \<Rightarrow> 'm message_ops \<Rightarrow> ('m, ('s, 'z) net_scheme) ProtobufCodecLite \<Rightarrow>
   ptr \<Rightarrow> ('s, 'z) net_scheme \<Rightarrow> ('s, 'z) net_scheme turn option" where
  "onMessage_turn E Z M cd conn w =
     (case getReadBufferLen E conn w of
        Inl e \<Rightarrow> Some (Leave (Inl e))
      | Inr avail \<Rightarrow>
         (if \<not> minMessageLen cd + of_nat headerLen \<le> avail then Some (Leave (Inr w))
          else case read_header E conn w of
            Inl e \<Rightarrow> Some (Leave (Inl e))
          | Inr (len, w) \<Rightarrow>
             (if maxMessageLen < sint len \<or> len < minMessageLen cd
              then Some (Leave (codec_errorCallback cd conn invalidLength w))
              else case getReadBufferLen E conn w of
                Inl e \<Rightarrow> Some (Leave (Inl e))
              | Inr avail \<Rightarrow>
                 (if len \<le> avail then deliver E Z M cd conn len w
                  else Some (Leave (Inr w))))))"

partial_function (option) onMessage ::
  "'s evbuffer_ops \<Rightarrow> adler32_fun \<Rightarrow> 'm message_ops \<Rightarrow> ('m, ('s, 'z) net_scheme) ProtobufCodecLite \<Rightarrow>
   ptr \<Rightarrow> ('s, 'z) net_scheme \<Rightarrow> ('s, 'z) net_scheme res option" where
  "onMessage E Z M cd conn w =
     (case onMessage_turn E Z M cd conn w of
        None \<Rightarrow> None
      | Some (Leave r) \<Rightarrow> Some r
      | Some (Continue w') \<Rightarrow> onMessage E Z M cd conn w')"

subsection \<open>The wire format and the abstract decoder\<close>

definition be32 :: "uint32 \<Rightarrow> bytes" where
  "be32 v = rev (mem_of_word v)"

definition be32_val :: "bytes \<Rightarrow> uint32" where
  "be32_val bs = word_of_mem (rev bs)"

definition adler_of :: "adler32_fun \<Rightarrow> bytes \<Rightarrow> uint32" where
  "adler_of Z bs = ucast (Z 1 (Some bs))"

definition frame_body :: "adler32_fun \<Rightarrow> bytes \<Rightarrow> bytes \<Rightarrow> bytes" where
  "frame_body Z tag payload = tag @ payload @ be32 (adler_of Z (tag @ payload))"

definition frame :: "adler32_fun \<Rightarrow> bytes \<Rightarrow> bytes \<Rightarrow> bytes" where
  "frame Z tag payload =
     be32 (of_nat (length tag + length payload + checksumLen)) @ frame_body Z tag payload"

definition parsed_message :: "'m message_ops \<Rightarrow> bytes \<Rightarrow> 'm" where
  "parsed_message M bs =
     (case msg_ParseFromArray M bs (msg_New M) of Some (Inr (ok, m)) \<Rightarrow> m | _ \<Rightarrow> msg_New M)"

definition decode_body :: "adler32_fun \<Rightarrow> 'm message_ops \<Rightarrow> bytes \<Rightarrow> bytes \<Rightarrow> ErrorCode + 'm" where
  "decode_body Z M tag body =
     (let n = length body - checksumLen in
      if adler_of Z (take n body) \<noteq> be32_val (drop n body) then Inl unknownMessageType
      else if take (length tag) body \<noteq> tag then Inl parseError
      else Inr (parsed_message M (take (n - length tag) (drop (length tag) body))))"

text \<open>
  What the receiving loop makes of the bytes in the read buffer: the messages it delivers, the
  error it reports if any, and the bytes it leaves in the buffer.
\<close>

function decode_stream ::
  "adler32_fun \<Rightarrow> 'm message_ops \<Rightarrow> bytes \<Rightarrow> bytes \<Rightarrow> 'm list \<times> ErrorCode option \<times> bytes" where
  "decode_stream Z M tag bs =
     (if length bs < length tag + checksumLen + headerLen then ([], None, bs)
      else
        let len = be32_val (take 4 bs); rest = drop 4 bs in
        if maxMessageLen < sint len \<or> len < of_nat (length tag + checksumLen)
        then ([], Some invalidLength, rest)
        else if length rest < unat len then ([], None, rest)
        else case decode_body Z M tag (take (unat len) rest) of
          Inl e \<Rightarrow> ([], Some e, rest)
        | Inr m \<Rightarrow>
            let (ms, e, left) = decode_stream Z M tag (drop (unat len) rest)
            in (m # ms, e, left))"
  by pat_completeness auto
termination
  by (relation "measure (\<lambda>(Z, M, tag, bs). length bs)") (auto simp: headerLen_def)

declare decode_stream.simps [simp del]

lemma length_be32 [simp]: "length (be32 v) = 4"
  by (simp add: be32_def)

lemma be32_val_be32 [simp]: "be32_val (be32 v) = v"
  by (simp add: be32_def be32_val_def)

lemma mem_of_net [simp]: "mem_of_word (hostToNetwork32 v) = be32 v"
  by (simp add: be32_def net32.big_endian)

lemma asInt32_eq: "length bs = 4 \<Longrightarrow> asInt32 (bs @ cs) = Inr (be32_val bs)"
  by (simp add: asInt32_def be32_val_def networkToHost32_def bswap_def)

lemma asInt32_4: "length bs = 4 \<Longrightarrow> asInt32 bs = Inr (be32_val bs)"
  using asInt32_eq [of bs "[]"] by simp

lemma length_frame_body [simp]: "length (frame_body Z tag p) = length tag + length p + checksumLen"
  by (simp add: frame_body_def checksumLen_def)

lemma length_frame [simp]: "length (frame Z tag p) = length tag + length p + checksumLen + headerLen"
  by (simp add: frame_def headerLen_def)

lemma take_drop_frame [simp]:
  "take 4 (frame Z tag p @ rest) = be32 (of_nat (length tag + length p + checksumLen))"
  "drop 4 (frame Z tag p @ rest) = frame_body Z tag p @ rest"
  by (simp_all add: frame_def)

subsection \<open>What the codec needs of its environment\<close>

locale zlib_lib =
  fixes Z :: adler32_fun
  assumes adler_init: "Z a None = 1"
    and adler_empty: "Z 1 (Some []) = 1"
    and adler_append: "Z (Z a (Some xs)) (Some ys) = Z a (Some (xs @ ys))"
begin

lemma adler_fold: "fold (\<lambda>v a. Z a (Some v)) vs (Z 1 (Some xs)) = Z 1 (Some (xs @ concat vs))"
  by (induction vs arbitrary: xs) (simp_all add: adler_append)

lemma adler_chunks: "fold (\<lambda>v a. Z a (Some v)) vs (Z 1 None) = Z 1 (Some (concat vs))"
  using adler_fold [of vs "[]"] by (simp add: adler_init adler_empty)

end

text \<open>
  The messages: \<open>good\<close> ones can be sent, and parsing their bytes into a new message gives a
  message that means the \<open>same\<close>; parsing any bytes returns.
\<close>

locale message_lib =
  fixes M :: "'m message_ops"
    and good :: "'m \<Rightarrow> bool"
    and same :: "'m \<Rightarrow> 'm \<Rightarrow> bool"
  assumes good_init: "good m \<Longrightarrow> msg_IsInitialized M m"
    and good_size: "good m \<Longrightarrow> length (msg_SerializeWithCachedSizesToArray M m) < 2 ^ 31 \<Longrightarrow>
        msg_ByteSize M m = Inr (of_nat (length (msg_SerializeWithCachedSizesToArray M m)))"
    and good_parse: "good m \<Longrightarrow>
        \<exists>m'. msg_ParseFromArray M (msg_SerializeWithCachedSizesToArray M m) (msg_New M)
              = Some (Inr (True, m')) \<and> same m m'"
    and parse_total: "\<exists>ok m'. msg_ParseFromArray M bs (msg_New M) = Some (Inr (ok, m'))"
begin

lemma parsed_same: "good m \<Longrightarrow> same m (parsed_message M (msg_SerializeWithCachedSizesToArray M m))"
  using good_parse [of m] by (auto simp: parsed_message_def)

lemma parse_eq: "\<exists>ok. msg_ParseFromArray M bs (msg_New M) = Some (Inr (ok, parsed_message M bs))"
  using parse_total [of bs] by (auto simp: parsed_message_def)

end

locale codec_env = evbuffer_ok E evb + zlib_lib Z + message_lib M good same
  for E :: "'s evbuffer_ops" and evb and Z and M :: "'m message_ops" and good and same

text \<open>A codec as the program builds it: no raw callback, and a tag of ordinary length.\<close>

definition codec_ok :: "('m, 'w) ProtobufCodecLite \<Rightarrow> bool" where
  "codec_ok cd \<longleftrightarrow> rawCb cd = None \<and> length (codec_tag cd) < 2 ^ 16 \<and>
     minMessageLen cd = of_nat (length (codec_tag cd) + checksumLen)"

definition fits :: "bytes \<Rightarrow> bytes \<Rightarrow> bool" where
  "fits tag payload \<longleftrightarrow> int (length tag + length payload + checksumLen) \<le> maxMessageLen"

lemma codec_ok_init:
  "length tag < 2 ^ 16 \<Longrightarrow> codec_ok (ProtobufCodecLite_init tag cb None ecb)"
  using length_takeWhile_le [of "\<lambda>b. b \<noteq> 0" tag] by (simp add: codec_ok_def ProtobufCodecLite_init_def Let_def)

subsection \<open>Sending produces the frame\<close>

context codec_env
begin

lemma serializeToBuffer_appends:
  assumes "good m" and "evb s buf = Some c"
    and "length (msg_SerializeWithCachedSizesToArray M m) + checksumLen < 2 ^ 31"
  shows "\<exists>s'. serializeToBuffer E M m buf s = Inr (of_nat (length (msg_SerializeWithCachedSizesToArray M m)), s') \<and>
     evb s' = (evb s)(buf \<mapsto> c @ msg_SerializeWithCachedSizesToArray M m)"
proof -
  let ?p = "msg_SerializeWithCachedSizesToArray M m"
  have room: "unat (of_nat (length ?p) + of_nat checksumLen :: uint32) = length ?p + checksumLen"
    using assms(3) unat_of_nat32 [of "length ?p + checksumLen"] by simp
  have sz: "unat (of_nat (length ?p) :: uint32) = length ?p"
    using assms(3) by (simp add: unat_of_nat32)
  obtain base s1 s2 where r: "evbuffer_reserve_space E buf (length ?p + checksumLen) s = (1, base, s1)"
      "evbuffer_commit_space E buf base ?p s1 = (0, s2)" "evb s2 = (evb s)(buf \<mapsto> c @ ?p)"
    using reserve_commitE [OF assms(2), of ?p "length ?p + checksumLen"] by auto
  then show ?thesis
    using good_init [OF assms(1)] good_size [OF assms(1)] assms(3)
    by (simp add: serializeToBuffer_def Let_def room sz)
qed

lemma checksum_whole:
  assumes "evb s buf = Some c" and "int (length c) \<le> sint len"
  shows "checksum E Z buf len s = Inr (adler_of Z c)"
proof -
  obtain vs where "\<forall>k. evbuffer_peek E buf (sint len) k s = (length vs, take k vs)" "concat vs = c"
    using peek_whole [OF assms] by blast
  then show ?thesis
    by (simp add: checksum_def adler_chunks adler_of_def)
qed

lemma fillEmptyBuffer_frame:
  assumes "good m" and "evb s buf = Some []"
    and f: "fits (codec_tag cd) (msg_SerializeWithCachedSizesToArray M m)"
  shows "\<exists>s'. fillEmptyBuffer E Z M cd buf m s = Inr (0, s') \<and>
     evb s' = (evb s)(buf \<mapsto> frame Z (codec_tag cd) (msg_SerializeWithCachedSizesToArray M m))"
proof -
  let ?t = "codec_tag cd" and ?p = "msg_SerializeWithCachedSizesToArray M m"
  have len: "length ?t + length ?p + checksumLen < 2 ^ 31"
    using f by (simp add: fits_def maxMessageLen_def)
  obtain s1 where 1: "evbuffer_add E buf ?t s = (0, s1)" "evb s1 = (evb s)(buf \<mapsto> [] @ ?t)"
    by (rule addE [OF assms(2)])
  obtain s2 where 2: "serializeToBuffer E M m buf s1 = Inr (of_nat (length ?p), s2)"
      "evb s2 = (evb s1)(buf \<mapsto> ?t @ ?p)"
    using serializeToBuffer_appends [OF assms(1), of s1 buf ?t] 1(2) len by auto
  have sz: "sint (of_nat (length ?p) + of_nat (length ?t) :: int32) = int (length (?t @ ?p))"
    using len sint_of_nat32 [of "length ?p + length ?t"] by simp
  have b2: "evb s2 buf = Some (?t @ ?p)"
    using 2(2) by simp
  then have ck: "checksum E Z buf (of_nat (length ?p) + of_nat (length ?t)) s2 = Inr (adler_of Z (?t @ ?p))"
    by (rule checksum_whole) (simp only: sz order_refl)
  obtain s3 where 3: "evbuffer_add E buf (be32 (adler_of Z (?t @ ?p))) s2 = (0, s3)"
      "evb s3 = (evb s2)(buf \<mapsto> (?t @ ?p) @ be32 (adler_of Z (?t @ ?p)))"
    by (rule addE [OF b2])
  then have b3: "evb s3 buf = Some (frame_body Z ?t ?p)"
    by (simp add: frame_body_def)
  let ?h = "be32 (of_nat (length ?t + length ?p + checksumLen))"
  obtain s4 where 4: "evbuffer_prepend E buf ?h s3 = (0, s4)"
      "evb s4 = (evb s3)(buf \<mapsto> ?h @ frame_body Z ?t ?p)"
    by (rule prependE [OF b3])
  have "evb s4 = (evb s)(buf \<mapsto> frame Z ?t ?p)"
    by (simp add: 4(2) 3(2) 2(2) 1(2) frame_def)
  then show ?thesis
    using 1(1) 2(1) ck 3(1) 4(1) by (simp add: fillEmptyBuffer_def add.assoc)
qed

lemma send_frame:
  assumes "good m" and "writes evb w conn b c"
    and "fits (codec_tag cd) (msg_SerializeWithCachedSizesToArray M m)"
  shows "\<exists>s. send E Z M cd conn m w = Inr (w\<lparr>ext := s\<rparr>) \<and>
     evb s = (evb (ext w))(b \<mapsto> c @ frame Z (codec_tag cd) (msg_SerializeWithCachedSizesToArray M m))"
proof -
  let ?f = "frame Z (codec_tag cd) (msg_SerializeWithCachedSizesToArray M m)"
  obtain p s1 where 1: "evbuffer_new E (ext w) = (p, s1)" "p \<noteq> NULL" "evb (ext w) p = None"
      "evb s1 = (evb (ext w))(p \<mapsto> [])"
    by (rule newE)
  have bc: "evb (ext w) b = Some c"
    using assms(2) by (simp add: writes_def)
  with 1(3) have ne: "b \<noteq> p"
    by auto
  obtain s2 where 2: "fillEmptyBuffer E Z M cd p m s1 = Inr (0, s2)" "evb s2 = (evb s1)(p \<mapsto> ?f)"
    using fillEmptyBuffer_frame [OF assms(1) _ assms(3), of s1 p] 1(4) by auto
  have b2: "evb s2 b = Some c" "evb s2 p = Some ?f"
    using 2(2) 1(4) ne bc by simp_all
  obtain s3 where 3: "evbuffer_add_buffer E b p s2 = (0, s3)" "evb s3 = (evb s2)(b \<mapsto> c @ ?f, p \<mapsto> [])"
    by (rule add_bufferE [OF b2 ne])
  have live: "live_writeBuf conn (w\<lparr>ext := s2\<rparr>) = Inr b"
    by (rule writes_live [OF writes_ext [OF assms(2) b2(1)]])
  have "evb (evbuffer_free E p s3) = (evb s3)(p := None)"
    using 3(2) by (intro free_law) simp
  also have "\<dots> = (evb (ext w))(b \<mapsto> c @ ?f)"
    using 1(3) ne by (auto simp: 3(2) 2(2) 1(4) fun_eq_iff)
  finally have "evb (evbuffer_free E p s3) = (evb (ext w))(b \<mapsto> c @ ?f)" .
  then show ?thesis
    using 1(1,2) 2(1) 3(1) live
    by (intro exI [where x = "evbuffer_free E p s3"]) (simp add: send_def addBufToWriteBuffer_def)
qed

end

subsection \<open>One turn of the receiving loop\<close>

text \<open>
  A reader of connection \<open>conn\<close> with read buffer \<open>b\<close>: \<open>abs w\<close> is what the user of the codec
  keeps, and \<open>inv\<close> holds between callbacks. Consuming bytes of \<open>b\<close> does not concern the user.
\<close>

locale codec_reader = codec_env E evb Z M good same
  for E :: "'s evbuffer_ops" and evb and Z and M :: "'m message_ops" and good and same +
  fixes cd :: "('m, ('s, 'z) net_scheme) ProtobufCodecLite"
    and conn :: ptr and b :: ptr
    and inv :: "('s, 'z) net_scheme \<Rightarrow> bool"
    and abs :: "('s, 'z) net_scheme \<Rightarrow> 'a"
  assumes cd_ok: "codec_ok cd"
    and consume_law: "inv w \<Longrightarrow> reads evb w conn b c \<Longrightarrow> evb s = (evb (ext w))(b \<mapsto> d) \<Longrightarrow>
        inv (w\<lparr>ext := s\<rparr>) \<and> abs (w\<lparr>ext := s\<rparr>) = abs w"
begin

definition at_client :: "('s, 'z) net_scheme \<Rightarrow> 'a \<Rightarrow> bytes \<Rightarrow> bool" where
  "at_client w a c \<longleftrightarrow> inv w \<and> abs w = a \<and> reads evb w conn b c"

lemma at_client_reads: "at_client w a c \<Longrightarrow> reads evb w conn b c"
  by (simp add: at_client_def)

lemma at_client_evb: "at_client w a c \<Longrightarrow> evb (ext w) b = Some c"
  by (simp add: at_client_def reads_def)

lemma at_client_consume:
  "at_client w a c \<Longrightarrow> evb s = (evb (ext w))(b \<mapsto> d) \<Longrightarrow> at_client (w\<lparr>ext := s\<rparr>) a d"
  using consume_law [of w c s d] reads_ext [of evb w conn b c s d] by (auto simp: at_client_def)

lemma at_client_pullup:
  "at_client w a c \<Longrightarrow> evb s = evb (ext w) \<Longrightarrow> at_client (w\<lparr>ext := s\<rparr>) a c"
  by (rule at_client_consume, assumption) (auto simp: at_client_evb fun_eq_iff)

lemma drain_message_at:
  assumes "at_client w a c" and "unat len < 2 ^ 31"
  shows "\<exists>w'. drain_message E conn len w = Inr w' \<and> at_client w' a (drop (unat len) c)"
proof -
  have n: "unat (scast len :: uint64) = unat len"
    using assms(2) by (simp add: unat_scast_small)
  obtain s where s: "evbuffer_drain E b (unat len) (ext w) = (0, s)" "evb s = (evb (ext w))(b \<mapsto> drop (unat len) c)"
    by (rule drainE [OF at_client_evb [OF assms(1)]])
  then show ?thesis
    using at_client_consume [OF assms(1)]
    by (auto simp: drain_message_def reads_live [OF at_client_reads [OF assms(1)]] n)
qed

lemma read_header_at:
  assumes "at_client w a c" and "4 \<le> length c"
  shows "\<exists>w'. read_header E conn w = Inr (be32_val (take 4 c), w') \<and> at_client w' a (drop 4 c)"
proof -
  obtain s where "readBuffer E conn 4 w = Inr (int (min 4 (length c)), take 4 c, w\<lparr>ext := s\<rparr>)"
      and s: "evb s = (evb (ext w))(b \<mapsto> drop 4 c)"
    by (rule readBuffer_reads [OF at_client_reads [OF assms(1)], of 4 4]) simp_all
  then show ?thesis
    using at_client_consume [OF assms(1) s] assms(2) by (simp add: read_header_def asInt32_4)
qed

lemma parse_at:
  assumes at: "at_client w a c" and n: "unat len \<le> length c" "unat len < 2 ^ 31"
    and min: "length (codec_tag cd) + checksumLen \<le> unat len"
  shows "\<exists>w'. at_client w' a c \<and>
    parse E Z M cd conn len (msg_New M) w =
      Some (Inr (case decode_body Z M (codec_tag cd) (take (unat len) c) of
                   Inl e \<Rightarrow> (e, msg_New M, w') | Inr m \<Rightarrow> (noError, m, w')))"
proof -
  let ?n = "unat len" and ?t = "codec_tag cd"
  have sl: "sint len = int ?n"
    using n(2) by (simp add: sint_unat_small)
  obtain d s where d: "evbuffer_pullup E b ?n (ext w) = (Some d, s)" "?n \<le> length d"
      "take ?n d = take ?n c" "evb s = evb (ext w)"
    by (rule pullupE [OF at_client_evb [OF at] n(1)])
  define x where "x = take ?n c"
  have lx: "length x = ?n" and dx: "take ?n d = x"
    using n(1) d(3) by (simp_all add: x_def)
  have sub: "take k d = take k x" if "k \<le> ?n" for k
    using that dx by (metis min.absorb1 take_take)
  have mid: "take (?n - checksumLen - length ?t) (drop (length ?t) d)
           = take (?n - checksumLen - length ?t) (drop (length ?t) x)"
    using sub [of "?n - checksumLen"] by (metis diff_le_self drop_take)
  have ck: "take 4 (drop (?n - checksumLen) d) = drop (?n - checksumLen) x"
    using dx min by (metis add_leD2 checksumLen_def diff_diff_cancel drop_take)
  have lck: "length (drop (?n - checksumLen) x) = 4"
    using lx min by (simp add: checksumLen_def)
  have as32: "asInt32 (drop (?n - checksumLen) d) = Inr (be32_val (drop (?n - checksumLen) x))"
    using asInt32_eq [OF lck, of "drop 4 (drop (?n - checksumLen) d)"] by (simp flip: ck del: drop_drop)
  obtain ok where ok: "msg_ParseFromArray M (take (?n - checksumLen - length ?t) (drop (length ?t) x)) (msg_New M)
      = Some (Inr (ok, parsed_message M (take (?n - checksumLen - length ?t) (drop (length ?t) x))))"
    using parse_eq by blast
  have v: "validateChecksum Z d (int ?n) =
      Inr (adler_of Z (take (?n - checksumLen) x) = be32_val (drop (?n - checksumLen) x))"
    using min d(2) as32 sub [of "?n - checksumLen"]
    by (simp add: validateChecksum_def adler_of_def adler_init Let_def del: of_nat_unat)
  have lt: "\<not> length d < length ?t" "\<not> int ?n - int checksumLen - int (length ?t) < 0"
      "nat (int ?n - int checksumLen - int (length ?t)) = ?n - checksumLen - length ?t"
    using min d(2) by (auto simp del: of_nat_unat)
  have tg: "take (length ?t) d = take (length ?t) x"
    using sub [of "length ?t"] min by simp
  have "parse E Z M cd conn len (msg_New M) w =
      Some (Inr (case decode_body Z M ?t x of
                   Inl e \<Rightarrow> (e, msg_New M, w\<lparr>ext := s\<rparr>) | Inr m \<Rightarrow> (noError, m, w\<lparr>ext := s\<rparr>)))"
    by (cases "adler_of Z (take (?n - checksumLen) x) = be32_val (drop (?n - checksumLen) x)";
        cases "take (length ?t) x = ?t")
      (simp_all only: parse_def reads_live [OF at_client_reads [OF at]] sl d(1) v decode_body_def lx
        lt mid ok tg parseFromBuffer_def Let_def if_True if_False sum.case prod.case option.case bool.case of_nat_less_0_iff
        simp_thms)
  with at_client_pullup [OF at d(4)] show ?thesis
    unfolding x_def by blast
qed

lemma rawCb_None: "rawCb cd = None"
  using cd_ok by (simp add: codec_ok_def)

definition call_and_drain :: "int32 \<Rightarrow> 'm \<Rightarrow> ('s, 'z) net_scheme \<Rightarrow> ('s, 'z) net_scheme turn option" where
  "call_and_drain len m w =
     (case bind_res (messageCallback cd conn m w) (drain_message E conn len) of
        Inl e \<Rightarrow> Some (Leave (Inl e))
      | Inr w \<Rightarrow> Some (Continue w))"

definition leave_with :: "ErrorCode option \<Rightarrow> ('s, 'z) net_scheme \<Rightarrow> ('s, 'z) net_scheme res" where
  "leave_with err w = (case err of None \<Rightarrow> Inr w | Some e \<Rightarrow> codec_errorCallback cd conn e w)"

lemma deliver_decodes:
  assumes "at_client w a c" "unat len \<le> length c" "unat len < 2 ^ 31"
    "length (codec_tag cd) + checksumLen \<le> unat len"
  shows "\<exists>w'. at_client w' a c \<and> deliver E Z M cd conn len w =
    (case decode_body Z M (codec_tag cd) (take (unat len) c) of
       Inl e \<Rightarrow> Some (Leave (codec_errorCallback cd conn e w'))
     | Inr m \<Rightarrow> call_and_drain len m w')"
  using parse_at [OF assms]
  by (auto simp: deliver_def rawCb_None decode_body_def call_and_drain_def Let_def split: if_splits sum.splits)

text \<open>One turn, by what the buffer holds.\<close>

abbreviation (input) bad_length :: "int32 \<Rightarrow> bool" where
  "bad_length len \<equiv> maxMessageLen < sint len \<or> len < of_nat (length (codec_tag cd) + checksumLen)"

lemma min_len_facts:
  "minMessageLen cd = of_nat (length (codec_tag cd) + checksumLen)"
  "unat (minMessageLen cd) = length (codec_tag cd) + checksumLen"
  "unat (minMessageLen cd + of_nat headerLen) = length (codec_tag cd) + checksumLen + headerLen"
proof -
  have t: "length (codec_tag cd) < 2 ^ 16" and m: "minMessageLen cd = of_nat (length (codec_tag cd) + checksumLen)"
    using cd_ok by (auto simp: codec_ok_def)
  show "minMessageLen cd = of_nat (length (codec_tag cd) + checksumLen)"
    by (rule m)
  show "unat (minMessageLen cd) = length (codec_tag cd) + checksumLen"
    unfolding m using t by (intro unat_of_nat32) (simp add: checksumLen_def)
  have "minMessageLen cd + of_nat headerLen = of_nat (length (codec_tag cd) + checksumLen + headerLen)"
    using m by simp
  then show "unat (minMessageLen cd + of_nat headerLen) = length (codec_tag cd) + checksumLen + headerLen"
    using t unat_of_nat32 [of "length (codec_tag cd) + checksumLen + headerLen"]
    by (simp add: checksumLen_def headerLen_def)
qed

lemma turn_short:
  assumes "at_client w a c" and "length c < length (codec_tag cd) + checksumLen + headerLen"
    and "length c < 2 ^ 31"
  shows "onMessage_turn E Z M cd conn w = Some (Leave (Inr w))"
proof -
  have "\<not> minMessageLen cd + of_nat headerLen \<le> of_nat (length c)"
    using assms(2,3) by (simp add: word_le_nat_alt min_len_facts(3) unat_of_nat32)
  then show ?thesis
    by (simp add: onMessage_turn_def getReadBufferLen_reads [OF at_client_reads [OF assms(1)]])
qed

lemma turn_long:
  assumes at: "at_client w a c" and l: "length (codec_tag cd) + checksumLen + headerLen \<le> length c"
    and c: "length c < 2 ^ 31"
  shows "\<exists>w'. at_client w' a (drop 4 c) \<and> onMessage_turn E Z M cd conn w =
    (let len = be32_val (take 4 c) in
     if bad_length len then Some (Leave (codec_errorCallback cd conn invalidLength w'))
     else if length c - 4 < unat len then Some (Leave (Inr w'))
     else deliver E Z M cd conn len w')"
proof -
  have g: "minMessageLen cd + of_nat headerLen \<le> of_nat (length c)"
    using l c by (simp add: word_le_nat_alt min_len_facts(3) unat_of_nat32)
  obtain w' where w': "read_header E conn w = Inr (be32_val (take 4 c), w')" "at_client w' a (drop 4 c)"
    using read_header_at [OF at] l by (auto simp: headerLen_def)
  have "len \<le> of_nat (length (drop 4 c)) \<longleftrightarrow> \<not> length c - 4 < unat len" for len :: uint32
    using c by (simp add: word_le_nat_alt unat_of_nat32 not_less del: of_nat_diff)
  then have "onMessage_turn E Z M cd conn w =
    (let len = be32_val (take 4 c) in
     if bad_length len then Some (Leave (codec_errorCallback cd conn invalidLength w'))
     else if length c - 4 < unat len then Some (Leave (Inr w'))
     else deliver E Z M cd conn len w')"
    using g w'(1)
    by (simp add: onMessage_turn_def getReadBufferLen_reads [OF at_client_reads [OF at]]
        getReadBufferLen_reads [OF at_client_reads [OF w'(2)]] min_len_facts(1) Let_def del: length_drop)
  with w'(2) show ?thesis by blast
qed

text \<open>
  A turn does one step of the abstract decoder: it leaves with the decoder's error and
  remainder, or calls the callback with the decoder's next message.
\<close>

lemma turn_decodes:
  assumes at: "at_client w a c" and c: "length c < 2 ^ 31"
  shows "(\<exists>err left w1. decode_stream Z M (codec_tag cd) c = ([], err, left) \<and> at_client w1 a left \<and>
            onMessage_turn E Z M cd conn w = Some (Leave (leave_with err w1))) \<or>
         (\<exists>m len w1. at_client w1 a (drop 4 c) \<and> len = be32_val (take 4 c) \<and> unat len < 2 ^ 31 \<and>
            length (drop (unat len) (drop 4 c)) < length c \<and>
            decode_stream Z M (codec_tag cd) c =
              (let (ms, e, left) = decode_stream Z M (codec_tag cd) (drop (unat len) (drop 4 c)) in (m # ms, e, left)) \<and>
            onMessage_turn E Z M cd conn w = call_and_drain len m w1)"
proof (cases "length c < length (codec_tag cd) + checksumLen + headerLen")
  case True
  then show ?thesis
    using turn_short [OF at True c] at by (subst decode_stream.simps) (auto simp: leave_with_def)
next
  case long: False
  let ?t = "codec_tag cd" and ?len = "be32_val (take 4 c)" and ?rest = "drop 4 c"
  obtain w1 where w1: "at_client w1 a ?rest" and turn: "onMessage_turn E Z M cd conn w =
      (if bad_length ?len then Some (Leave (codec_errorCallback cd conn invalidLength w1))
       else if length c - 4 < unat ?len then Some (Leave (Inr w1))
       else deliver E Z M cd conn ?len w1)"
    using turn_long [OF at _ c] long by (auto simp: Let_def)
  show ?thesis
  proof (cases "bad_length ?len \<or> length c - 4 < unat ?len")
    case True
    then show ?thesis
      using w1 turn long by (subst decode_stream.simps) (auto simp: leave_with_def Let_def)
  next
    case False
    then have len: "unat ?len \<le> length ?rest" "unat ?len < 2 ^ 31" "length ?t + checksumLen \<le> unat ?len"
      using c min_len_facts by (auto simp: word_less_nat_alt not_less)
    have dec: "decode_stream Z M ?t c =
        (case decode_body Z M ?t (take (unat ?len) ?rest) of
           Inl e \<Rightarrow> ([], Some e, ?rest)
         | Inr m \<Rightarrow> let (ms, e, left) = decode_stream Z M ?t (drop (unat ?len) ?rest) in (m # ms, e, left))"
      using long False by (subst decode_stream.simps) (auto simp: Let_def)
    have shorter: "length (drop (unat ?len) ?rest) < length c"
      using long by (simp add: headerLen_def)
    obtain w2 where w2: "at_client w2 a ?rest" "deliver E Z M cd conn ?len w1 =
        (case decode_body Z M ?t (take (unat ?len) ?rest) of
           Inl e \<Rightarrow> Some (Leave (codec_errorCallback cd conn e w2))
         | Inr m \<Rightarrow> call_and_drain ?len m w2)"
      using deliver_decodes [OF w1 len] by blast
    have turn': "onMessage_turn E Z M cd conn w = deliver E Z M cd conn ?len w1"
      using turn False by simp
    show ?thesis
    proof (cases "decode_body Z M ?t (take (unat ?len) ?rest)")
      case (Inl e)
      then show ?thesis
        using w2 turn' dec by (intro disjI1) (fastforce simp: leave_with_def)
    next
      case (Inr m)
      then show ?thesis
        using w2 turn' dec len(2) shorter by (intro disjI2 exI [where x = m] exI [where x = ?len] exI [where x = w2]) simp
    qed
  qed
qed

end

subsection \<open>The receiving loop implements the abstract decoder\<close>

primrec run_msgs :: "('m \<Rightarrow> 'a \<Rightarrow> 'a res) \<Rightarrow> 'm list \<Rightarrow> 'a \<Rightarrow> 'a res" where
  "run_msgs step [] a = Inr a"
| "run_msgs step (m # ms) a = bind_res (step m a) (run_msgs step ms)"

lemma run_msgs_append: "run_msgs step (xs @ ys) a = bind_res (run_msgs step xs a) (run_msgs step ys)"
  by (induction xs arbitrary: a) (simp_all add: bind_res_def split: sum.splits)

text \<open>
  A client of the codec adds what its message callback does to the abstract state, \<open>step m\<close>,
  or the fault it ends in; the callback leaves the unread bytes alone.
\<close>

locale codec_client = codec_reader E evb Z M good same cd conn b inv abs
  for E :: "'s evbuffer_ops" and evb and Z and M :: "'m message_ops" and good and same
    and cd :: "('m, ('s, 'z) net_scheme) ProtobufCodecLite"
    and conn and b and inv and abs :: "('s, 'z) net_scheme \<Rightarrow> 'a" +
  fixes step :: "'m \<Rightarrow> 'a \<Rightarrow> 'a res"
  assumes callback_fault: "inv w \<Longrightarrow> reads evb w conn b c \<Longrightarrow> step m (abs w) = Inl f \<Longrightarrow>
        messageCallback cd conn m w = Inl f"
    and callback_ok: "inv w \<Longrightarrow> reads evb w conn b c \<Longrightarrow> step m (abs w) = Inr a \<Longrightarrow>
        \<exists>w'. messageCallback cd conn m w = Inr w' \<and> inv w' \<and> abs w' = a \<and> reads evb w' conn b c"
begin

lemma call_fault: "at_client w a c \<Longrightarrow> step m a = Inl f \<Longrightarrow> call_and_drain len m w = Some (Leave (Inl f))"
  using callback_fault [of w c m f] by (simp add: call_and_drain_def at_client_def)

lemma call_ok:
  assumes "at_client w a c" and "step m a = Inr a'" and "unat len < 2 ^ 31"
  shows "\<exists>w'. call_and_drain len m w = Some (Continue w') \<and> at_client w' a' (drop (unat len) c)"
proof -
  obtain w2 where w2: "messageCallback cd conn m w = Inr w2" "at_client w2 a' c"
    using callback_ok [of w c m a'] assms(1,2) by (auto simp: at_client_def)
  then show ?thesis
    using drain_message_at [OF w2(2) assms(3)] by (auto simp: call_and_drain_def)
qed

text \<open>What the whole run of the loop comes to.\<close>

definition loop_result :: "'m list \<times> ErrorCode option \<times> bytes \<Rightarrow> 'a \<Rightarrow> ('s, 'z) net_scheme res option \<Rightarrow> bool" where
  "loop_result out a r \<longleftrightarrow>
     (case out of (ms, err, left) \<Rightarrow>
       case run_msgs step ms a of
         Inl f \<Rightarrow> r = Some (Inl f)
       | Inr a' \<Rightarrow> (\<exists>w'. at_client w' a' left \<and> r = Some (leave_with err w')))"

theorem onMessage_decodes:
  assumes "at_client w a c" and "length c < 2 ^ 31"
  shows "loop_result (decode_stream Z M (codec_tag cd) c) a (onMessage E Z M cd conn w)"
  using assms
proof (induction "length c" arbitrary: w a c rule: less_induct)
  case less
  let ?t = "codec_tag cd"
  from turn_decodes [OF less.prems] show ?case
  proof (elim disjE exE conjE)
    fix err left w1
    assume "decode_stream Z M ?t c = ([], err, left)" "at_client w1 a left"
      "onMessage_turn E Z M cd conn w = Some (Leave (leave_with err w1))"
    then show ?thesis
      by (subst onMessage.simps) (auto simp: loop_result_def)
  next
    fix m len w1
    assume w1: "at_client w1 a (drop 4 c)" and len: "unat len < 2 ^ 31"
      and shorter: "length (drop (unat len) (drop 4 c)) < length c"
      and dec: "decode_stream Z M ?t c =
        (let (ms, e, left) = decode_stream Z M ?t (drop (unat len) (drop 4 c)) in (m # ms, e, left))"
      and turn: "onMessage_turn E Z M cd conn w = call_and_drain len m w1"
    show ?thesis
    proof (cases "step m a")
      case (Inl f)
      with call_fault [OF w1 Inl] turn show ?thesis
        by (subst onMessage.simps) (auto simp: dec loop_result_def split: prod.split)
    next
      case (Inr a')
      then obtain w2 where w2: "at_client w2 a' (drop (unat len) (drop 4 c))" "call_and_drain len m w1 = Some (Continue w2)"
        using call_ok [OF w1 _ len] by blast
      from less.hyps [OF shorter w2(1)] less.prems(2) shorter
      have "loop_result (decode_stream Z M ?t (drop (unat len) (drop 4 c))) a' (onMessage E Z M cd conn w2)"
        by simp
      then show ?thesis
        using w2(2) turn Inr by (subst onMessage.simps) (auto simp: dec loop_result_def split: prod.splits)
    qed
  qed
qed

end

subsection \<open>The abstract decoder on frames\<close>

lemma length_bound_fits:
  assumes "fits tag p"
  shows "unat (of_nat (length tag + length p + checksumLen) :: uint32) = length tag + length p + checksumLen"
    and "sint (of_nat (length tag + length p + checksumLen) :: uint32) = int (length tag + length p + checksumLen)"
  using assms unat_of_nat32 [of "length tag + length p + checksumLen"] sint_of_nat32 [of "length tag + length p + checksumLen"]
  by (simp_all add: fits_def maxMessageLen_def)

lemma decode_body_frame: "decode_body Z M tag (frame_body Z tag p) = Inr (parsed_message M p)"
  by (simp add: decode_body_def frame_body_def checksumLen_def Let_def)

lemma fits_not_bad:
  assumes "fits tag p"
  shows "\<not> (maxMessageLen < sint (of_nat (length tag + length p + checksumLen) :: uint32) \<or>
     (of_nat (length tag + length p + checksumLen) :: uint32) < of_nat (length tag + checksumLen))"
proof -
  have "length tag + checksumLen < 2 ^ 32"
    using assms by (simp add: fits_def maxMessageLen_def)
  then have "unat (of_nat (length tag + checksumLen) :: uint32) = length tag + checksumLen"
    by (rule unat_of_nat32)
  then show ?thesis
    using assms length_bound_fits [OF assms] by (simp only: word_less_nat_alt) (simp add: fits_def)
qed

lemma decode_stream_header:
  assumes "length tag + checksumLen \<le> length rest"
  shows "decode_stream Z M tag (be32 len @ rest) =
    (if maxMessageLen < sint len \<or> len < of_nat (length tag + checksumLen) then ([], Some invalidLength, rest)
     else if length rest < unat len then ([], None, rest)
     else case decode_body Z M tag (take (unat len) rest) of
          Inl e \<Rightarrow> ([], Some e, rest)
        | Inr m \<Rightarrow> let (ms, e, left) = decode_stream Z M tag (drop (unat len) rest) in (m # ms, e, left))"
proof -
  have "\<not> length (be32 len @ rest) < length tag + checksumLen + headerLen"
    using assms by (simp add: headerLen_def)
  then show ?thesis
    by (subst decode_stream.simps) (simp add: Let_def)
qed

lemma decode_stream_frame:
  assumes "fits tag p"
  shows "decode_stream Z M tag (frame Z tag p @ rest) =
    (let (ms, e, left) = decode_stream Z M tag rest in (parsed_message M p # ms, e, left))"
proof -
  have "decode_stream Z M tag (be32 (of_nat (length tag + length p + checksumLen)) @ (frame_body Z tag p @ rest)) =
    (let (ms, e, left) = decode_stream Z M tag rest in (parsed_message M p # ms, e, left))"
    using fits_not_bad [OF assms]
    by (subst decode_stream_header) (simp_all add: length_bound_fits(1) [OF assms] decode_body_frame del: of_nat_add)
  then show ?thesis
    by (simp add: frame_def)
qed

lemma decode_stream_frames:
  assumes "\<forall>p \<in> set ps. fits tag p"
  shows "decode_stream Z M tag (concat (map (frame Z tag) ps) @ rest) =
    (let (ms, e, left) = decode_stream Z M tag rest in (map (parsed_message M) ps @ ms, e, left))"
  using assms
proof (induction ps)
  case (Cons p ps)
  then show ?case
    using decode_stream_frame [of tag p Z M "concat (map (frame Z tag) ps) @ rest"]
    by (simp add: Let_def split: prod.splits)
qed simp

lemma decode_stream_Nil [simp]: "decode_stream Z M tag [] = ([], None, [])"
  by (subst decode_stream.simps) (simp add: headerLen_def)

lemma decode_stream_cut:
  assumes "fits tag p" and "length tag + checksumLen + headerLen \<le> k" and "k < length (frame Z tag p)"
  shows "decode_stream Z M tag (take k (frame Z tag p)) = ([], None, take (k - 4) (frame_body Z tag p))"
proof -
  let ?n = "length tag + length p + checksumLen"
  have "take k (frame Z tag p) = be32 (of_nat ?n) @ take (k - 4) (frame_body Z tag p)"
    using assms(2) by (simp add: frame_def headerLen_def)
  moreover have "length (take (k - 4) (frame_body Z tag p)) < ?n"
    using assms(2,3) by (simp add: headerLen_def)
  moreover have "length tag + checksumLen \<le> length (take (k - 4) (frame_body Z tag p))"
    using assms(2,3) by (simp add: headerLen_def)
  note decode_stream_header [OF this, of Z M "of_nat ?n"]
  ultimately show ?thesis
    using fits_not_bad [OF assms(1)]
    by (simp only: length_bound_fits(1) [OF assms(1)] if_False if_True)
qed

lemma decode_stream_errors:
  "fst (snd (decode_stream Z M tag bs)) \<in> {None, Some invalidLength, Some unknownMessageType, Some parseError}"
proof (induction Z M tag bs rule: decode_stream.induct)
  case (1 Z M tag bs)
  then show ?case
    by (subst decode_stream.simps)
      (auto simp: Let_def decode_body_def split: prod.splits sum.splits if_splits)
qed

text \<open>A single frame: the callback is called once, on the parsed message, with the body still unread.\<close>

context codec_reader
begin

lemma onMessage_empty: "at_client w a [] \<Longrightarrow> onMessage E Z M cd conn w = Some (Inr w)"
  using turn_short [of w a "[]"] by (subst onMessage.simps) (simp add: headerLen_def)

lemma onMessage_frame:
  assumes "at_client w a (frame Z (codec_tag cd) p)" and "fits (codec_tag cd) p"
  obtains w1 where "at_client w1 a (frame_body Z (codec_tag cd) p)"
    and "\<And>f. messageCallback cd conn (parsed_message M p) w1 = Inl f \<Longrightarrow> onMessage E Z M cd conn w = Some (Inl f)"
    and "\<And>w2 a'. messageCallback cd conn (parsed_message M p) w1 = Inr w2 \<Longrightarrow>
        at_client w2 a' (frame_body Z (codec_tag cd) p) \<Longrightarrow>
        \<exists>w3. onMessage E Z M cd conn w = Some (Inr w3) \<and> at_client w3 a' [] \<and> w3 = w2\<lparr>ext := ext w3\<rparr>"
proof -
  let ?t = "codec_tag cd" and ?c = "frame Z (codec_tag cd) p"
  let ?len = "of_nat (length ?t + length p + checksumLen) :: uint32"
  have l: "length ?c < 2 ^ 31"
    using assms(2) by (simp add: fits_def maxMessageLen_def headerLen_def)
  have hd: "take 4 ?c = be32 ?len" "drop 4 ?c = frame_body Z ?t p"
    using take_drop_frame [of Z ?t p "[]"] by simp_all
  have n: "unat ?len = length ?t + length p + checksumLen"
    by (rule length_bound_fits(1) [OF assms(2)])
  have d: "decode_stream Z M ?t ?c = ([parsed_message M p], None, [])"
    using decode_stream_frame [OF assms(2), of Z M "[]"] by simp
  obtain w1 where w1: "at_client w1 a (frame_body Z ?t p)"
      and turn: "onMessage_turn E Z M cd conn w = call_and_drain ?len (parsed_message M p) w1"
    using turn_decodes [OF assms(1) l] unfolding hd d be32_val_be32
    by (auto simp: Let_def split_beta simp del: of_nat_add)
  show ?thesis
  proof (rule that [OF w1])
    fix f assume "messageCallback cd conn (parsed_message M p) w1 = Inl f"
    then show "onMessage E Z M cd conn w = Some (Inl f)"
      by (subst onMessage.simps) (simp add: turn call_and_drain_def)
  next
    fix w2 a' assume cb: "messageCallback cd conn (parsed_message M p) w1 = Inr w2"
      and w2: "at_client w2 a' (frame_body Z ?t p)"
    obtain w3 where w3: "drain_message E conn ?len w2 = Inr w3" "at_client w3 a' []"
      using drain_message_at [OF w2, of ?len] l n by auto
    moreover have "w3 = w2\<lparr>ext := ext w3\<rparr>"
      using w3(1) by (auto simp: drain_message_def bind_res_def split: sum.splits prod.splits)
    ultimately show "\<exists>w3. onMessage E Z M cd conn w = Some (Inr w3) \<and> at_client w3 a' [] \<and> w3 = w2\<lparr>ext := ext w3\<rparr>"
      using cb onMessage_empty [OF w3(2)] by (subst onMessage.simps) (auto simp: turn call_and_drain_def)
  qed
qed

end

subsection \<open>Observing a codec\<close>

record ('s, 'm) obs_net = "'s net" +
  obs_msgs :: "'m list"
  obs_errs :: "ErrorCode list"

definition observer :: "bytes \<Rightarrow> ('m, ('s, 'm) obs_net) ProtobufCodecLite" where
  "observer tag = ProtobufCodecLite_init tag
     (\<lambda>conn m w. Inr (w\<lparr>obs_msgs := obs_msgs w @ [m]\<rparr>)) None
     (\<lambda>conn e w. Inr (w\<lparr>obs_errs := obs_errs w @ [e]\<rparr>))"

definition obs_step :: "'m \<Rightarrow> 'm list \<times> ErrorCode list \<Rightarrow> ('m list \<times> ErrorCode list) res" where
  "obs_step m a = (case a of (ms, es) \<Rightarrow> Inr (ms @ [m], es))"

lemma run_obs_step: "run_msgs obs_step ms (a, es) = Inr (a @ ms, es)"
  by (induction ms arbitrary: a) (simp_all add: obs_step_def)

lemma observer_client:
  assumes "codec_env E evb Z M good same" and "length tag < 2 ^ 16"
  shows "codec_client E evb Z M good same (observer tag) conn b
     (\<lambda>_. True) (\<lambda>w. (obs_msgs w, obs_errs w)) obs_step"
proof (intro codec_client.intro codec_reader.intro codec_reader_axioms.intro codec_client_axioms.intro)
  show "codec_ok (observer tag :: (_, ('s, _) obs_net) ProtobufCodecLite)"
    unfolding observer_def using assms(2) by (rule codec_ok_init)
qed (auto simp: assms(1) obs_step_def observer_def ProtobufCodecLite_init_def reads_def Let_def)


lemma codec_tag_observer: "0 \<notin> set tag \<Longrightarrow> codec_tag (observer tag) = tag"
  by (simp add: observer_def ProtobufCodecLite_init_def Let_def takeWhile_eq_all_conv)
    (metis)

lemma observer_error:
  "codec_errorCallback (observer tag) conn e w = Inr (w\<lparr>obs_errs := obs_errs w @ [e]\<rparr>)"
  by (simp add: observer_def ProtobufCodecLite_init_def Let_def)

lemma observer_decodes:
  assumes "codec_env E evb Z M good same"
    and "reads evb w conn b c" and "length c < 2 ^ 31" and "length tag < 2 ^ 16" and "0 \<notin> set tag"
  obtains w' where "onMessage E Z M (observer tag) conn w = Some (Inr w')"
    and "obs_msgs w' = obs_msgs w @ fst (decode_stream Z M tag c)"
    and "obs_errs w' = obs_errs w @ (case fst (snd (decode_stream Z M tag c)) of None \<Rightarrow> [] | Some e \<Rightarrow> [e])"
    and "reads evb w' conn b (snd (snd (decode_stream Z M tag c)))"
proof -
  obtain ms err left where d: "decode_stream Z M tag c = (ms, err, left)"
    by (metis prod_cases3)
  note cl = observer_client [OF assms(1,4), of conn b]
  note rd = codec_client.axioms(1) [OF cl]
  have "codec_reader.at_client evb conn b (\<lambda>_. True) (\<lambda>w. (obs_msgs w, obs_errs w)) w
      (obs_msgs w, obs_errs w) c"
    using assms(2) by (simp add: codec_reader.at_client_def [OF rd] codec_reader.leave_with_def [OF rd])
  from codec_client.onMessage_decodes [OF cl this assms(3)]
  obtain w1 where w1: "reads evb w1 conn b left" "obs_msgs w1 = obs_msgs w @ ms" "obs_errs w1 = obs_errs w"
      "onMessage E Z M (observer tag) conn w =
         Some (case err of None \<Rightarrow> Inr w1 | Some e \<Rightarrow> codec_errorCallback (observer tag) conn e w1)"
    by (auto simp: codec_client.loop_result_def [OF cl] codec_tag_observer [OF assms(5)] d run_obs_step
        codec_reader.at_client_def [OF rd] codec_reader.leave_with_def [OF rd])
  show ?thesis
    by (rule that [of "case err of None \<Rightarrow> w1 | Some e \<Rightarrow> w1\<lparr>obs_errs := obs_errs w1 @ [e]\<rparr>"])
      (use w1 in \<open>auto simp: d observer_error reads_def split: option.split\<close>)
qed

subsection \<open>Closing a connection\<close>

lemma defaultErrorCallback_eq:
  assumes "conn \<noteq> NULL" and "cells (store w) conn = Some k"
    and "conn_bev k \<noteq> NULL" and "conn_bev k \<in> live_bevs w"
  shows "defaultErrorCallback conn e w =
      thread_deleteConn (conn_thread k) conn (w\<lparr>live_bevs := live_bevs w - {conn_bev k}\<rparr>)"
  using assms by (simp add: defaultErrorCallback_def getBufferevent_def free_bev_def getThread_def)

lemma thread_deleteConn_rep:
  assumes "t \<noteq> NULL" and "lthreads w t = Some th"
    and "queue_rep (connect_queue th) (store w) xs" and "conn \<in> set xs"
  obtains q st where
    "thread_deleteConn t conn w = Inr (w\<lparr>store := st, lthreads := (lthreads w)(t \<mapsto> th\<lparr>connect_queue := q\<rparr>)\<rparr>)"
    and "queue_rep q st (remove1 conn xs)" and "cells st conn = None"
    and "\<forall>p. p \<notin> set (nodes (connect_queue th) xs) \<longrightarrow> cells st p = cells (store w) p"
  using deleteConn_rep [OF assms(3,4)] assms(1,2) that by (auto simp: thread_deleteConn_def)

end
