(* ===== verification/Rpc_Code.thy ===== *)
theory Rpc_Code
  imports Codec Rpc_Message
begin

text \<open>
  \<open>src/rpcCode.h\<close>, \<open>src/rpcCode.cpp\<close> and the template \<open>ProtobufCodecLiteDerived\<close> of
  \<open>src/codeClite.h\<close>: the codec for \<open>RpcMessage\<close> with the tag \<open>mRpc\<close>. The locale
  \<open>rpc_runtime\<close> says how the virtual methods of \<open>Message\<close> reach the generated class; it gives
  the codec its message interface. The theory also holds the properties of the codec, with the
  RPC codec over the chunked buffers and the Adler-32 of RFC 1950 as the concrete case.
\<close>

subsection \<open>Adler-32\<close>

definition adler_step :: "nat \<times> nat \<Rightarrow> byte \<Rightarrow> nat \<times> nat" where
  "adler_step ab x = (let a = (fst ab + unat x) mod 65521 in (a, (snd ab + a) mod 65521))"

definition adler_unpack :: "uint64 \<Rightarrow> nat \<times> nat" where
  "adler_unpack v = (unat v mod 65536, unat v div 65536 mod 65536)"

definition adler_pack :: "nat \<times> nat \<Rightarrow> uint64" where
  "adler_pack ab = of_nat (snd ab * 65536 + fst ab)"

definition ref_adler32 :: adler32_fun where
  "ref_adler32 v buf =
     (case buf of None \<Rightarrow> 1 | Some bs \<Rightarrow> adler_pack (foldl adler_step (adler_unpack v) bs))"

lemma adler_unpack_pack:
  assumes "fst ab < 65536" and "snd ab < 65536"
  shows "adler_unpack (adler_pack ab) = ab"
proof -
  have "snd ab * 65536 + fst ab < 2 ^ 64"
    using assms by simp
  then have "unat (of_nat (snd ab * 65536 + fst ab) :: uint64) = snd ab * 65536 + fst ab"
    by (rule unat_of_nat64)
  then show ?thesis
    using assms by (simp add: adler_unpack_def adler_pack_def prod_eq_iff)
qed

lemma adler_fold_small:
  assumes "fst ab < 65536" and "snd ab < 65536"
  shows "fst (foldl adler_step ab bs) < 65536 \<and> snd (foldl adler_step ab bs) < 65536"
  using assms
proof (induction bs arbitrary: ab)
  case (Cons x bs)
  have "fst (adler_step ab x) < 65536" "snd (adler_step ab x) < 65536"
    by (simp_all add: adler_step_def Let_def less_trans [OF mod_less_divisor])
  from Cons.IH [OF this] show ?case by simp
qed simp

interpretation rfc1950: zlib_lib ref_adler32
proof
  fix a :: uint64 and xs ys :: bytes
  show "ref_adler32 a None = 1"
    by (simp add: ref_adler32_def)
  show "ref_adler32 1 (Some []) = 1"
    by (simp add: ref_adler32_def adler_pack_def adler_unpack_def)
  have "fst (adler_unpack a) < 65536 \<and> snd (adler_unpack a) < 65536"
    by (simp add: adler_unpack_def)
  then show "ref_adler32 (ref_adler32 a (Some xs)) (Some ys) = ref_adler32 a (Some (xs @ ys))"
    using adler_fold_small [of "adler_unpack a" xs] by (simp add: ref_adler32_def adler_unpack_pack)
qed

subsection \<open>\<open>RpcMessage\<close> behind the \<open>Message\<close> interface\<close>

text \<open>
  A call of a virtual method on an \<open>RpcMessage\<close> runs the generated method;
  \<open>MessageLite::ParseFromArray\<close> clears the message, merges the array into it, and succeeds
  when the merge does, the message is initialised and the whole array was read.
\<close>

locale rpc_runtime = pb_lib L unread + pb_progress L unread
  for L :: "('p, 'u) pb_ops" and unread +
  fixes M :: "'u RpcMessage message_ops"
  assumes dispatch:
      "msg_New M = RpcMessage_new L"
      "msg_IsInitialized M m = IsInitialized m"
      "msg_ByteSize M m = bind_res (ByteSize L m) (\<lambda>(n, m). Inr n)"
      "msg_SerializeWithCachedSizesToArray M m = SerializeWithCachedSizesToArray L m"
    and parse_from_array: "msg_ParseFromArray M bs m =
      (case MergePartialFromCodedStream L (Clear L m) (stream_of_array L bs) of
         None \<Rightarrow> None
       | Some (Inl e) \<Rightarrow> Some (Inl e)
       | Some (Inr (ok, m', s)) \<Rightarrow>
           Some (Inr (ok \<and> IsInitialized m' \<and> ConsumedEntireMessage L s, m')))"
begin

lemma clear_new: "view (Clear L (RpcMessage_new L)) = empty_view" "msg_inv (Clear L (RpcMessage_new L))"
  using Clear_view [of "RpcMessage_new L" L] by (simp_all add: RpcMessage_new_def)

lemma parsed_inv: "msg_inv (parsed_message M bs)"
proof -
  obtain ok m s where "MergePartialFromCodedStream L (Clear L (RpcMessage_new L)) (stream_of_array L bs)
      = Some (Inr (ok, m, s))" "msg_inv m"
    using parse_loop_total [OF clear_new(2), of Read_tag "stream_of_array L bs"]
    by (auto simp: MergePartialFromCodedStream_def)
  then show ?thesis
    by (simp add: parsed_message_def parse_from_array dispatch)
qed

end

definition same_view :: "'u RpcMessage \<Rightarrow> 'u RpcMessage \<Rightarrow> bool" where
  "same_view m m' \<longleftrightarrow> view m = view m'"

sublocale rpc_runtime \<subseteq> message_lib M "sendable L" same_view
proof
  fix m and bs
  show "msg_IsInitialized M m" if "sendable L m"
    by (simp add: dispatch IsInitialized_def)
  show "msg_ByteSize M m = Inr (of_nat (length (msg_SerializeWithCachedSizesToArray M m)))"
    if "sendable L m" "length (msg_SerializeWithCachedSizesToArray M m) < 2 ^ 31"
    using that(2) by (simp add: dispatch ByteSize_small)
  show "\<exists>m'. msg_ParseFromArray M (msg_SerializeWithCachedSizesToArray M m) (msg_New M) =
      Some (Inr (True, m')) \<and> same_view m m'" if "sendable L m"
    using parse_serialized_new [OF that clear_new]
    by (auto simp: parse_from_array dispatch IsInitialized_def same_view_def)
  show "\<exists>ok m'. msg_ParseFromArray M bs (msg_New M) = Some (Inr (ok, m'))"
    using parse_loop_total [OF clear_new(2), of Read_tag "stream_of_array L bs"]
    by (auto simp: parse_from_array dispatch MergePartialFromCodedStream_def)
qed

definition rpc_vtable :: "('p, 'u) pb_ops \<Rightarrow> 'u RpcMessage message_ops" where
  "rpc_vtable L =
    \<lparr>msg_New = RpcMessage_new L,
     msg_IsInitialized = IsInitialized,
     msg_ByteSize = (\<lambda>m. bind_res (ByteSize L m) (\<lambda>(n, m). Inr n)),
     msg_SerializeWithCachedSizesToArray = SerializeWithCachedSizesToArray L,
     msg_ParseFromArray = (\<lambda>bs m.
       case MergePartialFromCodedStream L (Clear L m) (stream_of_array L bs) of
         None \<Rightarrow> None
       | Some (Inl e) \<Rightarrow> Some (Inl e)
       | Some (Inr (ok, m', s)) \<Rightarrow>
           Some (Inr (ok \<and> IsInitialized m' \<and> ConsumedEntireMessage L s, m'))),
     msg_GetTypeName = ''mRpc.RpcMessage'',
     msg_InitializationErrorString = (\<lambda>m. [])\<rparr>"

interpretation rpc_ref: rpc_runtime ref_wire rs_unread "rpc_vtable ref_wire"
  by unfold_locales (simp_all add: rpc_vtable_def)

interpretation rpc_env: codec_env chunked ch_evb ref_adler32 "rpc_vtable ref_wire" "sendable ref_wire" same_view
  by unfold_locales

subsection \<open>The derived codec\<close>

definition rpctag :: bytes where
  "rpctag = [109, 82, 112, 99, 0]"

record ('m, 'w) ProtobufCodecLiteDerived =
  derived_messageCallback :: "ptr \<Rightarrow> 'm \<Rightarrow> 'w \<Rightarrow> 'w res"
  rpcCodeDer :: "('m, 'w) ProtobufCodecLite"

text \<open>
  The constructor binds the inner codec's message callback to \<open>onRpcMessage\<close> of this object,
  which casts the message down to its class and calls the user's callback. The cast of
  \<open>include/util.h\<close> is a \<open>static_pointer_cast\<close>: it checks nothing and changes nothing.
\<close>

definition down_pointer_cast :: "'m \<Rightarrow> 'm" where
  "down_pointer_cast f = f"

definition derived_onRpcMessage ::
  "(ptr \<Rightarrow> 'm \<Rightarrow> 'w \<Rightarrow> 'w res) \<Rightarrow> ptr \<Rightarrow> 'm \<Rightarrow> 'w \<Rightarrow> 'w res" where
  "derived_onRpcMessage messageCb conn message w = messageCb conn (down_pointer_cast message) w"

definition ProtobufCodecLiteDerived_init ::
  "bytes \<Rightarrow> (ptr \<Rightarrow> 'm \<Rightarrow> 'w \<Rightarrow> 'w res) \<Rightarrow> (ptr \<Rightarrow> int32 \<Rightarrow> 'w \<Rightarrow> (bool \<times> 'w) res) option \<Rightarrow>
   (ptr \<Rightarrow> ErrorCode \<Rightarrow> 'w \<Rightarrow> 'w res) \<Rightarrow> ('m, 'w) ProtobufCodecLiteDerived" where
  "ProtobufCodecLiteDerived_init TAG messageCb raw errorCb =
     \<lparr>derived_messageCallback = messageCb,
      rpcCodeDer = ProtobufCodecLite_init TAG (derived_onRpcMessage messageCb) raw errorCb\<rparr>"

definition derived_tag :: "('m, 'w) ProtobufCodecLiteDerived \<Rightarrow> bytes" where
  "derived_tag d = get_tag (rpcCodeDer d)"

definition derived_send ::
  "'s evbuffer_ops \<Rightarrow> adler32_fun \<Rightarrow> 'm message_ops \<Rightarrow> ('m, ('s, 'z) net_scheme) ProtobufCodecLiteDerived \<Rightarrow>
   ptr \<Rightarrow> 'm \<Rightarrow> ('s, 'z) net_scheme \<Rightarrow> ('s, 'z) net_scheme res" where
  "derived_send E Z M d conn message w = send E Z M (rpcCodeDer d) conn message w"

definition derived_onMessage ::
  "'s evbuffer_ops \<Rightarrow> adler32_fun \<Rightarrow> 'm message_ops \<Rightarrow> ('m, ('s, 'z) net_scheme) ProtobufCodecLiteDerived \<Rightarrow>
   ptr \<Rightarrow> ('s, 'z) net_scheme \<Rightarrow> ('s, 'z) net_scheme res option" where
  "derived_onMessage E Z M d conn w = onMessage E Z M (rpcCodeDer d) conn w"

definition derived_fillEmptyBuffer ::
  "'s evbuffer_ops \<Rightarrow> adler32_fun \<Rightarrow> 'm message_ops \<Rightarrow> ('m, 'w) ProtobufCodecLiteDerived \<Rightarrow>
   ptr \<Rightarrow> 'm \<Rightarrow> 's \<Rightarrow> 's res" where
  "derived_fillEmptyBuffer E Z M d buf message s =
     bind_res (fillEmptyBuffer E Z M (rpcCodeDer d) buf message s) (\<lambda>(r, s). Inr s)"

text \<open>\<open>RpcCodeDerived\<close> is the template at \<open>RpcMessage\<close> and \<open>rpctag\<close>; its tag drops the terminator.\<close>

definition RpcCodeDerived_init ::
  "(ptr \<Rightarrow> 'u RpcMessage \<Rightarrow> ('s, 'z) net_scheme \<Rightarrow> ('s, 'z) net_scheme res) \<Rightarrow>
   ('u RpcMessage, ('s, 'z) net_scheme) ProtobufCodecLiteDerived" where
  "RpcCodeDerived_init messageCb =
     ProtobufCodecLiteDerived_init rpctag messageCb None defaultErrorCallback"

lemma rpc_tag_bytes: "takeWhile (\<lambda>b. b \<noteq> 0) rpctag = [109, 82, 112, 99]"
  by (simp add: rpctag_def)

lemma RpcCodeDerived_fields [simp]:
  "codec_tag (rpcCodeDer (RpcCodeDerived_init cb)) = [109, 82, 112, 99]"
  "rawCb (rpcCodeDer (RpcCodeDerived_init cb)) = None"
  "messageCallback (rpcCodeDer (RpcCodeDerived_init cb)) = cb"
  "codec_errorCallback (rpcCodeDer (RpcCodeDerived_init cb)) = defaultErrorCallback"
  by (simp_all add: RpcCodeDerived_init_def ProtobufCodecLiteDerived_init_def ProtobufCodecLite_init_def
      Let_def rpc_tag_bytes derived_onRpcMessage_def down_pointer_cast_def fun_eq_iff)

lemma codec_ok_RpcCodeDerived: "codec_ok (rpcCodeDer (RpcCodeDerived_init cb))"
  unfolding RpcCodeDerived_init_def ProtobufCodecLiteDerived_init_def
  by (simp add: codec_ok_init rpctag_def)

subsection \<open>Properties of the codec\<close>

text \<open>A process with one connection: read buffer 1, write buffer 2, outside every queue.\<close>

definition sample_conn :: Conn where
  "sample_conn = \<lparr>conn_fd = 5, conn_thread = 8, conn_bev = 9, conn_readBuf = 1, conn_writeBuf = 2,
                  conn_pre = NULL, conn_next = NULL\<rparr>"

definition sample_net :: "bytes \<Rightarrow> bytes \<Rightarrow> (chunk_lib, 'm) obs_net" where
  "sample_net rb wb =
     \<lparr>ext = \<lparr>cl_bufs = [Some [rb], Some [wb]]\<rparr>, store = \<lparr>cells = [3 \<mapsto> sample_conn], next_addr = 4\<rparr>,
      lthreads = Map.empty, live_bevs = {9}, obs_msgs = [], obs_errs = []\<rparr>"

lemma sample_buffers:
  "reads ch_evb (sample_net rb wb) 3 1 rb" "writes ch_evb (sample_net rb wb) 3 2 wb"
  by (simp_all add: reads_def writes_def sample_net_def sample_conn_def ch_evb_def ch_at_def)

lemma sample_obs [simp]:
  "obs_msgs (sample_net rb wb) = []" "obs_errs (sample_net rb wb) = []"
  by (simp_all add: sample_net_def)

abbreviation (input) mRpc :: bytes where "mRpc \<equiv> [109, 82, 112, 99]"

text \<open>
  C3. The receiving loop refines the abstract decoder: for every byte stream in the connection's
  read buffer the loop returns, hands exactly the decoded messages to the callback in order,
  reports exactly the decoded error, and leaves exactly the undecoded bytes in the buffer.
\<close>

theorem onMessage_refines_decoder:
  assumes "codec_env E evb Z M good same"
    and "reads evb w conn b c" and "length c < 2 ^ 31" and "length tag < 2 ^ 16" and "0 \<notin> set tag"
  shows "\<exists>w'. onMessage E Z M (observer tag) conn w = Some (Inr w') \<and>
    (case decode_stream Z M tag c of (ms, err, left) \<Rightarrow>
       obs_msgs w' = obs_msgs w @ ms \<and>
       obs_errs w' = obs_errs w @ (case err of None \<Rightarrow> [] | Some e \<Rightarrow> [e]) \<and>
       reads evb w' conn b left)"
  by (rule observer_decodes [OF assms]) (auto split: prod.split)

theorem onMessage_refines_decoder_witness:
  "\<exists>w'. onMessage chunked ref_adler32 (rpc_vtable ref_wire) (observer mRpc) 3 (sample_net [0, 0, 0] []) = Some (Inr w') \<and>
     obs_msgs w' = [] \<and> obs_errs w' = [] \<and> reads ch_evb w' 3 1 [0, 0, 0]"
proof -
  have "decode_stream ref_adler32 (rpc_vtable ref_wire) mRpc [0, 0, 0] = ([], None, [0, 0, 0])"
    by (subst decode_stream.simps) (simp add: checksumLen_def headerLen_def)
  with onMessage_refines_decoder [OF rpc_env.codec_env_axioms sample_buffers(1), of "[0, 0, 0]" mRpc "[]"]
  show ?thesis by simp
qed

text \<open>
  C15. \<open>send\<close> appends exactly the frame of the message (length, tag, payload, Adler-32 of tag
  and payload) to the connection's write buffer, releases its temporary buffer, and changes
  nothing else.
\<close>

theorem send_appends_frame:
  assumes "codec_env E evb Z M good same" and "good m" and "writes evb w conn b c"
    and "fits (codec_tag cd) (msg_SerializeWithCachedSizesToArray M m)"
  shows "\<exists>s. send E Z M cd conn m w = Inr (w\<lparr>ext := s\<rparr>) \<and>
     evb s = (evb (ext w))(b \<mapsto> c @ frame Z (codec_tag cd) (msg_SerializeWithCachedSizesToArray M m))"
  by (rule codec_env.send_frame [OF assms])

theorem send_appends_frame_witness:
  "\<exists>s. send chunked ref_adler32 (rpc_vtable ref_wire) (observer mRpc) 3 sample_message (sample_net [] [1])
        = Inr ((sample_net [] [1])\<lparr>ext := s\<rparr>) \<and>
     ch_evb s 2 = Some ([1, 0, 0, 0, 33] @ frame_body ref_adler32 mRpc (SerializeWithCachedSizesToArray ref_wire sample_message))"
proof -
  have f: "fits (codec_tag (observer mRpc)) (msg_SerializeWithCachedSizesToArray (rpc_vtable ref_wire) sample_message)"
    by (simp add: fits_def maxMessageLen_def rpc_vtable_def serialized_sample codec_tag_observer checksumLen_def)
  from send_appends_frame [OF rpc_env.codec_env_axioms sample_sendable sample_buffers(2) f, of "[]" "[1]"]
  show ?thesis
    by (auto simp: codec_tag_observer rpc_vtable_def frame_def serialized_sample checksumLen_def
        be32_def mem_of_word32)
qed

text \<open>Sending several messages one after the other.\<close>

primrec send_all ::
  "'s evbuffer_ops \<Rightarrow> adler32_fun \<Rightarrow> 'm message_ops \<Rightarrow> ('m, ('s, 'z) net_scheme) ProtobufCodecLite \<Rightarrow>
   ptr \<Rightarrow> 'm list \<Rightarrow> ('s, 'z) net_scheme \<Rightarrow> ('s, 'z) net_scheme res" where
  "send_all E Z M cd conn [] w = Inr w"
| "send_all E Z M cd conn (m # ms) w = bind_res (send E Z M cd conn m w) (send_all E Z M cd conn ms)"

lemma send_all_frames:
  assumes "codec_env E evb Z M good same" and "\<forall>m \<in> set ms. good m" and "writes evb w conn b c"
    and "\<forall>m \<in> set ms. fits (codec_tag cd) (msg_SerializeWithCachedSizesToArray M m)"
  shows "\<exists>w'. send_all E Z M cd conn ms w = Inr w' \<and>
     writes evb w' conn b (c @ concat (map (frame Z (codec_tag cd) \<circ> msg_SerializeWithCachedSizesToArray M) ms))"
  using assms(2-4)
proof (induction ms arbitrary: w c)
  case Nil
  then show ?case by simp
next
  case (Cons m ms)
  let ?f = "frame Z (codec_tag cd) (msg_SerializeWithCachedSizesToArray M m)"
  obtain s where s: "send E Z M cd conn m w = Inr (w\<lparr>ext := s\<rparr>)" "evb s = (evb (ext w))(b \<mapsto> c @ ?f)"
    using codec_env.send_frame [OF assms(1), of m w conn b c cd] Cons.prems by auto
  then have "writes evb (w\<lparr>ext := s\<rparr>) conn b (c @ ?f)"
    using writes_ext [OF Cons.prems(2)] by simp
  from Cons.IH [OF _ this] Cons.prems s(1) show ?case by simp
qed

text \<open>
  C5. What one side sends the other receives: the bytes that \<open>send\<close> leaves in the write buffer
  for a list of messages, arriving whole in a read buffer, make the receiving loop deliver the
  same messages in the same order, with no error and no byte left.
\<close>

theorem sent_messages_received:
  assumes "codec_env E evb Z M good same" and "writes evb w conn b []"
    and "\<forall>m \<in> set ms. good m \<and> fits tag (msg_SerializeWithCachedSizesToArray M m)"
    and "length tag < 2 ^ 16" and "0 \<notin> set tag"
    and "length (concat (map (\<lambda>m. frame Z tag (msg_SerializeWithCachedSizesToArray M m)) ms)) < 2 ^ 31"
  shows "\<exists>w' out. send_all E Z M (observer tag) conn ms w = Inr w' \<and> writes evb w' conn b out \<and>
     (\<forall>v rconn rb. reads evb v rconn rb out \<longrightarrow>
       (\<exists>v' ms'. onMessage E Z M (observer tag) rconn v = Some (Inr v') \<and>
          obs_msgs v' = obs_msgs v @ ms' \<and> list_all2 same ms ms' \<and>
          obs_errs v' = obs_errs v \<and> reads evb v' rconn rb []))"
proof -
  let ?ser = "msg_SerializeWithCachedSizesToArray M"
  let ?out = "concat (map (frame Z tag) (map ?ser ms))"
  obtain w' where w': "send_all E Z M (observer tag) conn ms w = Inr w'" "writes evb w' conn b ?out"
    using send_all_frames [OF assms(1) _ assms(2), of ms "observer tag"] assms(3)
    by (auto simp: codec_tag_observer [OF assms(5)] comp_def)
  have d: "decode_stream Z M tag ?out = (map (parsed_message M) (map ?ser ms), None, [])"
    using decode_stream_frames [of "map ?ser ms" tag Z M "[]"] assms(3) by simp
  have l: "length ?out < 2 ^ 31"
    using assms(6) by (simp add: comp_def)
  have "message_lib M good same"
    using assms(1) by (simp add: codec_env_def)
  then have s: "list_all2 same ms (map (parsed_message M) (map ?ser ms))"
    using assms(3) by (auto simp: list_all2_conv_all_nth intro: message_lib.parsed_same)
  have "\<exists>v' ms'. onMessage E Z M (observer tag) rconn v = Some (Inr v') \<and>
          obs_msgs v' = obs_msgs v @ ms' \<and> list_all2 same ms ms' \<and>
          obs_errs v' = obs_errs v \<and> reads evb v' rconn rb []"
    if "reads evb v rconn rb ?out" for v rconn rb
    by (rule observer_decodes [OF assms(1) that l assms(4,5)]) (use s in \<open>auto simp: d simp del: map_map\<close>)
  with w' show ?thesis by blast
qed

theorem sent_messages_received_witness:
  "\<exists>w' out v' ms'.
     send_all chunked ref_adler32 (rpc_vtable ref_wire) (observer mRpc) 3 [sample_message, sample_message]
       (sample_net [] []) = Inr w' \<and> writes ch_evb w' 3 2 out \<and>
     onMessage chunked ref_adler32 (rpc_vtable ref_wire) (observer mRpc) 3 (sample_net out []) = Some (Inr v') \<and>
     obs_msgs v' = ms' \<and> length ms' = 2 \<and> obs_errs v' = []"
proof -
  let ?ms = "[sample_message, sample_message]"
  have g: "\<forall>m \<in> set ?ms. sendable ref_wire m \<and>
      fits mRpc (msg_SerializeWithCachedSizesToArray (rpc_vtable ref_wire) m)"
    by (simp add: sample_sendable fits_def maxMessageLen_def rpc_vtable_def serialized_sample checksumLen_def)
  have l: "length (concat (map (\<lambda>m. frame ref_adler32 mRpc
      (msg_SerializeWithCachedSizesToArray (rpc_vtable ref_wire) m)) ?ms)) < 2 ^ 31"
    by (simp add: rpc_vtable_def serialized_sample checksumLen_def headerLen_def)
  have t: "length mRpc < 2 ^ 16" "0 \<notin> set mRpc"
    by simp_all
  note received = sent_messages_received [OF rpc_env.codec_env_axioms sample_buffers(2) g t l, of "[]"]
  then obtain w' out where o: "send_all chunked ref_adler32 (rpc_vtable ref_wire) (observer mRpc) 3 ?ms
       (sample_net [] []) = Inr w'" "writes ch_evb w' 3 2 out"
     and r: "\<forall>(v :: (chunk_lib, _) obs_net) rconn rb. reads ch_evb v rconn rb out \<longrightarrow>
       (\<exists>v' ms'. onMessage chunked ref_adler32 (rpc_vtable ref_wire) (observer mRpc) rconn v = Some (Inr v') \<and>
          obs_msgs v' = obs_msgs v @ ms' \<and> list_all2 same_view ?ms ms' \<and>
          obs_errs v' = obs_errs v \<and> reads ch_evb v' rconn rb [])"
    by blast
  from r [rule_format, OF sample_buffers(1) [of out "[]"]] o show ?thesis
    by (fastforce dest: list_all2_lengthD)
qed

lemma be32_be32_val: "length bs = 4 \<Longrightarrow> be32 (be32_val bs) = bs"
  by (simp add: be32_def be32_val_def)

lemma mRpc_bad: "maxMessageLen < sint (be32_val mRpc)"
  by (simp add: be32_val_def maxMessageLen_def)

lemma decode_stream_mRpc:
  assumes "8 \<le> length rest"
  shows "decode_stream Z M mRpc (mRpc @ rest) = ([], Some invalidLength, rest)"
  using decode_stream_header [of mRpc rest Z M "be32_val mRpc"] assms mRpc_bad
  by (simp add: be32_be32_val checksumLen_def)

lemma decode_stream_short:
  "length bs < length tag + checksumLen + headerLen \<Longrightarrow> decode_stream Z M tag bs = ([], None, bs)"
  by (subst decode_stream.simps) simp

lemma decode_stream_mRpc_body:
  "\<exists>left. decode_stream Z M mRpc (frame_body Z mRpc p) = ([], if length p < 4 then None else Some invalidLength, left)"
proof (cases "length p < 4")
  case True
  then show ?thesis
    by (subst decode_stream_short) (simp_all add: frame_body_def checksumLen_def headerLen_def)
next
  case False
  then show ?thesis
    using decode_stream_mRpc [of "p @ be32 (adler_of Z (mRpc @ p))" Z M] by (simp add: frame_body_def)
qed

text \<open>
  C23. A frame that arrives in two pieces. When the first piece is shorter than the twelve bytes
  the loop waits for, nothing is consumed, and the frame is delivered once the second piece is
  there. Otherwise the frame is lost: the loop consumes the length field and leaves the rest
  without a message, and when the second piece arrives the tag is read as a length, so that the
  loop delivers nothing and, for a payload of at least four bytes, reports \<open>invalidLength\<close>,
  although every byte was sent correctly. (With a shorter payload what is left is below twelve
  bytes, and the loop waits.)
\<close>

theorem split_frame_desyncs:
  assumes "codec_env E evb Z M good same" and "fits mRpc p"
    and "k < length (frame Z mRpc p)" and "reads evb w conn b (take k (frame Z mRpc p))"
  shows "\<exists>w1. onMessage E Z M (observer mRpc) conn w = Some (Inr w1) \<and>
     obs_msgs w1 = obs_msgs w \<and> obs_errs w1 = obs_errs w \<and>
     (if k < 12 then
        reads evb w1 conn b (take k (frame Z mRpc p)) \<and>
        (\<forall>w2. reads evb w2 conn b (take k (frame Z mRpc p) @ drop k (frame Z mRpc p)) \<longrightarrow>
           (\<exists>w3. onMessage E Z M (observer mRpc) conn w2 = Some (Inr w3) \<and>
             obs_msgs w3 = obs_msgs w2 @ [parsed_message M p] \<and> obs_errs w3 = obs_errs w2 \<and> reads evb w3 conn b []))
      else
        reads evb w1 conn b (take (k - 4) (frame_body Z mRpc p)) \<and>
        (\<forall>w2. reads evb w2 conn b (take (k - 4) (frame_body Z mRpc p) @ drop k (frame Z mRpc p)) \<longrightarrow>
           (\<exists>w3. onMessage E Z M (observer mRpc) conn w2 = Some (Inr w3) \<and> obs_msgs w3 = obs_msgs w2 \<and>
             obs_errs w3 = obs_errs w2 @ (if length p < 4 then [] else [invalidLength]))))"
proof -
  let ?frame = "frame Z mRpc p" and ?body = "frame_body Z mRpc p"
  have t: "length mRpc < 2 ^ 16" "0 \<notin> set mRpc"
    by simp_all
  have l: "length ?frame < 2 ^ 31"
    using assms(2) by (simp add: fits_def maxMessageLen_def headerLen_def)
  then have lk: "length (take k ?frame) < 2 ^ 31" and lb: "length ?body < 2 ^ 31"
    by simp_all
  show ?thesis
  proof (cases "k < 12")
    case True
    have d1: "decode_stream Z M mRpc (take k ?frame) = ([], None, take k ?frame)"
      using True by (intro decode_stream_short) (simp add: checksumLen_def headerLen_def)
    have d2: "decode_stream Z M mRpc ?frame = ([parsed_message M p], None, [])"
      using decode_stream_frame [OF assms(2), of Z M "[]"] by simp
    have second: "\<exists>w3. onMessage E Z M (observer mRpc) conn w2 = Some (Inr w3) \<and>
        obs_msgs w3 = obs_msgs w2 @ [parsed_message M p] \<and> obs_errs w3 = obs_errs w2 \<and> reads evb w3 conn b []"
      if "reads evb w2 conn b ?frame" for w2
      by (rule observer_decodes [OF assms(1) that l t]) (simp add: d2)
    show ?thesis
      unfolding append_take_drop_id if_P [OF True]
      by (rule observer_decodes [OF assms(1,4) lk t]) (use second in \<open>simp add: d1\<close>)
  next
    case False
    have d1: "decode_stream Z M mRpc (take k ?frame) = ([], None, take (k - 4) ?body)"
      using decode_stream_cut [OF assms(2) _ assms(3)] False by (simp add: checksumLen_def headerLen_def)
    have whole: "take (k - 4) ?body @ drop k ?frame = ?body"
      using False by (simp add: frame_def)
    obtain left where d2: "decode_stream Z M mRpc ?body = ([], if length p < 4 then None else Some invalidLength, left)"
      using decode_stream_mRpc_body by blast
    have second: "\<exists>w3. onMessage E Z M (observer mRpc) conn w2 = Some (Inr w3) \<and>
        obs_msgs w3 = obs_msgs w2 \<and> obs_errs w3 = obs_errs w2 @ (if length p < 4 then [] else [invalidLength])"
      if "reads evb w2 conn b ?body" for w2
      by (rule observer_decodes [OF assms(1) that lb t]) (simp add: d2 split: if_splits)
    show ?thesis
      unfolding whole if_not_P [OF False]
      by (rule observer_decodes [OF assms(1,4) lk t]) (use second in \<open>simp add: d1\<close>)
  qed
qed

theorem split_frame_desyncs_witness:
  "\<exists>w1 w2 w3. onMessage chunked ref_adler32 (rpc_vtable ref_wire) (observer mRpc) 3
       (sample_net (take 20 (frame ref_adler32 mRpc (SerializeWithCachedSizesToArray ref_wire sample_message))) [])
       = Some (Inr w1) \<and> obs_msgs w1 = [] \<and> obs_errs w1 = [] \<and>
     onMessage chunked ref_adler32 (rpc_vtable ref_wire) (observer mRpc) 3
       (sample_net (take 16 (frame_body ref_adler32 mRpc (SerializeWithCachedSizesToArray ref_wire sample_message)) @
          drop 20 (frame ref_adler32 mRpc (SerializeWithCachedSizesToArray ref_wire sample_message))) [])
       = Some (Inr w2) \<and> obs_msgs w2 = [] \<and> obs_errs w2 = [invalidLength] \<and>
     onMessage chunked ref_adler32 (rpc_vtable ref_wire) (observer mRpc) 3
       (sample_net (take 11 (frame ref_adler32 mRpc (SerializeWithCachedSizesToArray ref_wire sample_message))) [])
       = Some (Inr w3) \<and> obs_msgs w3 = [] \<and> obs_errs w3 = []"
proof -
  let ?p = "SerializeWithCachedSizesToArray ref_wire sample_message"
  have p: "fits mRpc ?p" "20 < length (frame ref_adler32 mRpc ?p)" "11 < length (frame ref_adler32 mRpc ?p)" "\<not> length ?p < 4"
    by (simp_all add: serialized_sample fits_def maxMessageLen_def checksumLen_def headerLen_def)
  let ?rest = "take 16 (frame_body ref_adler32 mRpc ?p) @ drop 20 (frame ref_adler32 mRpc ?p)"
  from split_frame_desyncs [OF rpc_env.codec_env_axioms p(1,2) sample_buffers(1), of "[]"]
    split_frame_desyncs [OF rpc_env.codec_env_axioms p(1,3) sample_buffers(1), of "[]"]
    sample_buffers(1) [of ?rest "[]"] p(4)
  show ?thesis by (auto simp del: append_take_drop_id)
qed

lemma decode_stream_body:
  assumes "length tag + checksumLen \<le> length body" and "int (length body) \<le> maxMessageLen"
  shows "decode_stream Z M tag (be32 (of_nat (length body)) @ body @ rest) =
    (case decode_body Z M tag body of
       Inl e \<Rightarrow> ([], Some e, body @ rest)
     | Inr m \<Rightarrow> let (ms, e, left) = decode_stream Z M tag rest in (m # ms, e, left))"
proof -
  have l: "length body < 2 ^ 31"
    using assms(2) by (simp add: maxMessageLen_def)
  then have n: "unat (of_nat (length body) :: uint32) = length body" "sint (of_nat (length body) :: uint32) = int (length body)"
    by (simp_all add: unat_of_nat32 sint_of_nat32)
  have "unat (of_nat (length tag + checksumLen) :: uint32) = length tag + checksumLen"
    using assms(1) l by (intro unat_of_nat32) simp
  then have "\<not> (of_nat (length body) :: uint32) < of_nat (length tag + checksumLen)"
    using assms(1) n(1) by (simp only: word_less_nat_alt)
  then show ?thesis
    using assms n by (subst decode_stream_header) (auto simp del: of_nat_add split: sum.split)
qed

text \<open>
  C24. A complete frame with a wrong checksum is reported as \<open>unknownMessageType\<close>, one with a
  right checksum and a wrong tag as \<open>parseError\<close>; neither is delivered and the loop stops with
  the four length bytes consumed and the body still in the buffer. The code \<open>checkSumError\<close> is never reported.
\<close>

theorem corrupt_frame_classified:
  assumes "codec_env E evb Z M good same" and "length tag < 2 ^ 16" and "0 \<notin> set tag"
    and "reads evb w conn b (be32 (of_nat (length body)) @ body @ rest)"
    and "length body + length rest + 4 < 2 ^ 31"
    and "length tag + 4 \<le> length body" and "int (length body) \<le> maxMessageLen"
    and "adler_of Z (take (length body - 4) body) \<noteq> be32_val (drop (length body - 4) body) \<or>
         take (length tag) body \<noteq> tag"
  shows "\<exists>w'. onMessage E Z M (observer tag) conn w = Some (Inr w') \<and> obs_msgs w' = obs_msgs w \<and>
     obs_errs w' = obs_errs w @
       [if adler_of Z (take (length body - 4) body) \<noteq> be32_val (drop (length body - 4) body)
        then unknownMessageType else parseError] \<and>
     reads evb w' conn b (body @ rest)"
proof -
  let ?c = "be32 (of_nat (length body)) @ body @ rest"
  have d: "decode_stream Z M tag ?c = ([], Some
       (if adler_of Z (take (length body - 4) body) \<noteq> be32_val (drop (length body - 4) body)
        then unknownMessageType else parseError), body @ rest)"
    using assms(6-8) by (subst decode_stream_body) (auto simp: decode_body_def checksumLen_def Let_def)
  have "length ?c < 2 ^ 31"
    using assms(5) by simp
  then show ?thesis
    by (rule observer_decodes [OF assms(1,4) _ assms(2,3)]) (simp add: d)
qed

theorem corrupt_frame_classified_witness:
  "\<exists>w'. onMessage chunked ref_adler32 (rpc_vtable ref_wire) (observer mRpc) 3
       (sample_net (be32 8 @ [109, 82, 112, 99, 0, 0, 0, 0] @ [1]) []) = Some (Inr w') \<and>
     obs_msgs w' = [] \<and> obs_errs w' = [unknownMessageType]"
proof -
  let ?b = "[109, 82, 112, 99, 0, 0, 0, 0] :: bytes"
  have "adler_of ref_adler32 (take (length ?b - 4) ?b) \<noteq> be32_val (drop (length ?b - 4) ?b)"
    by (simp add: adler_of_def ref_adler32_def adler_unpack_def adler_step_def adler_pack_def be32_val_def)
  with corrupt_frame_classified [OF rpc_env.codec_env_axioms _ _ sample_buffers(1), of mRpc ?b "[1]" "[]"]
  show ?thesis by (auto simp: maxMessageLen_def)
qed

text \<open>
  C32. A negative length passes the length check: it is not reported as \<open>invalidLength\<close>, the
  four bytes are consumed, and the loop waits for more input.
\<close>

theorem negative_length_unreported:
  assumes "codec_env E evb Z M good same" and "length tag < 2 ^ 16" and "0 \<notin> set tag"
    and "reads evb w conn b (be32 len @ rest)" and "sint len < 0"
    and "length tag + 4 \<le> length rest" and "length rest + 4 < 2 ^ 31"
  shows "\<exists>w'. onMessage E Z M (observer tag) conn w = Some (Inr w') \<and>
     obs_msgs w' = obs_msgs w \<and> obs_errs w' = obs_errs w \<and> reads evb w' conn b rest"
proof -
  have big: "2 ^ 31 \<le> unat len"
    using assms(5) sint_unat_small [of len] by (metis not_less of_nat_less_0_iff)
  have "unat (of_nat (length tag + checksumLen) :: uint32) = length tag + checksumLen"
    using assms(2) by (intro unat_of_nat32) (simp add: checksumLen_def)
  then have "\<not> len < of_nat (length tag + checksumLen)"
    using big assms(2) by (simp only: word_less_nat_alt) (simp add: checksumLen_def)
  then have d: "decode_stream Z M tag (be32 len @ rest) = ([], None, rest)"
    using assms(5-7) big
    by (subst decode_stream_header) (simp_all only: checksumLen_def, simp_all add: maxMessageLen_def)
  have "length (be32 len @ rest) < 2 ^ 31"
    using assms(7) by simp
  then show ?thesis
    by (rule observer_decodes [OF assms(1,4) _ assms(2,3)]) (simp add: d)
qed

theorem negative_length_unreported_witness:
  "\<exists>w'. onMessage chunked ref_adler32 (rpc_vtable ref_wire) (observer mRpc) 3
       (sample_net (be32 0xFFFFFFFF @ [1, 2, 3, 4, 5, 6, 7, 8]) []) = Some (Inr w') \<and>
     obs_msgs w' = [] \<and> obs_errs w' = []"
proof -
  have "sint (0xFFFFFFFF :: int32) < 0"
    by simp
  from negative_length_unreported [OF rpc_env.codec_env_axioms _ _ sample_buffers(1) this, of mRpc "[1, 2, 3, 4, 5, 6, 7, 8]" "[]"]
  show ?thesis by auto
qed

text \<open>
  C31. A payload that does not parse is delivered all the same: when \<open>ParseFromArray\<close> fails, the
  codec hands the half-filled message to the callback and reports no error.
\<close>

theorem unparsable_payload_delivered:
  assumes "codec_env E evb Z M good same" and "length tag < 2 ^ 16" and "0 \<notin> set tag"
    and "fits tag p" and "reads evb w conn b (frame Z tag p)"
    and "msg_ParseFromArray M p (msg_New M) = Some (Inr (False, m))"
  shows "\<exists>w'. onMessage E Z M (observer tag) conn w = Some (Inr w') \<and>
     obs_msgs w' = obs_msgs w @ [m] \<and> obs_errs w' = obs_errs w"
proof -
  have d: "decode_stream Z M tag (frame Z tag p) = ([m], None, [])"
    using decode_stream_frame [OF assms(4), of Z M "[]"] assms(6) by (simp add: parsed_message_def)
  have "length (frame Z tag p) < 2 ^ 31"
    using assms(4) by (simp add: fits_def maxMessageLen_def headerLen_def)
  then show ?thesis
    by (rule observer_decodes [OF assms(1,5) _ assms(2,3)]) (simp add: d)
qed

theorem unparsable_payload_delivered_witness:
  "\<exists>w'. onMessage chunked ref_adler32 (rpc_vtable ref_wire) (observer mRpc) 3
       (sample_net (frame ref_adler32 mRpc [8]) []) = Some (Inr w') \<and>
     obs_msgs w' = [Clear ref_wire (RpcMessage_new ref_wire)] \<and> obs_errs w' = []"
proof -
  have "msg_ParseFromArray (rpc_vtable ref_wire) [8] (msg_New (rpc_vtable ref_wire)) =
      Some (Inr (False, Clear ref_wire (RpcMessage_new ref_wire)))"
    unfolding rpc_vtable_def MergePartialFromCodedStream_def
    by (subst parse_loop.simps) (simp add: do_tag_def do_type_def
        ref_wire_def ref_read_tag_def ref_read_enum_def read_varint_byte read_varint_Nil drop_bit_eq_div)
  from unparsable_payload_delivered [OF rpc_env.codec_env_axioms _ _ _ sample_buffers(1) this, of mRpc "[]"]
  show ?thesis by (auto simp: fits_def maxMessageLen_def checksumLen_def)
qed

text \<open>
  The default error callback closes a served connection, whatever the error: the
  bufferevent is released, the connection is unlinked from its thread's queue and deleted, and
  no other thread, connection or bufferevent is touched.
\<close>

theorem defaultErrorCallback_closes:
  assumes "conn \<noteq> NULL" and "cells (store w) conn = Some k"
    and "conn_bev k \<noteq> NULL" and "conn_bev k \<in> live_bevs w"
    and "conn_thread k \<noteq> NULL" and "lthreads w (conn_thread k) = Some t"
    and "queue_rep (connect_queue t) (store w) xs" and "conn \<in> set xs"
  shows "\<exists>w' t'. defaultErrorCallback conn e w = Inr w' \<and>
       live_bevs w' = live_bevs w - {conn_bev k} \<and> ext w' = ext w \<and>
       lthreads w' = (lthreads w)(conn_thread k \<mapsto> t') \<and>
       queue_rep (connect_queue t') (store w') (remove1 conn xs) \<and> cells (store w') conn = None \<and>
       (\<forall>p. p \<notin> set (nodes (connect_queue t) xs) \<longrightarrow> cells (store w') p = cells (store w) p)"
  by (rule thread_deleteConn_rep [of "conn_thread k" "w\<lparr>live_bevs := live_bevs w - {conn_bev k}\<rparr>" t xs conn])
    (use assms in \<open>auto simp: defaultErrorCallback_eq intro!: exI [where x = "t\<lparr>connect_queue := _\<rparr>"]\<close>)

definition served_net :: "chunk_lib net" where
  "served_net = \<lparr>ext = \<lparr>cl_bufs = [Some [], Some []]\<rparr>,
     store = \<lparr>cells = [1 \<mapsto> (Conn_init 0)\<lparr>conn_next := 3\<rparr>, 2 \<mapsto> (Conn_init 0)\<lparr>conn_pre := 3\<rparr>,
                       3 \<mapsto> sample_conn\<lparr>conn_pre := 1, conn_next := 2\<rparr>], next_addr = 4\<rparr>,
     lthreads = [8 \<mapsto> \<lparr>thread_id = 0, base = NULL, notify_send_fd = 0, notify_recv_fd = 0,
                       connect_queue = \<lparr>total = 1, head = 1, tail = 2\<rparr>, lt_owner = No_owner\<rparr>],
     live_bevs = {9}\<rparr>"

theorem defaultErrorCallback_closes_witness:
  "\<exists>w'. defaultErrorCallback 3 parseError served_net = Inr w' \<and> live_bevs w' = {} \<and> cells (store w') 3 = None"
proof -
  let ?t = "the (lthreads served_net 8)" and ?k = "the (cells (store served_net) 3)"
  have "queue_rep (connect_queue ?t) (store served_net) [3]"
    by (simp add: served_net_def queue_rep_def nodes_def nxt_def prv_def Conn_init_def sample_conn_def)
  with defaultErrorCallback_closes [of 3 served_net ?k ?t "[3]" parseError] show ?thesis
    by (auto simp: served_net_def sample_conn_def)
qed

end
