(* ===== verification/Tcp_State.thy ===== *)
theory Tcp_State
  imports Connection
begin

text \<open>
  The objects \<open>TcpServer\<close> (\<open>src/tcpServer.h\<close>) and \<open>TcpClient\<close> (\<open>src/tcpClient.h\<close>), the
  process state that holds them, and the functions of libevent's event layer and of the
  operating system that both call. Those functions are not part of the repository: they are a
  record over the state \<open>'s\<close>. A user callback is a value of the closure type \<open>'cb\<close>; what
  calling it does is given by an \<open>invoker\<close>.
\<close>

record 's event_ops =
  event_base_new :: "'s \<Rightarrow> ptr \<times> 's"
  event_base_free :: "ptr \<Rightarrow> 's \<Rightarrow> 's"
  event_base_loopbreak :: "ptr \<Rightarrow> 's \<Rightarrow> 's"
  event_base_loopexit :: "ptr \<Rightarrow> nat option \<Rightarrow> 's \<Rightarrow> 's"
  notify_event_add :: "ptr \<Rightarrow> int \<Rightarrow> ptr \<Rightarrow> 's \<Rightarrow> int \<times> 's" \<comment> \<open>\<open>event_set\<close>, \<open>event_base_set\<close>, \<open>event_add\<close>\<close>
  sys_pipe :: "'s \<Rightarrow> (int \<times> int) option \<times> 's" \<comment> \<open>\<open>fds[0]\<close>, \<open>fds[1]\<close>\<close>
  sys_write_int :: "int \<Rightarrow> int \<Rightarrow> 's \<Rightarrow> int \<times> 's"
  sys_read_int :: "int \<Rightarrow> 's \<Rightarrow> int \<times> int \<times> 's" \<comment> \<open>byte count and value\<close>
  bufferevent_socket_new :: "ptr \<Rightarrow> int \<Rightarrow> 's \<Rightarrow> ptr \<times> 's"
  bufferevent_setcb :: "ptr \<Rightarrow> ptr \<Rightarrow> 's \<Rightarrow> 's"
  bufferevent_enable :: "ptr \<Rightarrow> 's \<Rightarrow> 's"
  bufferevent_get_input :: "ptr \<Rightarrow> 's \<Rightarrow> ptr"
  bufferevent_get_output :: "ptr \<Rightarrow> 's \<Rightarrow> ptr"
  bufferevent_getfd :: "ptr \<Rightarrow> 's \<Rightarrow> int"
  bufferevent_socket_connect :: "ptr \<Rightarrow> bytes \<Rightarrow> int \<Rightarrow> 's \<Rightarrow> int \<times> 's"
  evconnlistener_new_bind :: "ptr \<Rightarrow> ptr \<Rightarrow> bytes \<Rightarrow> int \<Rightarrow> 's \<Rightarrow> ptr \<times> 's"
  evconnlistener_free :: "ptr \<Rightarrow> 's \<Rightarrow> 's"
  inet_pton :: "string \<Rightarrow> bytes option"
  pthread_self :: "'s \<Rightarrow> int"
  pthread_create :: "ptr \<Rightarrow> 's \<Rightarrow> int \<times> int \<times> 's" \<comment> \<open>result and thread id\<close>
  error_string :: "'s \<Rightarrow> string"

record 'cb TcpServer =
  srv_read_cb :: "'cb option"
  srv_write_cb :: "'cb option"
  srv_connect_cb :: "'cb option"
  srv_event_cb :: "'cb option"
  thread_count :: nat
  srv_port :: int
  srv_ip :: string
  srv_main_base :: ptr
  threads :: "ptr list"

record 'cb TcpClient =
  cl_read_cb :: "'cb option"
  cl_write_cb :: "'cb option"
  cl_connect_cb :: "'cb option"
  cl_event_cb :: "'cb option"
  cl_port :: int
  cl_ip :: string
  cl_conn :: ptr
  cl_main_base :: ptr

record ('s, 'cb) tcp_net = "'s net" +
  servers :: "ptr \<rightharpoonup> 'cb TcpServer"
  clients :: "ptr \<rightharpoonup> 'cb TcpClient"
  next_obj :: ptr

record ('cb, 'w) invoker =
  call_data :: "'cb \<Rightarrow> ptr \<Rightarrow> 'w \<Rightarrow> 'w res option"
  call_event :: "'cb \<Rightarrow> ptr \<Rightarrow> int \<Rightarrow> 'w \<Rightarrow> 'w res option"

text \<open>A callback that is not set is not called.\<close>

definition call_if :: "'cb option \<Rightarrow> ('cb \<Rightarrow> 'w res option) \<Rightarrow> 'w \<Rightarrow> 'w res option" where
  "call_if cb f w = (case cb of None \<Rightarrow> Some (Inr w) | Some c \<Rightarrow> f c)"

lemma call_if_simps [simp]: "call_if None f w = Some (Inr w)" "call_if (Some c) f w = f c"
  by (simp_all add: call_if_def)

text \<open>\<open>new LibeventThread\<close>, and assignment to the fields of a thread and of a connection.\<close>

definition new_thread :: "('s, 'cb, 'z) tcp_net_scheme \<Rightarrow> (ptr \<times> ('s, 'cb, 'z) tcp_net_scheme) res" where
  "new_thread w =
     bind_res (LibeventThread_init (store w)) (\<lambda>(t, st).
     Inr (next_obj w, w\<lparr>store := st, lthreads := (lthreads w)(next_obj w \<mapsto> t),
                        next_obj := Suc (next_obj w)\<rparr>))"

primrec new_threads ::
  "nat \<Rightarrow> ('s, 'cb, 'z) tcp_net_scheme \<Rightarrow> (ptr list \<times> ('s, 'cb, 'z) tcp_net_scheme) res" where
  "new_threads 0 w = Inr ([], w)"
| "new_threads (Suc n) w =
     bind_res (new_thread w) (\<lambda>(p, w).
     bind_res (new_threads n w) (\<lambda>(ps, w). Inr (p # ps, w)))"

definition upd_thread ::
  "ptr \<Rightarrow> (LibeventThread \<Rightarrow> LibeventThread) \<Rightarrow> ('s, 'z) net_scheme \<Rightarrow> ('s, 'z) net_scheme res" where
  "upd_thread p f w =
     bind_res (deref (lthreads w) p) (\<lambda>t. Inr (w\<lparr>lthreads := (lthreads w)(p \<mapsto> f t)\<rparr>))"

definition upd_conn ::
  "ptr \<Rightarrow> (Conn \<Rightarrow> Conn) \<Rightarrow> ('s, 'z) net_scheme \<Rightarrow> ('s, 'z) net_scheme res" where
  "upd_conn p f w = bind_res (upd_Conn p f (store w)) (\<lambda>st. Inr (w\<lparr>store := st\<rparr>))"

text \<open>
  \<open>bufferevent_socket_new\<close>, with the new bufferevent recorded as allocated until it is
  released.
\<close>

definition new_bev ::
  "'s event_ops \<Rightarrow> ptr \<Rightarrow> int \<Rightarrow> ('s, 'z) net_scheme \<Rightarrow> ptr \<times> ('s, 'z) net_scheme" where
  "new_bev V b fd w =
     (let (bev, s) = bufferevent_socket_new V b fd (ext w) in
      (bev, if bev = NULL then w\<lparr>ext := s\<rparr>
            else w\<lparr>ext := s, live_bevs := insert bev (live_bevs w)\<rparr>))"

text \<open>The owner of a connection's thread: \<open>conn->getThread()->tcp_server\<close> and \<open>->tcp_client\<close>.\<close>

definition server_of :: "ptr \<Rightarrow> ('s, 'cb, 'z) tcp_net_scheme \<Rightarrow> 'cb TcpServer res" where
  "server_of thread w =
     bind_res (deref (lthreads w) thread) (\<lambda>t.
       case lt_owner t of
         Server_owner p \<Rightarrow> deref (servers w) p
       | _ \<Rightarrow> Inl Uninitialised)"

definition client_of :: "ptr \<Rightarrow> ('s, 'cb, 'z) tcp_net_scheme \<Rightarrow> 'cb TcpClient res" where
  "client_of thread w =
     bind_res (deref (lthreads w) thread) (\<lambda>t.
       case lt_owner t of
         Client_owner p \<Rightarrow> deref (clients w) p
       | _ \<Rightarrow> Inl Uninitialised)"

subsection \<open>The connections of a set of threads\<close>

text \<open>
  \<open>threads_inv qs ts w\<close>: each thread \<open>t\<close> of \<open>ts\<close> is alive and its queue represents the list
  \<open>qs t\<close>; the queues share no node; every queued connection belongs to its thread and has an
  allocated bufferevent of its own.
\<close>

definition qnodes :: "(ptr \<Rightarrow> ptr list) \<Rightarrow> ('s, 'z) net_scheme \<Rightarrow> ptr \<Rightarrow> ptr set" where
  "qnodes qs w t = (case lthreads w t of None \<Rightarrow> {} | Some th \<Rightarrow> set (nodes (connect_queue th) (qs t)))"

definition conns :: "(ptr \<Rightarrow> ptr list) \<Rightarrow> ptr list \<Rightarrow> ptr set" where
  "conns qs ts = (\<Union>t \<in> set ts. set (qs t))"

definition bev_of :: "('s, 'z) net_scheme \<Rightarrow> ptr \<Rightarrow> ptr" where
  "bev_of w c = (case cells (store w) c of None \<Rightarrow> NULL | Some k \<Rightarrow> conn_bev k)"

definition conn_ok :: "('s, 'z) net_scheme \<Rightarrow> ptr \<Rightarrow> ptr \<Rightarrow> bool" where
  "conn_ok w t c \<longleftrightarrow> (\<exists>fd bev rb wb.
     map_option conn_data (cells (store w) c) = Some (fd, t, bev, rb, wb) \<and> bev \<noteq> NULL \<and> bev \<in> live_bevs w)"

definition threads_inv :: "(ptr \<Rightarrow> ptr list) \<Rightarrow> ptr list \<Rightarrow> ('s, 'z) net_scheme \<Rightarrow> bool" where
  "threads_inv qs ts w \<longleftrightarrow> store_ok (store w) \<and> distinct ts \<and> NULL \<notin> set ts \<and>
     (\<forall>t \<in> set ts. \<exists>th. lthreads w t = Some th \<and> queue_rep (connect_queue th) (store w) (qs t)) \<and>
     (\<forall>t \<in> set ts. \<forall>u \<in> set ts. t \<noteq> u \<longrightarrow> qnodes qs w t \<inter> qnodes qs w u = {}) \<and>
     (\<forall>t \<in> set ts. \<forall>c \<in> set (qs t). conn_ok w t c) \<and>
     inj_on (bev_of w) (conns qs ts)"

lemma bev_of_payload: "bev_of w c = (case map_option conn_data (cells (store w) c) of
    None \<Rightarrow> NULL | Some (fd, t, bev, rb, wb) \<Rightarrow> bev)"
  by (simp add: bev_of_def conn_data_def split: option.split)

lemma threads_inv_queue:
  assumes "threads_inv qs ts w" and "t \<in> set ts"
  obtains th where "lthreads w t = Some th" and "queue_rep (connect_queue th) (store w) (qs t)" and "t \<noteq> NULL"
    and "store_ok (store w)"
  using assms unfolding threads_inv_def by fastforce

text \<open>Changing the library's state, or the conn_data of no connection, does not matter.\<close>

lemma threads_inv_frame:
  assumes "threads_inv qs ts w" and "store w' = store w" and "lthreads w' = lthreads w"
    and "live_bevs w \<subseteq> live_bevs w'"
  shows "threads_inv qs ts w'"
proof -
  have "qnodes qs w' = qnodes qs w" "bev_of w' = bev_of w"
    by (simp_all add: qnodes_def bev_of_def fun_eq_iff assms(2,3))
  moreover have "conn_ok w t c \<Longrightarrow> conn_ok w' t c" for t c
    using assms(2,4) by (auto simp: conn_ok_def)
  ultimately show ?thesis
    using assms(1) by (simp add: threads_inv_def assms(2,3))
qed

text \<open>Replacing one thread's queue and the store, with the other threads' nodes unchanged.\<close>

lemma threads_inv_update:
  assumes inv: "threads_inv qs ts w" and t: "t \<in> set ts" "lthreads w t = Some th"
    and st: "store_ok st" "queue_rep q st xs"
    and others: "\<And>u p. u \<in> set ts \<Longrightarrow> u \<noteq> t \<Longrightarrow> p \<in> qnodes qs w u \<Longrightarrow>
       cells st p = cells (store w) p \<and> p \<notin> set (nodes q xs)"
    and data: "\<And>c. c \<in> set xs \<Longrightarrow> conn_ok (w\<lparr>store := st, live_bevs := bs\<rparr>) t c"
    and bevs: "\<And>u c. u \<in> set ts \<Longrightarrow> u \<noteq> t \<Longrightarrow> c \<in> set (qs u) \<Longrightarrow> bev_of w c \<in> bs"
    and inj: "inj_on (bev_of (w\<lparr>store := st\<rparr>)) (conns (qs(t := xs)) ts)"
  shows "threads_inv (qs(t := xs)) ts
     (w\<lparr>store := st, lthreads := (lthreads w)(t \<mapsto> th\<lparr>connect_queue := q\<rparr>), live_bevs := bs\<rparr>)"
    (is "threads_inv ?qs ts ?w")
proof -
  have thr: "\<exists>th. lthreads ?w u = Some th \<and> queue_rep (connect_queue th) (store ?w) (?qs u)" if u: "u \<in> set ts" for u
  proof (cases "u = t")
    case True
    then show ?thesis using st(2) by simp
  next
    case False
    obtain thu where thu: "lthreads w u = Some thu" "queue_rep (connect_queue thu) (store w) (qs u)"
      by (rule threads_inv_queue [OF inv u])
    then have "queue_rep (connect_queue thu) st (qs u) = queue_rep (connect_queue thu) (store w) (qs u)"
      using others [OF u False] by (intro queue_rep_cong) (simp add: qnodes_def)
    with thu False show ?thesis by simp
  qed
  have qn: "qnodes ?qs ?w u = (if u = t then set (nodes q xs) else qnodes qs w u)" for u
    by (simp add: qnodes_def split: option.split)
  have dis: "qnodes ?qs ?w u \<inter> qnodes ?qs ?w v = {}" if "u \<in> set ts" "v \<in> set ts" "u \<noteq> v" for u v
    using that inv others [of u] others [of v] by (auto simp: qn threads_inv_def)
  have ok: "conn_ok ?w u c" if u: "u \<in> set ts" and c: "c \<in> set (?qs u)" for u c
  proof (cases "u = t")
    case True
    then show ?thesis using data [of c] c by (simp add: conn_ok_def)
  next
    case False
    then have "conn_ok w u c" "c \<in> set (qs u)" and n: "c \<in> qnodes qs w u"
      using inv u c by (auto simp: threads_inv_def qnodes_def nodes_def split: option.split)
    moreover have "cells st c = cells (store w) c"
      using others [OF u False n] by simp
    ultimately show ?thesis
      using bevs [OF u False, of c] by (auto simp: conn_ok_def bev_of_payload)
  qed
  have "inj_on (bev_of ?w) (conns ?qs ts)"
    using inj by (simp add: bev_of_def cong: inj_on_cong)
  with thr dis ok st(1) inv show ?thesis
    by (auto simp: threads_inv_def)
qed

lemma qnodes_Some: "lthreads w t = Some th \<Longrightarrow> qnodes qs w t = set (nodes (connect_queue th) (qs t))"
  by (simp add: qnodes_def)

lemma inv_conn_ok:
  "threads_inv qs ts w \<Longrightarrow> t \<in> set ts \<Longrightarrow> c \<in> set (qs t) \<Longrightarrow> conn_ok w t c"
  by (simp add: threads_inv_def)

lemma conn_okE:
  assumes "conn_ok w t c"
  obtains k where "cells (store w) c = Some k" and "conn_thread k = t" and "conn_bev k \<noteq> NULL"
    and "conn_bev k \<in> live_bevs w" and "bev_of w c = conn_bev k"
  using assms by (auto simp: conn_ok_def conn_data_def bev_of_def)

lemma inv_bev_live:
  "threads_inv qs ts w \<Longrightarrow> c \<in> conns qs ts \<Longrightarrow> bev_of w c \<in> live_bevs w"
  by (auto simp: conns_def dest!: inv_conn_ok elim!: conn_okE)

lemma inv_nodes_disjoint:
  "threads_inv qs ts w \<Longrightarrow> t \<in> set ts \<Longrightarrow> u \<in> set ts \<Longrightarrow> u \<noteq> t \<Longrightarrow> p \<in> qnodes qs w u \<Longrightarrow> p \<notin> qnodes qs w t"
  unfolding threads_inv_def by blast

lemma inv_node_alive:
  assumes "threads_inv qs ts w" "u \<in> set ts" "p \<in> qnodes qs w u"
  shows "cells (store w) p \<noteq> None"
  by (rule threads_inv_queue [OF assms(1,2)]) (use assms(3) in \<open>auto simp: qnodes_def queue_rep_def\<close>)

lemma conns_upd: "t \<in> set ts \<Longrightarrow> conns (qs(t := xs)) ts = set xs \<union> (\<Union>u \<in> set ts - {t}. set (qs u))"
  by (auto simp: conns_def split: if_splits)

lemma inv_conn_node:
  assumes "threads_inv qs ts w" "t \<in> set ts" "c \<in> set (qs t)"
  shows "c \<in> qnodes qs w t"
  by (rule threads_inv_queue [OF assms(1,2)]) (simp add: qnodes_def nodes_def assms(3))

lemma inv_queues_disjoint:
  assumes "threads_inv qs ts w" "t \<in> set ts" "u \<in> set ts" "u \<noteq> t" "c \<in> set (qs t)"
  shows "c \<notin> set (qs u)"
  using inv_conn_node [of qs ts w u c] inv_conn_node [of qs ts w t c] inv_nodes_disjoint [of qs ts w t u c] assms
  by blast

text \<open>Removing a queued connection and forgetting its bufferevent.\<close>

lemma conns_remove:
  assumes inv: "threads_inv qs ts w" and t: "t \<in> set ts" and c: "c \<in> set (qs t)"
    and d: "d \<in> conns (qs(t := remove1 c (qs t))) ts"
  shows "d \<in> conns qs ts" "d \<noteq> c" "bev_of w d \<noteq> bev_of w c" "bev_of w d \<in> live_bevs w - {bev_of w c}"
proof -
  have "distinct (qs t)"
    by (rule threads_inv_queue [OF inv t]) (simp add: queue_rep_def nodes_def)
  then show dc: "d \<in> conns qs ts" "d \<noteq> c"
    using d inv_queues_disjoint [OF inv t _ _ c] t by (auto simp: conns_def split: if_splits)
  have "c \<in> conns qs ts"
    using t c by (auto simp: conns_def)
  then show ne: "bev_of w d \<noteq> bev_of w c"
    using dc inv by (auto simp: threads_inv_def dest: inj_onD)
  then show "bev_of w d \<in> live_bevs w - {bev_of w c}"
    using inv_bev_live [OF inv dc(1)] by simp
qed

lemma threads_inv_delete:
  assumes inv: "threads_inv qs ts w" and t: "t \<in> set ts" and c: "c \<in> set (qs t)"
  obtains th q st where "lthreads w t = Some th"
    and "thread_deleteConn t c w = Inr (w\<lparr>store := st, lthreads := (lthreads w)(t \<mapsto> th\<lparr>connect_queue := q\<rparr>)\<rparr>)"
    and "threads_inv (qs(t := remove1 c (qs t))) ts
       (w\<lparr>store := st, lthreads := (lthreads w)(t \<mapsto> th\<lparr>connect_queue := q\<rparr>),
          live_bevs := live_bevs w - {bev_of w c}\<rparr>)"
    and "cells st c = None" and "deleteConn c (connect_queue th) (store w) = Inr (q, st)"
proof -
  obtain th where th: "lthreads w t = Some th" "queue_rep (connect_queue th) (store w) (qs t)" "t \<noteq> NULL" "store_ok (store w)"
    by (rule threads_inv_queue [OF inv t])
  obtain q st where d: "deleteConn c (connect_queue th) (store w) = Inr (q, st)" "queue_rep q st (remove1 c (qs t))"
      "head q = head (connect_queue th)" "tail q = tail (connect_queue th)" "next_addr st = next_addr (store w)"
      "cells st c = None" "\<forall>p. p \<notin> set (nodes (connect_queue th) (qs t)) \<longrightarrow> cells st p = cells (store w) p"
      "\<forall>p. p \<noteq> c \<longrightarrow> (cells st p = None) = (cells (store w) p = None)"
    using deleteConn_rep [OF th(2) c] by blast
  note pay = deleteConn_payload [OF th(2) c d(1)]
  have sub: "set (nodes q (remove1 c (qs t))) \<subseteq> qnodes qs w t"
    using set_remove1_subset [of c "qs t"] by (auto simp: qnodes_Some [OF th(1)] nodes_def d(3,4))
  note rest = conns_remove [OF inv t c]
  have same: "bev_of (w\<lparr>store := st\<rparr>) d = bev_of w d" if "d \<noteq> c" for d
    using pay that by (simp add: bev_of_payload)
  have "threads_inv (qs(t := remove1 c (qs t))) ts
       (w\<lparr>store := st, lthreads := (lthreads w)(t \<mapsto> th\<lparr>connect_queue := q\<rparr>),
          live_bevs := live_bevs w - {bev_of w c}\<rparr>)"
  proof (rule threads_inv_update [OF inv t th(1) _ d(2)])
    show "store_ok st"
      using store_ok_delete [OF th(4) d(5,8,6)] .
    show "cells st p = cells (store w) p \<and> p \<notin> set (nodes q (remove1 c (qs t)))"
      if "u \<in> set ts" "u \<noteq> t" "p \<in> qnodes qs w u" for u p
      using inv_nodes_disjoint [OF inv t that] d(7) sub by (auto simp: qnodes_Some [OF th(1)])
    show "conn_ok (w\<lparr>store := st, live_bevs := live_bevs w - {bev_of w c}\<rparr>) t d" if "d \<in> set (remove1 c (qs t))" for d
    proof -
      have "d \<in> set (qs t)" "d \<in> conns (qs(t := remove1 c (qs t))) ts"
        using that t set_remove1_subset [of c "qs t"] by (auto simp: conns_upd)
      with rest(2,3) [of d] inv_conn_ok [OF inv t, of d] pay show ?thesis
        by (auto simp: conn_ok_def bev_of_payload)
    qed
    show "bev_of w d \<in> live_bevs w - {bev_of w c}" if "u \<in> set ts" "u \<noteq> t" "d \<in> set (qs u)" for u d
      using rest [of d] that t by (auto simp: conns_upd)
    have "inj_on (bev_of w) (conns qs ts)"
      using inv by (simp add: threads_inv_def)
    then show "inj_on (bev_of (w\<lparr>store := st\<rparr>)) (conns (qs(t := remove1 c (qs t))) ts)"
      using rest same by (auto simp: inj_on_def)
  qed
  then show ?thesis
    using that th d by (simp add: thread_deleteConn_def)
qed

text \<open>
  A new connection on thread \<open>t\<close> with a bufferevent that no connection uses, as \<open>notifyHandler\<close>
  makes it.
\<close>

lemma insertConn_with_bev:
  assumes rep: "queue_rep q0 s xs" and ok: "store_ok s"
  obtains q st st' where "insertConn fd t q0 s = Inr (next_addr s, q, st)"
    and "upd_Conn (next_addr s) (\<lambda>c. c\<lparr>conn_bev := bev\<rparr>) st = Inr st'"
    and "upd_Conn (next_addr s) (\<lambda>c. c\<lparr>conn_thread := t\<rparr>) st' = Inr st'"
    and "queue_rep q st' (next_addr s # xs)" and "store_ok st'"
    and "nodes q = nodes q0" and "getCount q = getCount q0 + 1"
    and "\<forall>p. p \<notin> set (nodes q0 xs) \<longrightarrow> p \<noteq> next_addr s \<longrightarrow> cells st' p = cells s p"
    and "\<forall>p. map_option conn_data (cells st' p) =
      (if p = next_addr s then Some (fd, t, bev, NULL, NULL) else map_option conn_data (cells s p))"
proof -
  let ?c = "next_addr s"
  obtain q st where i: "insertConn fd t q0 s = Inr (?c, q, st)" "queue_rep q st (?c # xs)" "store_ok st"
      "head q = head q0" "tail q = tail q0"
      "\<forall>p. p \<notin> set (nodes q0 xs) \<longrightarrow> p \<noteq> ?c \<longrightarrow> cells st p = cells s p"
    using insertConn_rep [OF rep ok, of fd t] by blast
  note pay = insertConn_payload [OF rep ok i(1)]
  obtain k where k: "cells st ?c = Some k" "conn_thread k = t" "conn_bev k = NULL"
      "conn_fd k = fd" "conn_readBuf k = NULL" "conn_writeBuf k = NULL"
    using pay by (auto simp: conn_data_def)
  define st' where "st' = st\<lparr>cells := (cells st)(?c \<mapsto> k\<lparr>conn_bev := bev\<rparr>)\<rparr>"
  have c0: "?c \<noteq> NULL"
    using ok by (simp add: store_ok_def)
  have kt: "k\<lparr>conn_bev := bev, conn_thread := t\<rparr> = k\<lparr>conn_bev := bev\<rparr>"
    using k(2) by (cases k) simp
  show thesis
  proof (rule that [OF i(1), of st'])
    show "upd_Conn ?c (\<lambda>c. c\<lparr>conn_bev := bev\<rparr>) st = Inr st'" "upd_Conn ?c (\<lambda>c. c\<lparr>conn_thread := t\<rparr>) st' = Inr st'"
      using k(1) c0 kt by (simp_all add: upd_Conn_def st'_def)
    show "queue_rep q st' (?c # xs)"
      by (rule queue_rep_links [OF _ i(2)]) (use i(2) k(1) in \<open>auto simp: st'_def nxt_def prv_def queue_rep_def\<close>)
    show "store_ok st'"
      using i(3) k(1) by (auto simp: store_ok_def st'_def)
    show "getCount q = getCount q0 + 1"
      using i(2) rep by (simp add: queue_rep_def getCount_def)
    show "nodes q = nodes q0"
      using i(4,5) by (simp add: nodes_def fun_eq_iff)
    show "\<forall>p. p \<notin> set (nodes q0 xs) \<longrightarrow> p \<noteq> ?c \<longrightarrow> cells st' p = cells s p"
      using i(6) by (simp add: st'_def)
    show "\<forall>p. map_option conn_data (cells st' p) =
        (if p = ?c then Some (fd, t, bev, NULL, NULL) else map_option conn_data (cells s p))"
      using pay k by (simp add: st'_def conn_data_def)
  qed
qed

lemma threads_inv_insert:
  assumes inv: "threads_inv qs ts w" and t: "t \<in> set ts"
    and bev: "bev \<noteq> NULL" "bev \<in> live_bevs w" "\<And>c. c \<in> conns qs ts \<Longrightarrow> bev_of w c \<noteq> bev"
  obtains th q st st' where "lthreads w t = Some th"
    and "thread_insertConn t fd w = Inr (next_addr (store w),
       w\<lparr>store := st, lthreads := (lthreads w)(t \<mapsto> th\<lparr>connect_queue := q\<rparr>)\<rparr>)"
    and "upd_Conn (next_addr (store w)) (\<lambda>c. c\<lparr>conn_bev := bev\<rparr>) st = Inr st'"
    and "upd_Conn (next_addr (store w)) (\<lambda>c. c\<lparr>conn_thread := t\<rparr>) st' = Inr st'"
    and "threads_inv (qs(t := next_addr (store w) # qs t)) ts
       (w\<lparr>store := st', lthreads := (lthreads w)(t \<mapsto> th\<lparr>connect_queue := q\<rparr>)\<rparr>)"
    and "map_option conn_data (cells st' (next_addr (store w))) = Some (fd, t, bev, NULL, NULL)"
    and "getCount q = getCount (connect_queue th) + 1"
proof -
  let ?c = "next_addr (store w)"
  obtain th where th: "lthreads w t = Some th" "queue_rep (connect_queue th) (store w) (qs t)" "t \<noteq> NULL" "store_ok (store w)"
    by (rule threads_inv_queue [OF inv t])
  obtain q st st' where i: "insertConn fd t (connect_queue th) (store w) = Inr (?c, q, st)"
      "upd_Conn ?c (\<lambda>c. c\<lparr>conn_bev := bev\<rparr>) st = Inr st'" "upd_Conn ?c (\<lambda>c. c\<lparr>conn_thread := t\<rparr>) st' = Inr st'"
      "queue_rep q st' (?c # qs t)" "store_ok st'" "nodes q = nodes (connect_queue th)"
      "getCount q = getCount (connect_queue th) + 1"
    and out: "\<forall>p. p \<notin> set (nodes (connect_queue th) (qs t)) \<longrightarrow> p \<noteq> ?c \<longrightarrow> cells st' p = cells (store w) p"
    and pay: "\<forall>p. map_option conn_data (cells st' p) =
      (if p = ?c then Some (fd, t, bev, NULL, NULL) else map_option conn_data (cells (store w) p))"
    by (rule insertConn_with_bev [OF th(2,4), of fd t bev])
  have c0: "cells (store w) ?c = None"
    using th(4) by (simp add: store_ok_def)
  have fresh: "?c \<notin> conns qs ts"
    using inv_node_alive [OF inv] inv_conn_node [OF inv] c0 by (fastforce simp: conns_def)
  have same: "bev_of (w\<lparr>store := st'\<rparr>) d = (if d = ?c then bev else bev_of w d)" for d
    by (simp add: bev_of_payload pay)
  have upd_c: "conns (qs(t := ?c # qs t)) ts = insert ?c (conns qs ts)"
    using t by (auto simp: conns_def split: if_splits)
  have inj: "inj_on (bev_of w) (conns qs ts)"
    using inv by (simp add: threads_inv_def)
  have "threads_inv (qs(t := ?c # qs t)) ts
       (w\<lparr>store := st', lthreads := (lthreads w)(t \<mapsto> th\<lparr>connect_queue := q\<rparr>), live_bevs := live_bevs w\<rparr>)"
  proof (rule threads_inv_update [OF inv t th(1) i(5,4)])
    show "cells st' p = cells (store w) p \<and> p \<notin> set (nodes q (?c # qs t))"
      if "u \<in> set ts" "u \<noteq> t" "p \<in> qnodes qs w u" for u p
    proof -
      have "p \<noteq> ?c"
        using inv_node_alive [OF inv that(1,3)] c0 by auto
      moreover have "p \<notin> set (nodes (connect_queue th) (qs t))"
        using inv_nodes_disjoint [OF inv t that] by (simp add: qnodes_Some [OF th(1)])
      ultimately show ?thesis
        using out by (simp add: i(6)) (simp add: nodes_def)
    qed
    show "conn_ok (w\<lparr>store := st', live_bevs := live_bevs w\<rparr>) t d" if "d \<in> set (?c # qs t)" for d
      using that inv_conn_ok [OF inv t, of d] bev(1,2) spec [OF pay, of d] by (auto simp: conn_ok_def)
    show "bev_of w d \<in> live_bevs w" if "u \<in> set ts" "u \<noteq> t" "d \<in> set (qs u)" for u d
      using inv_bev_live [OF inv, of d] that by (auto simp: conns_def)
    show "inj_on (bev_of (w\<lparr>store := st'\<rparr>)) (conns (qs(t := ?c # qs t)) ts)"
      using inj fresh bev(3) by (auto simp: upd_c inj_on_def same)
  qed
  then show ?thesis
    using that [OF th(1) _ i(2,3)] th i(1,7) spec [OF pay, of ?c] by (simp add: thread_insertConn_def)
qed

text \<open>Updating the buffer pointers of a connection.\<close>

lemma threads_inv_buffers:
  assumes inv: "threads_inv qs ts w" and c: "cells (store w) c = Some k"
    and f: "\<And>k. conn_thread (f k) = conn_thread k \<and> conn_bev (f k) = conn_bev k \<and>
       conn_pre (f k) = conn_pre k \<and> conn_next (f k) = conn_next k"
  shows "threads_inv qs ts (w\<lparr>store := (store w)\<lparr>cells := (cells (store w))(c \<mapsto> f k)\<rparr>\<rparr>)"
    (is "threads_inv qs ts ?w")
proof -
  have q: "queue_rep q (store ?w) xs" if "queue_rep q (store w) xs" for q xs
    by (rule queue_rep_links [OF _ that]) (use that c f in \<open>auto simp: queue_rep_def nxt_def prv_def\<close>)
  have thr: "\<exists>th. lthreads ?w t = Some th \<and> queue_rep (connect_queue th) (store ?w) (qs t)" if "t \<in> set ts" for t
    by (rule threads_inv_queue [OF inv that]) (use q in simp)
  have "qnodes qs ?w = qnodes qs w"
    by (simp add: qnodes_def fun_eq_iff)
  moreover have "bev_of ?w = bev_of w"
    using c f by (auto simp: bev_of_def fun_eq_iff)
  moreover have "conn_ok ?w t d" if "conn_ok w t d" for t d
    using that c f by (cases "d = c") (auto simp: conn_ok_def conn_data_def)
  moreover have "store_ok (store ?w)"
    using inv c by (auto simp: threads_inv_def store_ok_def)
  ultimately show ?thesis
    using inv thr by (simp only: threads_inv_def) blast
qed

end
