(* ===== verification/Tcp_Server.thy ===== *)
theory Tcp_Server
  imports Tcp_State Codec
begin

text \<open>
  \<open>src/tcpServer.cpp\<close>: the class \<open>TcpServer\<close>. Its methods are functions on the process state;
  the event loops that call the handlers are the step relation further down. A handler that
  calls a user callback takes the \<open>invoker\<close> as an argument and may not return if the callback
  does not.
\<close>

subsection \<open>Construction\<close>

definition EXIT_CODE :: int where "EXIT_CODE = - 1"

definition setupThread ::
  "'s event_ops \<Rightarrow> ptr \<Rightarrow> ptr \<Rightarrow> ('s, 'cb, 'z) tcp_net_scheme \<Rightarrow> ('s, 'cb, 'z) tcp_net_scheme res" where
  "setupThread V this thread w =
     bind_res (upd_thread thread (\<lambda>t. t\<lparr>lt_owner := Server_owner this\<rparr>) w) (\<lambda>w.
     let (b, s) = event_base_new V (ext w); w = w\<lparr>ext := s\<rparr> in
     bind_res (upd_thread thread (\<lambda>t. t\<lparr>base := b\<rparr>) w) (\<lambda>w.
     if b = NULL then Inl (Net_err (''child thread event_base_new error:'' @ error_string V (ext w)))
     else case sys_pipe V (ext w) of
       (None, s) \<Rightarrow> Inl (Net_err (''child thread pipe create error:'' @ error_string V s))
     | (Some (fd0, fd1), s) \<Rightarrow>
         bind_res (upd_thread thread (\<lambda>t. t\<lparr>notify_send_fd := fd1\<rparr>) (w\<lparr>ext := s\<rparr>)) (\<lambda>w.
         bind_res (upd_thread thread (\<lambda>t. t\<lparr>notify_recv_fd := fd0\<rparr>) w) (\<lambda>w.
         let (r, s) = notify_event_add V b fd0 thread (ext w) in
         if r = - 1 then Inl (Net_err (''child thread add event error:'' @ error_string V s))
         else Inr (w\<lparr>ext := s\<rparr>)))))"

primrec setupThreads ::
  "'s event_ops \<Rightarrow> ptr \<Rightarrow> ptr list \<Rightarrow> ('s, 'cb, 'z) tcp_net_scheme \<Rightarrow> ('s, 'cb, 'z) tcp_net_scheme res" where
  "setupThreads V this [] w = Inr w"
| "setupThreads V this (t # ts) w = bind_res (setupThread V this t w) (setupThreads V this ts)"

definition TcpServer_init ::
  "'s event_ops \<Rightarrow> ptr \<Rightarrow> nat \<Rightarrow> string \<Rightarrow> int \<Rightarrow> ('s, 'cb, 'z) tcp_net_scheme \<Rightarrow>
   ('s, 'cb, 'z) tcp_net_scheme res" where
  "TcpServer_init V this count ip port w =
     bind_res (new_thread w) (\<lambda>(main_base, w).
     bind_res (new_threads count w) (\<lambda>(ts, w).
     let w = w\<lparr>servers := (servers w)(this \<mapsto>
           \<lparr>srv_read_cb = None, srv_write_cb = None, srv_connect_cb = None, srv_event_cb = None,
            thread_count = count, srv_port = port, srv_ip = ip, srv_main_base = main_base, threads = ts\<rparr>)\<rparr> in
     bind_res (upd_thread main_base (\<lambda>t. t\<lparr>thread_id := pthread_self V (ext w)\<rparr>) w) (\<lambda>w.
     let (b, s) = event_base_new V (ext w) in
     bind_res (upd_thread main_base (\<lambda>t. t\<lparr>base := b\<rparr>) (w\<lparr>ext := s\<rparr>)) (\<lambda>w.
     if b = NULL then Inl (Net_err (''main thread event_base_new error:'' @ error_string V (ext w)))
     else setupThreads V this ts w))))"

definition upd_server ::
  "ptr \<Rightarrow> ('cb TcpServer \<Rightarrow> 'cb TcpServer) \<Rightarrow> ('s, 'cb, 'z) tcp_net_scheme \<Rightarrow> ('s, 'cb, 'z) tcp_net_scheme res" where
  "upd_server this f w =
     bind_res (deref (servers w) this) (\<lambda>s. Inr (w\<lparr>servers := (servers w)(this \<mapsto> f s)\<rparr>))"

definition setReadCallback where
  "setReadCallback this cb w = upd_server this (\<lambda>s. s\<lparr>srv_read_cb := cb\<rparr>) w"

definition setWriteCallback where
  "setWriteCallback this cb w = upd_server this (\<lambda>s. s\<lparr>srv_write_cb := cb\<rparr>) w"

definition setConnectionCallback where
  "setConnectionCallback this cb w = upd_server this (\<lambda>s. s\<lparr>srv_connect_cb := cb\<rparr>) w"

definition setEventCallback where
  "setEventCallback this cb w = upd_server this (\<lambda>s. s\<lparr>srv_event_cb := cb\<rparr>) w"

subsection \<open>Handlers\<close>

definition notifyHandler ::
  "'s event_ops \<Rightarrow> ('cb, ('s, 'cb, 'z) tcp_net_scheme) invoker \<Rightarrow> ptr \<Rightarrow>
   ('s, 'cb, 'z) tcp_net_scheme \<Rightarrow> ('s, 'cb, 'z) tcp_net_scheme res option" where
  "notifyHandler V I arg w =
     bind_ro (Some (deref (lthreads w) arg)) (\<lambda>thread.
     let (r, confd, s) = sys_read_int V (notify_recv_fd thread) (ext w); w = w\<lparr>ext := s\<rparr> in
     if r = - 1 then Some (Inr w)
     else if r \<noteq> 4 then Some (Inl Uninitialised)
     else if EXIT_CODE = confd then Some (Inr (w\<lparr>ext := event_base_loopbreak V (base thread) (ext w)\<rparr>))
     else
       let (bev, w) = new_bev V (base thread) confd w in
       if bev = NULL then Some (Inr w)
       else
         bind_ro (Some (thread_insertConn arg confd w)) (\<lambda>(conn, w).
         bind_ro (Some (upd_conn conn (\<lambda>c. c\<lparr>conn_bev := bev\<rparr>) w)) (\<lambda>w.
         bind_ro (Some (upd_conn conn (\<lambda>c. c\<lparr>conn_thread := arg\<rparr>) w)) (\<lambda>w.
         let w = w\<lparr>ext := bufferevent_setcb V bev conn (ext w)\<rparr>;
             w = w\<lparr>ext := bufferevent_enable V bev (ext w)\<rparr> in
         bind_ro (Some (server_of arg w)) (\<lambda>server.
         call_if (srv_connect_cb server) (\<lambda>cb. call_data I cb conn w) w)))))"

text \<open>Both buffer callbacks first fetch the bufferevent's buffers into the connection.\<close>

definition fetch_buffers ::
  "'s event_ops \<Rightarrow> ptr \<Rightarrow> ptr \<Rightarrow> ('s, 'z) net_scheme \<Rightarrow> ('s, 'z) net_scheme res" where
  "fetch_buffers V bev conn w =
     bind_res (upd_conn conn (\<lambda>c. c\<lparr>conn_readBuf := bufferevent_get_input V bev (ext w)\<rparr>) w) (\<lambda>w.
     upd_conn conn (\<lambda>c. c\<lparr>conn_writeBuf := bufferevent_get_output V bev (ext w)\<rparr>) w)"

definition bufferReadCb ::
  "'s event_ops \<Rightarrow> ('cb, ('s, 'cb, 'z) tcp_net_scheme) invoker \<Rightarrow> ptr \<Rightarrow> ptr \<Rightarrow>
   ('s, 'cb, 'z) tcp_net_scheme \<Rightarrow> ('s, 'cb, 'z) tcp_net_scheme res option" where
  "bufferReadCb V I bev data w =
     bind_ro (Some (fetch_buffers V bev data w)) (\<lambda>w.
     bind_ro (Some (getThread data w)) (\<lambda>thread.
     bind_ro (Some (server_of thread w)) (\<lambda>server.
     call_if (srv_read_cb server) (\<lambda>cb. call_data I cb data w) w)))"

definition bufferWriteCb ::
  "'s event_ops \<Rightarrow> ('cb, ('s, 'cb, 'z) tcp_net_scheme) invoker \<Rightarrow> ptr \<Rightarrow> ptr \<Rightarrow>
   ('s, 'cb, 'z) tcp_net_scheme \<Rightarrow> ('s, 'cb, 'z) tcp_net_scheme res option" where
  "bufferWriteCb V I bev data w =
     (if bev = NULL \<or> data = NULL then Some (Inr w)
      else
        bind_ro (Some (fetch_buffers V bev data w)) (\<lambda>w.
        bind_ro (Some (getThread data w)) (\<lambda>thread.
        bind_ro (Some (server_of thread w)) (\<lambda>server.
        call_if (srv_write_cb server) (\<lambda>cb. call_data I cb data w) w))))"

definition bufferEventCb ::
  "('cb, ('s, 'cb, 'z) tcp_net_scheme) invoker \<Rightarrow> ptr \<Rightarrow> int \<Rightarrow> ptr \<Rightarrow>
   ('s, 'cb, 'z) tcp_net_scheme \<Rightarrow> ('s, 'cb, 'z) tcp_net_scheme res option" where
  "bufferEventCb I bev events data w =
     bind_ro (Some (getThread data w)) (\<lambda>thread.
     bind_ro (Some (server_of thread w)) (\<lambda>server.
     bind_ro (call_if (srv_event_cb server) (\<lambda>cb. call_event I cb data events w) w) (\<lambda>w.
     bind_ro (Some (getThread data w)) (\<lambda>thread.
     bind_ro (Some (thread_deleteConn thread data w)) (\<lambda>w.
     Some (free_bev bev w))))))"

text \<open>The first thread with the fewest connections gets the new one.\<close>

definition thread_load :: "'cb TcpServer \<Rightarrow> nat \<Rightarrow> ('s, 'cb, 'z) tcp_net_scheme \<Rightarrow> uint64 res" where
  "thread_load server i w =
     (if length (threads server) \<le> i then Inl Out_of_bounds
      else bind_res (deref (lthreads w) (threads server ! i)) (\<lambda>t. Inr (getCount (connect_queue t))))"

primrec pick_thread ::
  "'cb TcpServer \<Rightarrow> nat list \<Rightarrow> nat \<Rightarrow> ('s, 'cb, 'z) tcp_net_scheme \<Rightarrow> nat res" where
  "pick_thread server [] num w = Inr num"
| "pick_thread server (i # is) num w =
     bind_res (thread_load server num w) (\<lambda>a.
     bind_res (thread_load server i w) (\<lambda>b.
     pick_thread server is (if b < a then i else num) w))"

definition acceptCb ::
  "'s event_ops \<Rightarrow> int \<Rightarrow> ptr \<Rightarrow> ('s, 'cb, 'z) tcp_net_scheme \<Rightarrow> ('s, 'cb, 'z) tcp_net_scheme res" where
  "acceptCb V fd user_data w =
     bind_res (deref (servers w) user_data) (\<lambda>server.
     bind_res (pick_thread server [0..<thread_count server] 0 w) (\<lambda>num.
     if length (threads server) \<le> num then Inl Out_of_bounds
     else
       bind_res (deref (lthreads w) (threads server ! num)) (\<lambda>t.
       let (r, s) = sys_write_int V (notify_send_fd t) fd (ext w) in Inr (w\<lparr>ext := s\<rparr>))))"

subsection \<open>Running and stopping\<close>

text \<open>
  \<open>event_base_dispatch\<close> runs an event loop; it is the argument \<open>dispatch\<close>. The started threads
  run \<open>threadProcess\<close>.
\<close>

definition threadProcess ::
  "(ptr \<Rightarrow> ('s, 'z) net_scheme \<Rightarrow> ('s, 'z) net_scheme res option) \<Rightarrow> ptr \<Rightarrow>
   ('s, 'z) net_scheme \<Rightarrow> ('s, 'z) net_scheme res option" where
  "threadProcess dispatch arg w =
     bind_ro (Some (deref (lthreads w) arg)) (\<lambda>thread. dispatch (base thread) w)"

primrec start_threads ::
  "'s event_ops \<Rightarrow> ptr list \<Rightarrow> ('s, 'cb, 'z) tcp_net_scheme \<Rightarrow> ('s, 'cb, 'z) tcp_net_scheme res" where
  "start_threads V [] w = Inr w"
| "start_threads V (t # ts) w =
     (let (r, tid, s) = pthread_create V t (ext w) in
      bind_res (upd_thread t (\<lambda>th. th\<lparr>thread_id := tid\<rparr>) (w\<lparr>ext := s\<rparr>)) (\<lambda>w.
      if r \<noteq> 0 then Inl (Net_err (''pthread_create error:'' @ error_string V s))
      else start_threads V ts w))"

definition server_addr :: "'s event_ops \<Rightarrow> string \<Rightarrow> bytes option" where
  "server_addr V ip = (if ip \<noteq> [] then inet_pton V ip else Some [0, 0, 0, 0])"

definition startRun ::
  "'s event_ops \<Rightarrow> (ptr \<Rightarrow> ('s, 'cb, 'z) tcp_net_scheme \<Rightarrow> ('s, 'cb, 'z) tcp_net_scheme res option) \<Rightarrow>
   ptr \<Rightarrow> ('s, 'cb, 'z) tcp_net_scheme \<Rightarrow> ('s, 'cb, 'z) tcp_net_scheme res option" where
  "startRun V dispatch this w =
     bind_ro (Some (deref (servers w) this)) (\<lambda>server.
     case server_addr V (srv_ip server) of
       None \<Rightarrow> Some (Inl (Net_err (''sokcet ip error:'' @ error_string V (ext w))))
     | Some addr \<Rightarrow>
         bind_ro (Some (deref (lthreads w) (srv_main_base server))) (\<lambda>m.
         let (listener, s) = evconnlistener_new_bind V (base m) this addr (srv_port server) (ext w) in
         if listener = NULL then Some (Inl (Net_err (''create listener error:'' @ error_string V s)))
         else
           bind_ro (Some (start_threads V (threads server) (w\<lparr>ext := s\<rparr>))) (\<lambda>w.
           bind_ro (dispatch (base m) w) (\<lambda>w.
           Some (Inr (w\<lparr>ext := evconnlistener_free V listener (ext w)\<rparr>))))))"

primrec quit_threads ::
  "'s event_ops \<Rightarrow> ptr list \<Rightarrow> ('s, 'cb, 'z) tcp_net_scheme \<Rightarrow> ('s, 'cb, 'z) tcp_net_scheme res" where
  "quit_threads V [] w = Inr w"
| "quit_threads V (t # ts) w =
     bind_res (deref (lthreads w) t) (\<lambda>th.
     let (r, s) = sys_write_int V (notify_send_fd th) EXIT_CODE (ext w) in quit_threads V ts (w\<lparr>ext := s\<rparr>))"

definition quit ::
  "'s event_ops \<Rightarrow> ptr \<Rightarrow> nat option \<Rightarrow> ('s, 'cb, 'z) tcp_net_scheme \<Rightarrow> ('s, 'cb, 'z) tcp_net_scheme res" where
  "quit V this tv w =
     bind_res (deref (servers w) this) (\<lambda>server.
     bind_res (quit_threads V (threads server) w) (\<lambda>w.
     bind_res (deref (lthreads w) (srv_main_base server)) (\<lambda>m.
     Inr (w\<lparr>ext := event_base_loopexit V (base m) tv (ext w)\<rparr>))))"

text \<open>Deleting a thread object runs the destructor of its queue.\<close>

definition delete_thread ::
  "ptr \<Rightarrow> ('s, 'z) net_scheme \<Rightarrow> ('s, 'z) net_scheme res option" where
  "delete_thread p w =
     bind_ro (Some (deref (lthreads w) p)) (\<lambda>t.
     bind_ro (ConnQueue_destroy (connect_queue t) (store w)) (\<lambda>st.
     Some (Inr (w\<lparr>store := st, lthreads := (lthreads w)(p := None)\<rparr>))))"

primrec delete_threads :: "ptr list \<Rightarrow> ('s, 'z) net_scheme \<Rightarrow> ('s, 'z) net_scheme res option" where
  "delete_threads [] w = Some (Inr w)"
| "delete_threads (p # ps) w = bind_ro (delete_thread p w) (delete_threads ps)"

primrec free_bases ::
  "'s event_ops \<Rightarrow> ptr list \<Rightarrow> ('s, 'z) net_scheme \<Rightarrow> ('s, 'z) net_scheme res" where
  "free_bases V [] w = Inr w"
| "free_bases V (t # ts) w =
     bind_res (deref (lthreads w) t) (\<lambda>th.
     free_bases V ts (w\<lparr>ext := event_base_free V (base th) (ext w)\<rparr>))"

definition TcpServer_destroy ::
  "'s event_ops \<Rightarrow> ptr \<Rightarrow> ('s, 'cb, 'z) tcp_net_scheme \<Rightarrow> ('s, 'cb, 'z) tcp_net_scheme res option" where
  "TcpServer_destroy V this w =
     bind_ro (Some (quit V this None w)) (\<lambda>w.
     bind_ro (Some (deref (servers w) this)) (\<lambda>server.
     bind_ro (Some (free_bases V (srv_main_base server # threads server) w)) (\<lambda>w.
     bind_ro (delete_thread (srv_main_base server) w) (\<lambda>w.
     bind_ro (delete_threads (rev (threads server)) w) (\<lambda>w.
     Some (Inr (w\<lparr>servers := (servers w)(this := None)\<rparr>)))))))"

subsection \<open>The laws of the event layer\<close>

text \<open>
  \<open>allocated s\<close> is the set of addresses the library has handed out for bufferevents; a new
  bufferevent gets a new address, no call gives one back while the process runs, and a read
  from a notification pipe yields one whole integer or an error.
\<close>

locale event_lib =
  fixes V :: "'s event_ops"
    and allocated :: "'s \<Rightarrow> ptr set"
  assumes socket_new_law: "bufferevent_socket_new V b fd s = (bev, s') \<Longrightarrow>
        allocated s \<subseteq> allocated s' \<and> (bev \<noteq> NULL \<longrightarrow> bev \<notin> allocated s \<and> bev \<in> allocated s')"
    and pipe_read_law: "sys_read_int V fd s = (r, v, s') \<Longrightarrow> (r = - 1 \<or> r = 4) \<and> allocated s \<subseteq> allocated s'"
    and pipe_write_law: "sys_write_int V fd v s = (r, s') \<Longrightarrow> allocated s \<subseteq> allocated s'"
    and keep_law:
        "allocated s \<subseteq> allocated (bufferevent_setcb V bev conn s)"
        "allocated s \<subseteq> allocated (bufferevent_enable V bev s)"
        "allocated s \<subseteq> allocated (event_base_loopbreak V eb s)"
        "allocated s \<subseteq> allocated (event_base_loopexit V eb tv s)"
    and setup_law:
        "event_base_new V s = (eb, s') \<Longrightarrow> allocated s \<subseteq> allocated s'"
        "sys_pipe V s = (fds, s') \<Longrightarrow> allocated s \<subseteq> allocated s'"
        "notify_event_add V eb fd t s = (r, s') \<Longrightarrow> allocated s \<subseteq> allocated s'"

subsection \<open>The invariant of a server\<close>

definition server_inv ::
  "('s \<Rightarrow> ptr set) \<Rightarrow> ptr \<Rightarrow> (ptr \<Rightarrow> ptr list) \<Rightarrow> ('s, 'cb, 'z) tcp_net_scheme \<Rightarrow> bool" where
  "server_inv allocated this qs w \<longleftrightarrow>
     (\<exists>server. servers w this = Some server \<and> this \<noteq> NULL \<and>
        length (threads server) = thread_count server \<and> 0 < thread_count server \<and>
        threads_inv qs (srv_main_base server # threads server) w \<and> qs (srv_main_base server) = [] \<and>
        (\<forall>t \<in> set (threads server). \<exists>th. lthreads w t = Some th \<and> lt_owner th = Server_owner this) \<and>
        live_bevs w \<subseteq> allocated (ext w))"

lemma server_invE:
  assumes "server_inv allocated this qs w"
  obtains server where "servers w this = Some server" and "this \<noteq> NULL"
    and "length (threads server) = thread_count server" and "0 < thread_count server"
    and "threads_inv qs (srv_main_base server # threads server) w" and "qs (srv_main_base server) = []"
    and "\<forall>t \<in> set (threads server). \<exists>th. lthreads w t = Some th \<and> lt_owner th = Server_owner this"
    and "live_bevs w \<subseteq> allocated (ext w)"
  using assms by (auto simp: server_inv_def)

text \<open>The connections a server serves, read off the queues in memory.\<close>

definition serves :: "ptr \<Rightarrow> ('s, 'cb, 'z) tcp_net_scheme \<Rightarrow> ptr \<Rightarrow> ptr \<Rightarrow> bool" where
  "serves this w t c \<longleftrightarrow>
     (\<exists>server th xs. servers w this = Some server \<and> t \<in> set (threads server) \<and> lthreads w t = Some th \<and>
        queue_rep (connect_queue th) (store w) xs \<and> c \<in> set xs)"

lemma linked_unique:
  "linked st (a # xs @ [z]) \<Longrightarrow> linked st (a # ys @ [z]) \<Longrightarrow> z \<notin> set xs \<Longrightarrow> z \<notin> set ys \<Longrightarrow> xs = ys"
proof (induction xs arbitrary: a ys)
  case Nil
  then show ?case by (cases ys) auto
next
  case (Cons x xs)
  then show ?case by (cases ys) auto
qed

lemma queue_rep_unique: "queue_rep q st xs \<Longrightarrow> queue_rep q st ys \<Longrightarrow> xs = ys"
  unfolding queue_rep_def nodes_def by (rule linked_unique [of st "head q" xs "tail q" ys]) auto

lemma serves_iff:
  assumes inv: "server_inv allocated this qs w" and s: "servers w this = Some server"
  shows "serves this w t c \<longleftrightarrow> t \<in> set (threads server) \<and> c \<in> set (qs t)"
proof -
  obtain sv where "servers w this = Some sv"
    and ti: "threads_inv qs (srv_main_base sv # threads sv) w"
    by (rule server_invE [OF inv])
  with s have sv: "sv = server" by simp
  have th: "\<exists>th. lthreads w t = Some th \<and> queue_rep (connect_queue th) (store w) (qs t)" if "t \<in> set (threads server)"
    by (rule threads_inv_queue [OF ti, of t]) (use that sv in auto)
  show ?thesis
  proof
    assume "serves this w t c"
    then obtain th' xs where "t \<in> set (threads server)" "lthreads w t = Some th'"
        "queue_rep (connect_queue th') (store w) xs" "c \<in> set xs"
      using s by (auto simp: serves_def)
    with th queue_rep_unique [of "connect_queue th'" "store w" xs "qs t"]
    show "t \<in> set (threads server) \<and> c \<in> set (qs t)" by auto
  next
    assume "t \<in> set (threads server) \<and> c \<in> set (qs t)"
    with th s show "serves this w t c" by (auto simp: serves_def)
  qed
qed

text \<open>What of the state the invariant depends on.\<close>

text \<open>The invariant does not depend on the callbacks of the server.\<close>

lemma server_inv_callbacks:
  assumes "server_inv allocated this qs w"
    and "store w' = store w" "lthreads w' = lthreads w" "live_bevs w' = live_bevs w"
    and "allocated (ext w) \<subseteq> allocated (ext w')"
    and "servers w this = Some sv" "servers w' this = Some sv'"
    and "threads sv' = threads sv" "thread_count sv' = thread_count sv" "srv_main_base sv' = srv_main_base sv"
  shows "server_inv allocated this qs w'"
  using assms(1)
proof (rule server_invE)
  fix server
  assume s: "servers w this = Some server" "this \<noteq> NULL" "length (threads server) = thread_count server" "0 < thread_count server"
    "threads_inv qs (srv_main_base server # threads server) w" "qs (srv_main_base server) = []"
    "\<forall>t \<in> set (threads server). \<exists>th. lthreads w t = Some th \<and> lt_owner th = Server_owner this"
    "live_bevs w \<subseteq> allocated (ext w)"
  have "threads_inv qs (srv_main_base server # threads server) w'"
    using threads_inv_frame [OF s(5) assms(2,3)] assms(4) by simp
  with s assms show ?thesis
    by (auto simp: server_inv_def)
qed

lemma server_inv_frame:
  assumes "server_inv allocated this qs w"
    and "store w' = store w" "lthreads w' = lthreads w" "servers w' = servers w"
    and "live_bevs w' = live_bevs w" and "allocated (ext w) \<subseteq> allocated (ext w')"
  shows "server_inv allocated this qs w'"
  by (rule server_invE [OF assms(1)], rule server_inv_callbacks [OF assms(1-3,5,6)]) (use assms(4) in auto)

text \<open>Replacing the queue of one thread of the server.\<close>

lemma server_inv_queue:
  assumes inv: "server_inv allocated this qs w" and s: "servers w this = Some server" and t: "t \<in> set (threads server)"
    and "lthreads w t = Some th" and "lthreads w' = (lthreads w)(t \<mapsto> th\<lparr>connect_queue := q\<rparr>)"
    and "servers w' = servers w" and "threads_inv (qs(t := xs)) (srv_main_base server # threads server) w'"
    and "live_bevs w' \<subseteq> allocated (ext w')"
  shows "server_inv allocated this (qs(t := xs)) w'"
  using inv
proof (rule server_invE)
  fix sv
  assume sv: "servers w this = Some sv" "this \<noteq> NULL" "length (threads sv) = thread_count sv" "0 < thread_count sv"
    "threads_inv qs (srv_main_base sv # threads sv) w" "qs (srv_main_base sv) = []"
    "\<forall>t \<in> set (threads sv). \<exists>th. lthreads w t = Some th \<and> lt_owner th = Server_owner this"
  have "srv_main_base server \<noteq> t"
    using sv(1,5) s t by (auto simp: threads_inv_def)
  then show ?thesis
    using sv assms by (auto simp: server_inv_def)
qed

subsection \<open>The handlers keep the invariant\<close>

lemma server_of_served:
  assumes "server_inv allocated this qs w" "servers w this = Some server" "t \<in> set (threads server)"
  shows "server_of t w = Inr server"
proof -
  obtain sv where "servers w this = Some sv" "this \<noteq> NULL"
      "threads_inv qs (srv_main_base sv # threads sv) w"
      "\<forall>t \<in> set (threads sv). \<exists>th. lthreads w t = Some th \<and> lt_owner th = Server_owner this"
    by (rule server_invE [OF assms(1)])
  moreover from this have "t \<noteq> NULL"
    using assms(2,3) by (auto simp: threads_inv_def)
  ultimately show ?thesis
    using assms(2,3) by (auto simp: server_of_def)
qed

context event_lib
begin

text \<open>A descriptor other than the exit code read from the pipe becomes a served connection.\<close>

lemma notify_attach:
  assumes inv: "server_inv allocated this qs w" and server: "servers w this = Some server"
    and t: "t \<in> set (threads server)" "lthreads w t = Some th"
    and r: "sys_read_int V (notify_recv_fd th) (ext w) = (4, fd, s1)" "fd \<noteq> EXIT_CODE"
    and b: "bufferevent_socket_new V (base th) fd s1 = (bev, s2)" "bev \<noteq> NULL"
  obtains w' where
    "notifyHandler V I t w = call_if (srv_connect_cb server) (\<lambda>cb. call_data I cb (next_addr (store w)) w') w'"
    and "server_inv allocated this (qs(t := next_addr (store w) # qs t)) w'"
    and "serves this w' t (next_addr (store w))"
    and "map_option conn_data (cells (store w') (next_addr (store w))) = Some (fd, t, bev, NULL, NULL)"
    and "live_bevs w' = insert bev (live_bevs w)" and "bev \<notin> live_bevs w"
    and "servers w' = servers w" and "next_obj w' = next_obj w" and "tcp_net.more w' = tcp_net.more w"
    and "\<exists>q. lthreads w' t = Some (th\<lparr>connect_queue := q\<rparr>)"
    and "ext w' = bufferevent_enable V bev (bufferevent_setcb V bev (next_addr (store w)) s2)"
proof -
  obtain sv where "servers w this = Some sv" and sv: "threads_inv qs (srv_main_base sv # threads sv) w"
      "live_bevs w \<subseteq> allocated (ext w)"
    by (rule server_invE [OF inv])
  then have ti: "threads_inv qs (srv_main_base server # threads server) w" and tn: "t \<noteq> NULL"
    using server t by (auto simp: threads_inv_def)
  let ?w2 = "w\<lparr>ext := s2, live_bevs := insert bev (live_bevs w)\<rparr>" and ?c = "next_addr (store w)"
  have al1: "allocated (ext w) \<subseteq> allocated s1" "allocated s1 \<subseteq> allocated s2" "bev \<notin> allocated s1" "bev \<in> allocated s2"
    using pipe_read_law [OF r(1)] socket_new_law [OF b(1)] b(2) by auto
  then have nb: "bev \<notin> live_bevs w"
    using sv(2) by blast
  have ti2: "threads_inv qs (srv_main_base server # threads server) ?w2"
    by (rule threads_inv_frame [OF ti]) auto
  have nu: "bev_of ?w2 d \<noteq> bev" if "d \<in> conns qs (srv_main_base server # threads server)" for d
    using inv_bev_live [OF ti that] nb by (auto simp: bev_of_def)
  obtain q st st' where i:
      "thread_insertConn t fd ?w2 = Inr (?c, ?w2\<lparr>store := st, lthreads := (lthreads w)(t \<mapsto> th\<lparr>connect_queue := q\<rparr>)\<rparr>)"
      "upd_Conn ?c (\<lambda>c. c\<lparr>conn_bev := bev\<rparr>) st = Inr st'"
      "upd_Conn ?c (\<lambda>c. c\<lparr>conn_thread := t\<rparr>) st' = Inr st'"
      "threads_inv (qs(t := ?c # qs t)) (srv_main_base server # threads server)
         (?w2\<lparr>store := st', lthreads := (lthreads w)(t \<mapsto> th\<lparr>connect_queue := q\<rparr>)\<rparr>)"
      "map_option conn_data (cells st' ?c) = Some (fd, t, bev, NULL, NULL)"
    by (rule threads_inv_insert [OF ti2 _ b(2) _ nu, of t fd]) (use t in auto)
  let ?s4 = "bufferevent_enable V bev (bufferevent_setcb V bev ?c s2)"
  let ?w4 = "w\<lparr>live_bevs := insert bev (live_bevs w),
      lthreads := (lthreads w)(t \<mapsto> th\<lparr>connect_queue := q\<rparr>), store := st', ext := ?s4\<rparr>"
  have al: "allocated s2 \<subseteq> allocated ?s4"
    using keep_law by blast
  have ti4: "threads_inv (qs(t := ?c # qs t)) (srv_main_base server # threads server) ?w4"
    by (rule threads_inv_frame [OF i(4)]) simp_all
  have inv4: "server_inv allocated this (qs(t := ?c # qs t)) ?w4"
    by (rule server_inv_queue [OF inv server t _ _ ti4]) (use sv(2) al1 al in auto)
  have s4: "servers ?w4 this = Some server"
    using server by simp
  have run: "notifyHandler V I t w = call_if (srv_connect_cb server) (\<lambda>cb. call_data I cb ?c ?w4) ?w4"
    using r b i server_of_served [OF inv4 s4 t(1)] t(2) tn
    by (simp add: notifyHandler_def new_bev_def upd_conn_def Let_def)
  have new: "serves this ?w4 t ?c"
    using serves_iff [OF inv4 s4] t(1) by simp
  have same: "\<exists>q'. lthreads ?w4 t = Some (th\<lparr>connect_queue := q'\<rparr>)"
    by (rule exI [of _ q]) simp
  show ?thesis
    by (rule that [OF run inv4 new _ _ nb _ _ _ same]) (simp_all add: i(5))
qed

end

lemma served:
  assumes inv: "server_inv allocated this qs w" and s: "serves this w t c"
  obtains server k th where "servers w this = Some server" and "t \<in> set (threads server)" and "c \<in> set (qs t)"
    and "lthreads w t = Some th" and "lt_owner th = Server_owner this" and "t \<noteq> NULL"
    and "cells (store w) c = Some k" and "c \<noteq> NULL" and "conn_thread k = t" and "conn_bev k \<noteq> NULL"
    and "conn_bev k \<in> live_bevs w" and "bev_of w c = conn_bev k"
proof -
  obtain server where sv: "servers w this = Some server"
      "threads_inv qs (srv_main_base server # threads server) w"
      "\<forall>t \<in> set (threads server). \<exists>th. lthreads w t = Some th \<and> lt_owner th = Server_owner this"
    by (rule server_invE [OF inv])
  have tc: "t \<in> set (threads server)" "c \<in> set (qs t)"
    using s serves_iff [OF inv sv(1)] by auto
  obtain th where th: "lthreads w t = Some th" "lt_owner th = Server_owner this"
    using sv(3) tc(1) by blast
  have tn: "t \<noteq> NULL" "c \<noteq> NULL"
    using threads_inv_queue [OF sv(2), of t] tc th(1)
    by (auto simp: queue_rep_def nodes_def)
  have "conn_ok w t c"
    using inv_conn_ok [OF sv(2) _ tc(2)] tc(1) by simp
  then show ?thesis
    using that sv(1) tc th tn by (elim conn_okE) blast
qed

text \<open>
  A server's callbacks behave: a data callback on a served connection returns and keeps the
  invariant (it may close connections); an event callback returns and leaves the queues as
  they are, because the handler that called it goes on to remove the connection.
\<close>

locale server_callbacks = event_lib V allocated
  for V :: "'s event_ops" and allocated +
  fixes I :: "('cb, ('s, 'cb, 'z) tcp_net_scheme) invoker"
    and this :: ptr
  assumes data_ok: "server_inv allocated this qs w \<Longrightarrow> serves this w t c \<Longrightarrow>
        \<exists>w' qs'. call_data I cb c w = Some (Inr w') \<and> server_inv allocated this qs' w'"
    and event_ok: "server_inv allocated this qs w \<Longrightarrow> serves this w t c \<Longrightarrow>
        \<exists>w'. call_event I cb c ev w = Some (Inr w') \<and> server_inv allocated this qs w' \<and>
          servers w' this = servers w this \<and> bev_of w' c = bev_of w c"
begin

abbreviation (input) sinv where "sinv \<equiv> server_inv allocated this"

definition safe :: "('s, 'cb, 'z) tcp_net_scheme res option \<Rightarrow> bool" where
  "safe r \<longleftrightarrow> (\<exists>w' qs'. r = Some (Inr w') \<and> sinv qs' w')"

lemma safe_here: "sinv qs w \<Longrightarrow> safe (Some (Inr w))"
  by (auto simp: safe_def)

lemma safe_call: "sinv qs w \<Longrightarrow> serves this w t c \<Longrightarrow> safe (call_if cb (\<lambda>f. call_data I f c w) w)"
  using data_ok safe_here by (cases cb) (auto simp: safe_def)

lemma fetch_buffers_inv:
  assumes inv: "sinv qs w" and s: "serves this w t c"
  shows "\<exists>w'. fetch_buffers V bev c w = Inr w' \<and> sinv qs w' \<and> serves this w' t c \<and>
     servers w' = servers w \<and> getThread c w' = Inr t"
proof -
  obtain server where sv: "servers w this = Some server" "this \<noteq> NULL" "length (threads server) = thread_count server" "0 < thread_count server"
      "threads_inv qs (srv_main_base server # threads server) w" "qs (srv_main_base server) = []"
      "\<forall>t \<in> set (threads server). \<exists>th. lthreads w t = Some th \<and> lt_owner th = Server_owner this"
      "live_bevs w \<subseteq> allocated (ext w)"
    by (rule server_invE [OF inv])
  obtain k where k: "cells (store w) c = Some k" "c \<noteq> NULL" "conn_thread k = t"
    by (rule served [OF inv s])
  let ?f = "\<lambda>k. k\<lparr>conn_readBuf := bufferevent_get_input V bev (ext w), conn_writeBuf := bufferevent_get_output V bev (ext w)\<rparr>"
  let ?w = "w\<lparr>store := (store w)\<lparr>cells := (cells (store w))(c \<mapsto> ?f k)\<rparr>\<rparr>"
  have "fetch_buffers V bev c w = Inr ?w"
    using k by (simp add: fetch_buffers_def upd_conn_def upd_Conn_def)
  moreover have "threads_inv qs (srv_main_base server # threads server) ?w"
    by (rule threads_inv_buffers [OF sv(5) k(1)]) simp
  then have i: "sinv qs ?w"
    using sv by (auto simp: server_inv_def)
  moreover have "serves this ?w t c"
    using s serves_iff [OF inv sv(1)] serves_iff [OF i, of server] sv(1) by simp
  ultimately show ?thesis
    using k by (auto simp: getThread_def)
qed

lemma bufferReadCb_safe:
  assumes "sinv qs w" and "serves this w t c"
  shows "safe (bufferReadCb V I bev c w)"
proof -
  obtain w' where w': "fetch_buffers V bev c w = Inr w'" "sinv qs w'" "serves this w' t c" "getThread c w' = Inr t"
    using fetch_buffers_inv [OF assms] by blast
  obtain server where "server_of t w' = Inr server"
    using served [OF w'(2,3)] server_of_served [OF w'(2)] by metis
  then show ?thesis
    using w' safe_call [OF w'(2,3)] by (simp add: bufferReadCb_def)
qed

lemma bufferWriteCb_safe:
  assumes "sinv qs w" and "serves this w t c"
  shows "safe (bufferWriteCb V I bev c w)"
proof -
  obtain w' where w': "fetch_buffers V bev c w = Inr w'" "sinv qs w'" "serves this w' t c" "getThread c w' = Inr t"
    using fetch_buffers_inv [OF assms] by blast
  obtain server where "server_of t w' = Inr server"
    using served [OF w'(2,3)] server_of_served [OF w'(2)] by metis
  then show ?thesis
    using w' safe_call [OF w'(2,3)] safe_here [OF assms(1)] by (simp add: bufferWriteCb_def)
qed

lemma bufferEventCb_removes:
  assumes inv: "sinv qs w" and sv: "serves this w t c"
  shows "\<exists>w'. bufferEventCb I (bev_of w c) events c w = Some (Inr w') \<and>
     sinv (qs(t := remove1 c (qs t))) w' \<and> cells (store w') c = None \<and> bev_of w c \<notin> live_bevs w'"
proof -
  obtain server k where k: "servers w this = Some server" "t \<in> set (threads server)" "cells (store w) c = Some k"
      "c \<noteq> NULL" "conn_thread k = t"
    by (rule served [OF inv sv])
  have so: "server_of t w = Inr server"
    by (rule server_of_served [OF inv k(1,2)])
  obtain w1 where w1: "call_if (srv_event_cb server) (\<lambda>cb. call_event I cb c events w) w = Some (Inr w1)"
      "sinv qs w1" "servers w1 this = Some server" "bev_of w1 c = bev_of w c"
    using event_ok [OF inv sv, of _ events] inv k(1) by (cases "srv_event_cb server") auto
  have sv1: "serves this w1 t c"
    using sv serves_iff [OF inv k(1)] serves_iff [OF w1(2,3)] by simp
  obtain k1 where k1: "c \<in> set (qs t)" "cells (store w1) c = Some k1" "conn_thread k1 = t" "c \<noteq> NULL"
      "conn_bev k1 \<noteq> NULL" "conn_bev k1 \<in> live_bevs w1" "bev_of w1 c = conn_bev k1"
    by (rule served [OF w1(2) sv1])
  obtain sv' where sv': "servers w1 this = Some sv'" "threads_inv qs (srv_main_base sv' # threads sv') w1"
      "live_bevs w1 \<subseteq> allocated (ext w1)"
    by (rule server_invE [OF w1(2)])
  then have ti: "threads_inv qs (srv_main_base server # threads server) w1"
    using w1(3) by simp
  obtain th q st where d: "lthreads w1 t = Some th"
      "thread_deleteConn t c w1 = Inr (w1\<lparr>store := st, lthreads := (lthreads w1)(t \<mapsto> th\<lparr>connect_queue := q\<rparr>)\<rparr>)"
      "threads_inv (qs(t := remove1 c (qs t))) (srv_main_base server # threads server)
         (w1\<lparr>store := st, lthreads := (lthreads w1)(t \<mapsto> th\<lparr>connect_queue := q\<rparr>), live_bevs := live_bevs w1 - {bev_of w1 c}\<rparr>)"
      "cells st c = None"
    by (rule threads_inv_delete [OF ti _ k1(1)]) (use k(2) in auto)
  let ?w = "w1\<lparr>store := st, lthreads := (lthreads w1)(t \<mapsto> th\<lparr>connect_queue := q\<rparr>), live_bevs := live_bevs w1 - {bev_of w1 c}\<rparr>"
  have "bufferEventCb I (bev_of w c) events c w = Some (Inr ?w)"
    using k so w1 k1 d(2) by (simp add: bufferEventCb_def getThread_def free_bev_def)
  moreover have "sinv (qs(t := remove1 c (qs t))) ?w"
    by (rule server_inv_queue [OF w1(2,3) k(2) d(1) _ _ d(3)]) (use sv'(3) in auto)
  ultimately show ?thesis
    using d(4) w1(4) by (intro exI [where x = ?w]) simp
qed

lemma bufferEventCb_safe: "sinv qs w \<Longrightarrow> serves this w t c \<Longrightarrow> safe (bufferEventCb I (bev_of w c) events c w)"
  using bufferEventCb_removes by (fastforce simp: safe_def)

lemma notifyHandler_safe:
  assumes inv: "sinv qs w" and server: "servers w this = Some server" and t: "t \<in> set (threads server)"
  shows "safe (notifyHandler V I t w)"
proof -
  obtain sv where "servers w this = Some sv" and sv: "threads_inv qs (srv_main_base sv # threads sv) w"
      "live_bevs w \<subseteq> allocated (ext w)"
    by (rule server_invE [OF inv])
  then have ti: "threads_inv qs (srv_main_base server # threads server) w"
    using server by simp
  obtain th where th: "lthreads w t = Some th" "t \<noteq> NULL"
    by (rule threads_inv_queue [OF ti, of t]) (use t in auto)
  obtain r v s1 where r: "sys_read_int V (notify_recv_fd th) (ext w) = (r, v, s1)"
    by (metis surj_pair)
  have r': "r = - 1 \<or> r = 4" "allocated (ext w) \<subseteq> allocated s1"
    using pipe_read_law [OF r] by auto
  have inv1: "sinv qs (w\<lparr>ext := s1\<rparr>)"
    by (rule server_inv_frame [OF inv]) (use r' in auto)
  show ?thesis
  proof (cases "r = - 1 \<or> v = EXIT_CODE")
    case True
    moreover have "sinv qs (w\<lparr>ext := event_base_loopbreak V (base th) s1\<rparr>)"
      by (rule server_inv_frame [OF inv]) (use r'(2) keep_law(3) in auto)
    ultimately show ?thesis
      using inv1 r'(1) by (auto simp: notifyHandler_def th r safe_def)
  next
    case False
    then have r4: "sys_read_int V (notify_recv_fd th) (ext w) = (4, v, s1)" "v \<noteq> EXIT_CODE"
      using r r'(1) by auto
    obtain bev s2 where b: "bufferevent_socket_new V (base th) v s1 = (bev, s2)"
      by fastforce
    show ?thesis
    proof (cases "bev = NULL")
      case True
      moreover have "sinv qs (w\<lparr>ext := s2\<rparr>)"
        by (rule server_inv_frame [OF inv]) (use r'(2) socket_new_law [OF b] in auto)
      ultimately show ?thesis
        using r4 by (auto simp: notifyHandler_def th b new_bev_def safe_def)
    next
      case False
      show ?thesis
        by (rule notify_attach [OF inv server t th(1) r4 b False, of I]) (simp add: safe_call)
    qed
  qed
qed

end

subsection \<open>Choosing a thread\<close>

definition load_of :: "('s, 'cb, 'z) tcp_net_scheme \<Rightarrow> ptr \<Rightarrow> uint64" where
  "load_of w t = (case lthreads w t of None \<Rightarrow> 0 | Some th \<Rightarrow> getCount (connect_queue th))"

lemma thread_load_ok:
  assumes "server_inv allocated this qs w" "servers w this = Some server" "i < thread_count server"
  shows "thread_load server i w = Inr (load_of w (threads server ! i))"
    and "\<exists>th. lthreads w (threads server ! i) = Some th \<and> threads server ! i \<noteq> NULL"
    and "load_of w (threads server ! i) = of_nat (length (qs (threads server ! i)))"
proof -
  obtain sv where sv: "servers w this = Some sv" "length (threads sv) = thread_count sv"
      "threads_inv qs (srv_main_base sv # threads sv) w"
    by (rule server_invE [OF assms(1)])
  then have m: "threads server ! i \<in> set (srv_main_base sv # threads sv)" "i < length (threads server)"
    using assms(2,3) by auto
  obtain th where th: "lthreads w (threads server ! i) = Some th" "threads server ! i \<noteq> NULL"
      "queue_rep (connect_queue th) (store w) (qs (threads server ! i))"
    by (rule threads_inv_queue [OF sv(3) m(1)])
  then show "thread_load server i w = Inr (load_of w (threads server ! i))"
    "\<exists>th. lthreads w (threads server ! i) = Some th \<and> threads server ! i \<noteq> NULL"
    "load_of w (threads server ! i) = of_nat (length (qs (threads server ! i)))"
    using m(2) by (auto simp: thread_load_def load_of_def queue_rep_def getCount_def)
qed

lemma pick_thread_min:
  assumes "\<And>i. i < n \<Longrightarrow> thread_load server i w = Inr (f i)" and "num < k" "k \<le> n"
    and "\<forall>i < k. f num \<le> f i" and "\<forall>i < num. f num < f i"
  shows "\<exists>m < n. pick_thread server [k..<n] num w = Inr m \<and> (\<forall>i < n. f m \<le> f i) \<and> (\<forall>i < m. f m < f i)"
  using assms(2-)
proof (induction "n - k" arbitrary: k num)
  case 0
  then show ?case by auto
next
  case (Suc d)
  then have k: "k < n" "[k..<n] = k # [Suc k..<n]"
    by (simp_all add: upt_conv_Cons)
  let ?num = "if f k < f num then k else num"
  have "\<forall>i < Suc k. f ?num \<le> f i"
    using Suc.prems(3) by (auto simp: less_Suc_eq intro: order_trans [of _ "f num"])
  moreover have "\<forall>i < ?num. f ?num < f i"
    using Suc.prems(3,4) by (auto intro: less_le_trans [of _ "f num"])
  ultimately have "\<exists>m < n. pick_thread server [Suc k..<n] ?num w = Inr m \<and> (\<forall>i < n. f m \<le> f i) \<and> (\<forall>i < m. f m < f i)"
    using Suc k(1) by (intro Suc.hyps(1)) auto
  then show ?case
    using assms(1) k Suc.prems by simp
qed

lemma acceptCb_picks:
  assumes "server_inv allocated this qs w" and "servers w this = Some server"
  shows "\<exists>i th. i < thread_count server \<and> lthreads w (threads server ! i) = Some th \<and>
     acceptCb V fd this w = Inr (w\<lparr>ext := snd (sys_write_int V (notify_send_fd th) fd (ext w))\<rparr>) \<and>
     (\<forall>j < thread_count server. load_of w (threads server ! i) \<le> load_of w (threads server ! j)) \<and>
     (\<forall>j < i. load_of w (threads server ! i) < load_of w (threads server ! j)) \<and>
     load_of w (threads server ! i) = of_nat (length (qs (threads server ! i)))"
proof -
  let ?f = "\<lambda>i. load_of w (threads server ! i)"
  obtain sv where "servers w this = Some sv" "length (threads sv) = thread_count sv" "this \<noteq> NULL"
      "0 < thread_count sv"
    by (rule server_invE [OF assms(1)])
  then have len: "length (threads server) = thread_count server" "this \<noteq> NULL" "0 < thread_count server"
    using assms(2) by auto
  note load = thread_load_ok [OF assms(1,2)]
  have "\<exists>m < thread_count server. pick_thread server [1..<thread_count server] 0 w = Inr m \<and>
      (\<forall>i < thread_count server. ?f m \<le> ?f i) \<and> (\<forall>i < m. ?f m < ?f i)"
    by (rule pick_thread_min) (use load len(3) in auto)
  moreover have "pick_thread server [0..<thread_count server] 0 w = pick_thread server [1..<thread_count server] 0 w"
    using load(1) len(3) by (simp add: upt_conv_Cons)
  ultimately obtain m where m: "m < thread_count server" "pick_thread server [0..<thread_count server] 0 w = Inr m"
      "\<forall>i < thread_count server. ?f m \<le> ?f i" "\<forall>i < m. ?f m < ?f i"
    by auto
  obtain th where th: "lthreads w (threads server ! m) = Some th" "threads server ! m \<noteq> NULL"
    using load(2) [OF m(1)] by blast
  have "acceptCb V fd this w = Inr (w\<lparr>ext := snd (sys_write_int V (notify_send_fd th) fd (ext w))\<rparr>)"
    using m(1,2) th len(1,2) assms(2) by (simp add: acceptCb_def split: prod.split)
  with m th(1) load(3) [OF m(1)] show ?thesis
    by blast
qed

subsection \<open>The event loops\<close>

text \<open>
  One turn of the loops: the main loop accepts, a thread's loop handles its pipe or a
  connection's bufferevent, and the library's own state moves between the calls. The second
  argument is the outcome of the handler.
\<close>

inductive server_step ::
  "'s event_ops \<Rightarrow> ('s \<Rightarrow> ptr set) \<Rightarrow> ('cb, ('s, 'cb, 'z) tcp_net_scheme) invoker \<Rightarrow> ptr \<Rightarrow>
   ('s, 'cb, 'z) tcp_net_scheme \<Rightarrow> ('s, 'cb, 'z) tcp_net_scheme res option \<Rightarrow> bool"
  for V allocated I this where
  Accept: "server_step V allocated I this w (Some (acceptCb V fd this w))"
| Notify: "servers w this = Some server \<Longrightarrow> t \<in> set (threads server) \<Longrightarrow>
    server_step V allocated I this w (notifyHandler V I t w)"
| Read: "serves this w t c \<Longrightarrow> server_step V allocated I this w (bufferReadCb V I (bev_of w c) c w)"
| Write: "serves this w t c \<Longrightarrow> server_step V allocated I this w (bufferWriteCb V I (bev_of w c) c w)"
| Event: "serves this w t c \<Longrightarrow> server_step V allocated I this w (bufferEventCb I (bev_of w c) events c w)"
| Configure: "f \<in> {setReadCallback, setWriteCallback, setConnectionCallback, setEventCallback} \<Longrightarrow>
    server_step V allocated I this w (Some (f this cb w))"
| Quit: "server_step V allocated I this w (Some (quit V this tv w))"
| Library: "allocated (ext w) \<subseteq> allocated s \<Longrightarrow>
    server_step V allocated I this w (Some (Inr (w\<lparr>ext := s\<rparr>)))"

inductive server_reach ::
  "'s event_ops \<Rightarrow> ('s \<Rightarrow> ptr set) \<Rightarrow> ('cb, ('s, 'cb, 'z) tcp_net_scheme) invoker \<Rightarrow> ptr \<Rightarrow>
   ('s, 'cb, 'z) tcp_net_scheme \<Rightarrow> ('s, 'cb, 'z) tcp_net_scheme \<Rightarrow> bool"
  for V allocated I this w0 where
  Start: "server_reach V allocated I this w0 w0"
| Step: "server_reach V allocated I this w0 w \<Longrightarrow> server_step V allocated I this w (Some (Inr w')) \<Longrightarrow>
    server_reach V allocated I this w0 w'"

context event_lib
begin

lemma quit_threads_ok:
  assumes "\<forall>t \<in> set ts. t \<noteq> NULL \<and> lthreads w t \<noteq> None"
  shows "\<exists>s. quit_threads V ts w = Inr (w\<lparr>ext := s\<rparr>) \<and> allocated (ext w) \<subseteq> allocated s"
  using assms
proof (induction ts arbitrary: w)
  case Nil
  then show ?case by (auto intro: exI [where x = "ext w"])
next
  case (Cons t ts)
  then obtain th where th: "lthreads w t = Some th" "t \<noteq> NULL"
    by auto
  obtain r s where r: "sys_write_int V (notify_send_fd th) EXIT_CODE (ext w) = (r, s)"
    by fastforce
  obtain s' where "quit_threads V ts (w\<lparr>ext := s\<rparr>) = Inr (w\<lparr>ext := s'\<rparr>)" "allocated s \<subseteq> allocated s'"
    using Cons.IH [of "w\<lparr>ext := s\<rparr>"] Cons.prems by auto
  with th r pipe_write_law [OF r] show ?case by auto
qed

lemma quit_ok:
  assumes "server_inv allocated this qs w"
  shows "\<exists>s. quit V this tv w = Inr (w\<lparr>ext := s\<rparr>) \<and> server_inv allocated this qs (w\<lparr>ext := s\<rparr>)"
proof -
  obtain sv where sv: "servers w this = Some sv" "this \<noteq> NULL" "threads_inv qs (srv_main_base sv # threads sv) w"
    by (rule server_invE [OF assms])
  have alive: "\<forall>t \<in> set (srv_main_base sv # threads sv). t \<noteq> NULL \<and> lthreads w t \<noteq> None"
    using sv(3) unfolding threads_inv_def by fastforce
  obtain s where s: "quit_threads V (threads sv) w = Inr (w\<lparr>ext := s\<rparr>)" "allocated (ext w) \<subseteq> allocated s"
    using quit_threads_ok [of "threads sv" w] alive by auto
  obtain m where m: "lthreads w (srv_main_base sv) = Some m" "srv_main_base sv \<noteq> NULL"
    using alive by auto
  let ?s = "event_base_loopexit V (base m) tv s"
  have "server_inv allocated this qs (w\<lparr>ext := ?s\<rparr>)"
    by (rule server_inv_frame [OF assms]) (use order_trans [OF s(2) keep_law(4)] in auto)
  then show ?thesis
    using sv(1,2) s(1) m by (intro exI [where x = ?s]) (simp add: quit_def)
qed

end

context server_callbacks
begin

lemma acceptCb_safe:
  assumes "sinv qs w"
  shows "safe (Some (acceptCb V fd this w))"
proof -
  obtain server where server: "servers w this = Some server"
    by (rule server_invE [OF assms])
  obtain th :: LibeventThread where a: "acceptCb V fd this w = Inr (w\<lparr>ext := snd (sys_write_int V (notify_send_fd th) fd (ext w))\<rparr>)"
    using acceptCb_picks [OF assms server, of V fd] by blast
  have "sinv qs (w\<lparr>ext := snd (sys_write_int V (notify_send_fd th) fd (ext w))\<rparr>)"
    by (rule server_inv_frame [OF assms]) (use pipe_write_law in \<open>auto simp: prod_eq_iff\<close>)
  with a show ?thesis
    by (auto simp: safe_def)
qed

lemma configure_safe:
  assumes "sinv qs w" and "f \<in> {setReadCallback, setWriteCallback, setConnectionCallback, setEventCallback}"
  shows "safe (Some (f this cb w))"
proof -
  obtain sv where sv: "servers w this = Some sv" "this \<noteq> NULL"
    by (rule server_invE [OF assms(1)])
  have keep: "sinv qs (w\<lparr>servers := (servers w)(this \<mapsto> sv')\<rparr>)"
    if "threads sv' = threads sv" "thread_count sv' = thread_count sv" "srv_main_base sv' = srv_main_base sv" for sv'
    by (rule server_inv_callbacks [OF assms(1) _ _ _ _ sv(1), of _ sv']) (use that in auto)
  show ?thesis
    using assms(2) sv
    by (auto simp: safe_def setReadCallback_def setWriteCallback_def setConnectionCallback_def
        setEventCallback_def upd_server_def intro!: exI [where x = qs] keep)
qed

lemma quit_safe: "sinv qs w \<Longrightarrow> safe (Some (quit V this tv w))"
  using quit_ok by (fastforce simp: safe_def)

lemma step_safe:
  assumes "server_step V allocated I this w r" and "sinv qs w"
  shows "safe r"
  using assms
proof (cases rule: server_step.cases)
  case (Library s)
  have "sinv qs (w\<lparr>ext := s\<rparr>)"
    by (rule server_inv_frame [OF assms(2)]) (use Library in auto)
  with Library show ?thesis by (auto simp: safe_def)
qed (use assms(2) acceptCb_safe notifyHandler_safe bufferReadCb_safe bufferWriteCb_safe bufferEventCb_safe
      configure_safe quit_safe in auto)

lemma reach_inv:
  assumes "server_reach V allocated I this w0 w" and "sinv qs w0"
  shows "\<exists>qs'. sinv qs' w"
  using assms
proof (induction rule: server_reach.induct)
  case (Step w w')
  then show ?case
    using step_safe by (fastforce simp: safe_def)
qed blast

end

subsection \<open>Construction\<close>

definition obj_ok :: "('s, 'cb, 'z) tcp_net_scheme \<Rightarrow> bool" where
  "obj_ok w \<longleftrightarrow> next_obj w \<noteq> NULL \<and> (\<forall>p. next_obj w \<le> p \<longrightarrow> lthreads w p = None)"

lemma threads_inv_Nil: "threads_inv qs [] w \<longleftrightarrow> store_ok (store w)"
  by (simp add: threads_inv_def conns_def)

lemma new_thread_inv:
  assumes inv: "threads_inv (\<lambda>_. []) ts w" and ok: "obj_ok w"
  shows "\<exists>w'. new_thread w = Inr (next_obj w, w') \<and> threads_inv (\<lambda>_. []) (ts @ [next_obj w]) w' \<and>
     obj_ok w' \<and> next_obj w' = Suc (next_obj w) \<and> servers w' = servers w \<and> live_bevs w' = live_bevs w \<and> ext w' = ext w"
proof -
  have so: "store_ok (store w)"
    using inv by (simp add: threads_inv_def)
  obtain q st where q: "ConnQueue_init (store w) = Inr (q, st)" "queue_rep q st []" "store_ok st"
      "head q = next_addr (store w)" "tail q = Suc (next_addr (store w))"
      "\<forall>p. p < next_addr (store w) \<longrightarrow> cells st p = cells (store w) p"
    using ConnQueue_init_rep [OF so] by blast
  let ?p = "next_obj w"
  let ?th = "\<lparr>thread_id = 0, base = NULL, notify_send_fd = 0, notify_recv_fd = 0,
           connect_queue = q, lt_owner = No_owner\<rparr>"
  let ?w = "w\<lparr>store := st, lthreads := (lthreads w)(?p \<mapsto> ?th), next_obj := Suc ?p\<rparr>"
  have new: "new_thread w = Inr (?p, ?w)"
    by (simp add: new_thread_def LibeventThread_init_def q(1))
  have old: "p < next_addr (store w)" if "t \<in> set ts" "p \<in> qnodes (\<lambda>_. []) w t" for t p
    using inv_node_alive [OF inv that] so unfolding store_ok_def by (meson not_less)
  have no: "next_addr (store w) \<notin> qnodes (\<lambda>_. []) w t \<and> Suc (next_addr (store w)) \<notin> qnodes (\<lambda>_. []) w t"
    if "t \<in> set ts" for t
    using old [OF that, of "next_addr (store w)"] old [OF that, of "Suc (next_addr (store w))"] by auto
  have pn: "?p \<notin> set ts" "?p \<noteq> NULL"
    using inv ok by (force simp: threads_inv_def obj_ok_def)+
  have thr: "\<exists>th. lthreads ?w t = Some th \<and> queue_rep (connect_queue th) (store ?w) []" if t: "t \<in> set ts" for t
  proof -
    obtain th where th: "lthreads w t = Some th" "queue_rep (connect_queue th) (store w) []"
      by (rule threads_inv_queue [OF inv t])
    have "queue_rep (connect_queue th) st [] = queue_rep (connect_queue th) (store w) []"
      using old [OF t] q(6) th(1) by (intro queue_rep_cong) (simp add: qnodes_def)
    with th pn t show ?thesis by auto
  qed
  have qn: "qnodes (\<lambda>_. []) ?w t = (if t = ?p then {next_addr (store w), Suc (next_addr (store w))} else qnodes (\<lambda>_. []) w t)" for t
    by (auto simp: qnodes_def nodes_def q(4,5) split: option.split)
  have dis: "qnodes (\<lambda>_. []) ?w t \<inter> qnodes (\<lambda>_. []) ?w u = {}" if "t \<in> set (ts @ [?p])" "u \<in> set (ts @ [?p])" "t \<noteq> u" for t u
  proof (cases "t = ?p \<or> u = ?p")
    case True
    then show ?thesis
      using that no [of t] no [of u] by (auto simp: qn)
  next
    case False
    then show ?thesis
      using that inv by (auto simp: qn threads_inv_def)
  qed
  have "threads_inv (\<lambda>_. []) (ts @ [?p]) ?w"
    using thr dis inv pn q(2,3) by (auto simp: threads_inv_def conns_def)
  moreover have "obj_ok ?w"
    using ok by (auto simp: obj_ok_def)
  ultimately show ?thesis
    using new by simp
qed

lemma new_threads_inv:
  assumes "threads_inv (\<lambda>_. []) ts w" and "obj_ok w"
  shows "\<exists>ps w'. new_threads n w = Inr (ps, w') \<and> length ps = n \<and> threads_inv (\<lambda>_. []) (ts @ ps) w' \<and>
     servers w' = servers w \<and> live_bevs w' = live_bevs w \<and> ext w' = ext w"
  using assms
proof (induction n arbitrary: ts w)
  case (Suc n)
  obtain w1 where 1: "new_thread w = Inr (next_obj w, w1)" "threads_inv (\<lambda>_. []) (ts @ [next_obj w]) w1" "obj_ok w1"
      "servers w1 = servers w" "live_bevs w1 = live_bevs w" "ext w1 = ext w"
    using new_thread_inv [OF Suc.prems] by blast
  from Suc.IH [OF 1(2,3)] 1 show ?case by auto
qed simp

lemma upd_thread_inv:
  assumes "threads_inv qs ts w" and "t \<in> set ts" and "\<And>th. connect_queue (f th) = connect_queue th"
  obtains th where "lthreads w t = Some th" and "upd_thread t f w = Inr (w\<lparr>lthreads := (lthreads w)(t \<mapsto> f th)\<rparr>)"
    and "threads_inv qs ts (w\<lparr>lthreads := (lthreads w)(t \<mapsto> f th)\<rparr>)"
proof -
  obtain th where th: "lthreads w t = Some th" "queue_rep (connect_queue th) (store w) (qs t)" "t \<noteq> NULL" "store_ok (store w)"
    by (rule threads_inv_queue [OF assms(1,2)])
  let ?w = "w\<lparr>lthreads := (lthreads w)(t \<mapsto> f th)\<rparr>"
  have "qnodes qs ?w = qnodes qs w"
    using th(1) assms(3) by (auto simp: qnodes_def fun_eq_iff)
  moreover have "bev_of ?w = bev_of w" "conn_ok ?w = conn_ok w"
    by (simp_all add: bev_of_def conn_ok_def fun_eq_iff)
  moreover have "\<forall>u \<in> set ts. \<exists>th. lthreads ?w u = Some th \<and> queue_rep (connect_queue th) (store ?w) (qs u)"
    using assms(1) th(1,2) assms(3) by (auto simp: threads_inv_def)
  ultimately have "threads_inv qs ts ?w"
    using assms(1) by (simp add: threads_inv_def)
  with that th show ?thesis by (simp add: upd_thread_def)
qed

context event_lib
begin

lemma setupThread_inv:
  assumes inv: "threads_inv qs ts w" and t: "t \<in> set ts" and r: "setupThread V this t w = Inr w'"
  shows "threads_inv qs ts w' \<and> servers w' = servers w \<and> live_bevs w' = live_bevs w \<and>
     allocated (ext w) \<subseteq> allocated (ext w') \<and> (\<exists>th. lthreads w' t = Some th \<and> lt_owner th = Server_owner this) \<and>
     (\<forall>u. u \<noteq> t \<longrightarrow> lthreads w' u = lthreads w u)"
proof -
  obtain th where th: "lthreads w t = Some th" "t \<noteq> NULL"
    by (rule threads_inv_queue [OF inv t])
  obtain b s1 where b: "event_base_new V (ext w) = (b, s1)"
    by fastforce
  obtain fds s2 where p: "sys_pipe V s1 = (fds, s2)"
    by fastforce
  have bn: "b \<noteq> NULL"
    using r th by (auto simp: setupThread_def upd_thread_def b p split: if_splits)
  then obtain fd0 fd1 where f: "fds = Some (fd0, fd1)"
    using r th by (cases fds) (auto simp: setupThread_def upd_thread_def b p split: if_splits)
  obtain x s3 where e: "notify_event_add V b fd0 t s2 = (x, s3)"
    by fastforce
  let ?g = "\<lambda>th. th\<lparr>lt_owner := Server_owner this, base := b, notify_send_fd := fd1, notify_recv_fd := fd0\<rparr>"
  have w': "w' = w\<lparr>lthreads := (lthreads w)(t \<mapsto> ?g th), ext := s3\<rparr>"
    using r th bn by (auto simp: setupThread_def upd_thread_def b p f e Let_def split: if_splits)
  have "threads_inv qs ts (w\<lparr>lthreads := (lthreads w)(t \<mapsto> ?g th)\<rparr>)"
    using th by (rule_tac upd_thread_inv [OF inv t, of ?g]) auto
  then have "threads_inv qs ts w'"
    unfolding w' by (rule threads_inv_frame) auto
  moreover have "allocated (ext w) \<subseteq> allocated s3"
    using setup_law(1) [OF b] setup_law(2) [OF p] setup_law(3) [OF e] by blast
  ultimately show ?thesis
    by (simp add: w')
qed

lemma setupThreads_inv:
  assumes "threads_inv qs ts w" and "set us \<subseteq> set ts" and "distinct us" and "setupThreads V this us w = Inr w'"
  shows "threads_inv qs ts w' \<and> servers w' = servers w \<and> live_bevs w' = live_bevs w \<and>
     allocated (ext w) \<subseteq> allocated (ext w') \<and>
     (\<forall>t \<in> set us. \<exists>th. lthreads w' t = Some th \<and> lt_owner th = Server_owner this) \<and>
     (\<forall>u. u \<notin> set us \<longrightarrow> lthreads w' u = lthreads w u)"
  using assms
proof (induction us arbitrary: w)
  case (Cons u us)
  then obtain w1 where 1: "setupThread V this u w = Inr w1" "setupThreads V this us w1 = Inr w'"
    by (auto simp: bind_res_eq_Inr)
  have u: "u \<in> set ts"
    using Cons.prems(2) by simp
  note s = setupThread_inv [OF Cons.prems(1) u 1(1)]
  have "threads_inv qs ts w1"
    using s by blast
  note IH = Cons.IH [OF this _ _ 1(2)]
  with s Cons.prems show ?case
    by (auto 0 4)
qed simp

lemma TcpServer_init_inv:
  assumes "store_ok (store w)" and "obj_ok w" and "this \<noteq> NULL" and "0 < count"
    and "live_bevs w \<subseteq> allocated (ext w)" and "TcpServer_init V this count ip port w = Inr w'"
  shows "server_inv allocated this (\<lambda>_. []) w' \<and>
     (\<exists>server. servers w' this = Some server \<and> thread_count server = count)"
proof -
  have "threads_inv (\<lambda>_. []) [] w"
    using assms(1) by (simp add: threads_inv_Nil)
  then obtain w1 where 1: "new_thread w = Inr (next_obj w, w1)" "threads_inv (\<lambda>_. []) [next_obj w] w1" "obj_ok w1"
      "servers w1 = servers w" "live_bevs w1 = live_bevs w" "ext w1 = ext w"
    using new_thread_inv [OF _ assms(2), of "[]"] by auto
  obtain ps w2 where 2: "new_threads count w1 = Inr (ps, w2)" "length ps = count"
      "threads_inv (\<lambda>_. []) (next_obj w # ps) w2" "servers w2 = servers w" "live_bevs w2 = live_bevs w" "ext w2 = ext w"
    using new_threads_inv [OF 1(2,3), of count] 1(4-6) by auto
  let ?m = "next_obj w"
  let ?sv = "\<lparr>srv_read_cb = None, srv_write_cb = None, srv_connect_cb = None, srv_event_cb = None,
            thread_count = count, srv_port = port, srv_ip = ip, srv_main_base = ?m, threads = ps\<rparr>"
  let ?w3 = "w2\<lparr>servers := (servers w2)(this \<mapsto> ?sv)\<rparr>"
  have ti3: "threads_inv (\<lambda>_. []) (?m # ps) ?w3"
    by (rule threads_inv_frame [OF 2(3)]) simp_all
  obtain th where th: "lthreads ?w3 ?m = Some th" "?m \<noteq> NULL"
    by (rule threads_inv_queue [OF ti3, of ?m]) auto
  obtain b s where b: "event_base_new V (ext w) = (b, s)"
    by fastforce
  let ?g = "\<lambda>th. th\<lparr>thread_id := pthread_self V (ext w), base := b\<rparr>"
  let ?w4 = "?w3\<lparr>ext := s, lthreads := (lthreads ?w3)(?m \<mapsto> ?g th)\<rparr>"
  have r: "setupThreads V this ps ?w4 = Inr w'"
    using assms(6) th 1(1) 2(1,6) b
    by (auto simp: TcpServer_init_def upd_thread_def Let_def split: if_splits)
  have "threads_inv (\<lambda>_. []) (?m # ps) (?w3\<lparr>lthreads := (lthreads ?w3)(?m \<mapsto> ?g th)\<rparr>)"
    using th by (rule_tac upd_thread_inv [OF ti3, of ?m ?g]) auto
  then have ti4: "threads_inv (\<lambda>_. []) (?m # ps) ?w4"
    by (rule threads_inv_frame) auto
  have "set ps \<subseteq> set (?m # ps)" "distinct ps"
    using 2(3) by (auto simp: threads_inv_def)
  note fin = setupThreads_inv [OF ti4 this r]
  moreover have "allocated (ext w) \<subseteq> allocated (ext ?w4)"
    using setup_law(1) [OF b] by simp
  ultimately show ?thesis
    using assms(3-5) 2(2,5) by (auto simp: server_inv_def)
qed

end

subsection \<open>Destruction\<close>

lemma threads_inv_delete_thread:
  assumes inv: "threads_inv qs ts w" and t: "t \<in> set ts"
  shows "\<exists>w'. delete_thread t w = Some (Inr w') \<and> threads_inv qs (remove1 t ts) w' \<and>
     lthreads w' = (lthreads w)(t := None) \<and> live_bevs w' = live_bevs w \<and> ext w' = ext w \<and>
     (\<forall>p. cells (store w') p = (if p \<in> qnodes qs w t then None else cells (store w) p)) \<and>
     (\<forall>u \<in> set ts - {t}. qnodes qs w' u = qnodes qs w u) \<and> w' = w\<lparr>store := store w', lthreads := lthreads w'\<rparr>"
proof -
  obtain th where th: "lthreads w t = Some th" "queue_rep (connect_queue th) (store w) (qs t)" "t \<noteq> NULL" "store_ok (store w)"
    by (rule threads_inv_queue [OF inv t])
  obtain st where st: "ConnQueue_destroy (connect_queue th) (store w) = Some (Inr st)" "next_addr st = next_addr (store w)"
      "\<forall>p. cells st p = (if p \<in> set (nodes (connect_queue th) (qs t)) then None else cells (store w) p)"
    using free_from_linked [of "nodes (connect_queue th) (qs t)" "store w"] th(2)
    by (auto simp: queue_rep_def ConnQueue_destroy_def nodes_def)
  let ?w = "w\<lparr>store := st, lthreads := (lthreads w)(t := None)\<rparr>"
  have qn: "qnodes qs ?w u = qnodes qs w u" if "u \<noteq> t" for u
    using that by (simp add: qnodes_def)
  have cells: "cells st p = cells (store w) p" if "u \<in> set ts" "u \<noteq> t" "p \<in> qnodes qs w u" for u p
    using inv_nodes_disjoint [OF inv t that] st(3) by (simp add: qnodes_Some [OF th(1)])
  have dist: "distinct ts"
    using inv by (simp add: threads_inv_def)
  have thr: "\<exists>th. lthreads ?w u = Some th \<and> queue_rep (connect_queue th) (store ?w) (qs u)" if u: "u \<in> set ts" "u \<noteq> t" for u
  proof -
    obtain thu where thu: "lthreads w u = Some thu" "queue_rep (connect_queue thu) (store w) (qs u)"
      by (rule threads_inv_queue [OF inv u(1)])
    have "queue_rep (connect_queue thu) st (qs u) = queue_rep (connect_queue thu) (store w) (qs u)"
      using cells [OF u] thu(1) by (intro queue_rep_cong) (simp add: qnodes_def)
    with thu u(2) show ?thesis by simp
  qed
  have data: "cells st c = cells (store w) c" if "u \<in> set ts" "u \<noteq> t" "c \<in> set (qs u)" for u c
    using cells [OF that(1,2) inv_conn_node [OF inv that(1,3)]] .
  have ok: "conn_ok ?w u c" if "u \<in> set ts" "u \<noteq> t" "c \<in> set (qs u)" for u c
    using inv_conn_ok [OF inv that(1,3)] data [OF that] by (simp add: conn_ok_def)
  have "inj_on (bev_of w) (conns qs (remove1 t ts))"
    using inv by (auto simp: threads_inv_def conns_def intro: inj_on_subset dest: notin_set_remove1)
  moreover have "bev_of ?w c = bev_of w c" if "c \<in> conns qs (remove1 t ts)" for c
  proof -
    from that dist obtain u where "u \<in> set ts" "u \<noteq> t" "c \<in> set (qs u)"
      by (auto simp: conns_def)
    then show ?thesis
      by (simp add: bev_of_def data)
  qed
  ultimately have inj: "inj_on (bev_of ?w) (conns qs (remove1 t ts))"
    by (simp cong: inj_on_cong)
  have "store_ok st"
    using th(4) st(2,3) by (simp add: store_ok_def)
  then have "threads_inv qs (remove1 t ts) ?w"
    using inv thr ok inj qn dist by (auto simp: threads_inv_def)
  then show ?thesis
    using th st qn by (intro exI [where x = ?w]) (simp add: delete_thread_def qnodes_Some)
qed

lemma delete_threads_all:
  assumes "threads_inv qs ts w" and "set us \<subseteq> set ts" and "distinct us"
  shows "\<exists>w'. delete_threads us w = Some (Inr w') \<and> live_bevs w' = live_bevs w \<and>
     (\<forall>t. lthreads w' t = (if t \<in> set us then None else lthreads w t)) \<and>
     (\<forall>p. cells (store w') p = (if \<exists>t \<in> set us. p \<in> qnodes qs w t then None else cells (store w) p)) \<and>
     w' = w\<lparr>store := store w', lthreads := lthreads w'\<rparr>"
  using assms
proof (induction us arbitrary: w ts)
  case Nil
  then show ?case by simp
next
  case (Cons u us)
  have u: "u \<in> set ts"
    using Cons.prems(2) by simp
  obtain w1 where 1: "delete_thread u w = Some (Inr w1)" "threads_inv qs (remove1 u ts) w1"
      "lthreads w1 = (lthreads w)(u := None)" "live_bevs w1 = live_bevs w"
      "\<forall>p. cells (store w1) p = (if p \<in> qnodes qs w u then None else cells (store w) p)"
      "\<forall>v \<in> set ts - {u}. qnodes qs w1 v = qnodes qs w v" "w1 = w\<lparr>store := store w1, lthreads := lthreads w1\<rparr>"
    using threads_inv_delete_thread [OF Cons.prems(1) u] by blast
  have "set us \<subseteq> set (remove1 u ts)"
    using Cons.prems by (auto simp: threads_inv_def)
  then obtain w2 where 2: "delete_threads us w1 = Some (Inr w2)" "live_bevs w2 = live_bevs w1"
      "\<forall>t. lthreads w2 t = (if t \<in> set us then None else lthreads w1 t)"
      "\<forall>p. cells (store w2) p = (if \<exists>t \<in> set us. p \<in> qnodes qs w1 t then None else cells (store w1) p)"
      "w2 = w1\<lparr>store := store w2, lthreads := lthreads w2\<rparr>"
    using Cons.IH [OF 1(2)] Cons.prems(3) by auto
  have q: "qnodes qs w1 t = qnodes qs w t" if "t \<in> set us" for t
    using that 1(6) Cons.prems by auto
  have "w2 = w\<lparr>store := store w2, lthreads := lthreads w2\<rparr>"
    by (subst 2(5), subst 1(7)) simp
  moreover have "\<forall>t. lthreads w2 t = (if t \<in> set (u # us) then None else lthreads w t)"
    using 1(3) 2(3) by auto
  moreover have "\<forall>p. cells (store w2) p = (if \<exists>t \<in> set (u # us). p \<in> qnodes qs w t then None else cells (store w) p)"
    using 1(5) 2(4) q by auto
  moreover have "delete_threads (u # us) w = Some (Inr w2)" "live_bevs w2 = live_bevs w"
    using 1(1,4) 2(1,2) by simp_all
  ultimately show ?case
    by (intro exI [where x = w2] conjI)
qed

lemma free_bases_ok:
  assumes "\<forall>t \<in> set ts. t \<noteq> NULL \<and> lthreads w t \<noteq> None"
  shows "\<exists>s. free_bases V ts w = Inr (w\<lparr>ext := s\<rparr>)"
  using assms
proof (induction ts arbitrary: w)
  case Nil
  then show ?case by (auto intro: exI [where x = "ext w"])
next
  case (Cons t ts)
  then show ?case
    using Cons.IH [of "w\<lparr>ext := _\<rparr>"] by fastforce
qed

context event_lib
begin

lemma destroy_frees:
  assumes inv: "server_inv allocated this qs w" and server: "servers w this = Some server"
  shows "\<exists>w'. TcpServer_destroy V this w = Some (Inr w') \<and> servers w' this = None \<and>
     (\<forall>t \<in> set (srv_main_base server # threads server). lthreads w' t = None) \<and>
     (\<forall>t c. serves this w t c \<longrightarrow> cells (store w') c = None) \<and> live_bevs w' = live_bevs w"
proof -
  let ?ts = "srv_main_base server # threads server"
  obtain sv where "servers w this = Some sv" and "this \<noteq> NULL" and "threads_inv qs (srv_main_base sv # threads sv) w"
    by (rule server_invE [OF inv])
  then have ti: "threads_inv qs ?ts w" and tn: "this \<noteq> NULL"
    using server by auto
  have alive: "\<forall>t \<in> set ?ts. t \<noteq> NULL \<and> lthreads w t \<noteq> None"
    using ti unfolding threads_inv_def by fastforce
  obtain s1 where s1: "quit V this None w = Inr (w\<lparr>ext := s1\<rparr>)"
    using quit_ok [OF inv, of None] by blast
  obtain s2 where s2: "free_bases V ?ts (w\<lparr>ext := s1\<rparr>) = Inr (w\<lparr>ext := s2\<rparr>)"
    using free_bases_ok [of ?ts "w\<lparr>ext := s1\<rparr>" V] alive by auto
  have ti2: "threads_inv qs ?ts (w\<lparr>ext := s2\<rparr>)"
    by (rule threads_inv_frame [OF ti]) auto
  have "set (srv_main_base server # rev (threads server)) \<subseteq> set ?ts" "distinct (srv_main_base server # rev (threads server))"
    using ti by (auto simp: threads_inv_def)
  from delete_threads_all [OF ti2 this] obtain w3 where
    w3: "delete_threads (srv_main_base server # rev (threads server)) (w\<lparr>ext := s2\<rparr>) = Some (Inr w3)"
      "live_bevs w3 = live_bevs w" "\<forall>t. lthreads w3 t = (if t \<in> set ?ts then None else lthreads w t)"
      "\<forall>p. cells (store w3) p = (if \<exists>t \<in> set ?ts. p \<in> qnodes qs (w\<lparr>ext := s2\<rparr>) t then None else cells (store w) p)"
      "w3 = w\<lparr>ext := s2, store := store w3, lthreads := lthreads w3\<rparr>"
    by (auto simp del: delete_threads.simps)
  obtain w4 where w4: "delete_thread (srv_main_base server) (w\<lparr>ext := s2\<rparr>) = Some (Inr w4)"
      "delete_threads (rev (threads server)) w4 = Some (Inr w3)"
    using w3(1) by (auto simp: bind_ro_eq_Inr)
  have "TcpServer_destroy V this w = Some (Inr (w3\<lparr>servers := (servers w3)(this := None)\<rparr>))"
    using s1 s2 w4 tn server by (simp add: TcpServer_destroy_def del: free_bases.simps)
  moreover have "cells (store w3) c = None" if "serves this w t c" for t c
  proof -
    have "t \<in> set ?ts" "c \<in> qnodes qs (w\<lparr>ext := s2\<rparr>) t"
      using that serves_iff [OF inv server] inv_conn_node [OF ti2, of t c] by auto
    with w3(4) show ?thesis by auto
  qed
  ultimately show ?thesis
    using w3(2,3) by auto
qed

end

subsection \<open>A concrete event layer\<close>

text \<open>
  Bufferevents and event bases are numbered; a bufferevent has an input and an output buffer
  in the table of chunked buffers; a pipe is a queue of integers, its write end the read end
  plus one.
\<close>

record ev_lib = chunk_lib +
  ev_next :: ptr
  ev_fd :: int
  ev_pipes :: "int \<Rightarrow> int list"
  ev_io :: "ptr \<Rightarrow> ptr \<times> ptr"

definition ev_new :: "'z ev_lib_scheme \<Rightarrow> ptr \<times> 'z ev_lib_scheme" where
  "ev_new s = (ev_next s, s\<lparr>ev_next := Suc (ev_next s)\<rparr>)"

definition ref_event :: "'z ev_lib_scheme event_ops" where
  "ref_event =
    \<lparr>event_base_new = ev_new,
     event_base_free = (\<lambda>b s. s),
     event_base_loopbreak = (\<lambda>b s. s),
     event_base_loopexit = (\<lambda>b tv s. s),
     notify_event_add = (\<lambda>b fd t s. (0, s)),
     sys_pipe = (\<lambda>s. (Some (ev_fd s, ev_fd s + 1), s\<lparr>ev_fd := ev_fd s + 2\<rparr>)),
     sys_write_int = (\<lambda>fd v s. (4, s\<lparr>ev_pipes := (ev_pipes s)(fd - 1 := ev_pipes s (fd - 1) @ [v])\<rparr>)),
     sys_read_int = (\<lambda>fd s. case ev_pipes s fd of
        [] \<Rightarrow> (- 1, 0, s)
      | v # vs \<Rightarrow> (4, v, s\<lparr>ev_pipes := (ev_pipes s)(fd := vs)\<rparr>)),
     bufferevent_socket_new = (\<lambda>b fd s.
        (ev_next s, s\<lparr>ev_next := Suc (ev_next s), cl_bufs := cl_bufs s @ [Some [], Some []],
           ev_io := (ev_io s)(ev_next s := (Suc (length (cl_bufs s)), Suc (Suc (length (cl_bufs s)))))\<rparr>)),
     bufferevent_setcb = (\<lambda>bev arg s. s),
     bufferevent_enable = (\<lambda>bev s. s),
     bufferevent_get_input = (\<lambda>bev s. fst (ev_io s bev)),
     bufferevent_get_output = (\<lambda>bev s. snd (ev_io s bev)),
     bufferevent_getfd = (\<lambda>bev s. int bev),
     bufferevent_socket_connect = (\<lambda>bev addr port s. (0, s)),
     evconnlistener_new_bind = (\<lambda>b srv addr port s. ev_new s),
     evconnlistener_free = (\<lambda>l s. s),
     inet_pton = (\<lambda>ip. if ip = ''127.0.0.1'' then Some [127, 0, 0, 1] else None),
     pthread_self = (\<lambda>s. 1),
     pthread_create = (\<lambda>t s. (0, int t, s)),
     error_string = (\<lambda>s. ''error'')\<rparr>"

definition ev_allocated :: "'z ev_lib_scheme \<Rightarrow> ptr set" where
  "ev_allocated s = {..<ev_next s}"

interpretation evref: event_lib "ref_event :: 'z ev_lib_scheme event_ops" ev_allocated
  by unfold_locales (auto simp: ref_event_def ev_allocated_def ev_new_def split: list.splits)

text \<open>Closures that ignore the call or close the connection through the codec's error callback.\<close>

datatype srv_closure = Ignore | Close ErrorCode

primrec srv_call :: "srv_closure \<Rightarrow> ptr \<Rightarrow> ('s, 'cb, 'z) tcp_net_scheme \<Rightarrow> ('s, 'cb, 'z) tcp_net_scheme res option" where
  "srv_call Ignore c w = Some (Inr w)"
| "srv_call (Close e) c w = Some (defaultErrorCallback c e w)"

definition srv_invoker :: "(srv_closure, ('s, srv_closure, 'z) tcp_net_scheme) invoker" where
  "srv_invoker = \<lparr>call_data = srv_call, call_event = (\<lambda>cb c ev w. Some (Inr w))\<rparr>"

lemma defaultErrorCallback_inv:
  assumes inv: "server_inv allocated this qs w" and s: "serves this w t c"
  shows "\<exists>w'. defaultErrorCallback c e w = Inr w' \<and> server_inv allocated this (qs(t := remove1 c (qs t))) w'"
proof -
  obtain server k th where sv: "servers w this = Some server" "t \<in> set (threads server)" "c \<in> set (qs t)"
      "lthreads w t = Some th" "t \<noteq> NULL" "cells (store w) c = Some k" "c \<noteq> NULL" "conn_thread k = t"
      "conn_bev k \<noteq> NULL" "conn_bev k \<in> live_bevs w" "bev_of w c = conn_bev k"
    by (rule served [OF inv s])
  obtain sv' where "servers w this = Some sv'" and ti: "threads_inv qs (srv_main_base sv' # threads sv') w"
      "live_bevs w \<subseteq> allocated (ext w)"
    by (rule server_invE [OF inv])
  then have eq: "sv' = server"
    using sv(1) by simp
  obtain q st where d:
      "deleteConn c (connect_queue th) (store w) = Inr (q, st)"
      "threads_inv (qs(t := remove1 c (qs t))) (srv_main_base server # threads server)
         (w\<lparr>store := st, lthreads := (lthreads w)(t \<mapsto> th\<lparr>connect_queue := q\<rparr>), live_bevs := live_bevs w - {bev_of w c}\<rparr>)"
    by (rule threads_inv_delete [OF ti(1) _ sv(3)]) (use sv(2,4) eq in auto)
  let ?w = "w\<lparr>live_bevs := live_bevs w - {conn_bev k}, store := st, lthreads := (lthreads w)(t \<mapsto> th\<lparr>connect_queue := q\<rparr>)\<rparr>"
  have "thread_deleteConn t c (w\<lparr>live_bevs := live_bevs w - {conn_bev k}\<rparr>) = Inr ?w"
    using d(1) sv(4,5) by (simp add: thread_deleteConn_def)
  then have "defaultErrorCallback c e w = Inr ?w"
    using defaultErrorCallback_eq [OF sv(7,6,9,10)] sv(8) by simp
  moreover have "server_inv allocated this (qs(t := remove1 c (qs t))) ?w"
  proof (rule server_inv_queue [OF inv sv(1,2,4)])
    show "threads_inv (qs(t := remove1 c (qs t))) (srv_main_base server # threads server) ?w"
      by (rule threads_inv_frame [OF d(2)]) (use sv(11) in auto)
  qed (use ti(2) in auto)
  ultimately show ?thesis by blast
qed

interpretation closing: server_callbacks "ref_event :: 'z ev_lib_scheme event_ops" ev_allocated srv_invoker this
  for this
proof
  fix qs and w :: "('z ev_lib_scheme, srv_closure, 'a) tcp_net_scheme" and t c cb ev
  assume inv: "server_inv ev_allocated this qs w" and s: "serves this w t c"
  show "\<exists>w' qs'. call_data srv_invoker cb c w = Some (Inr w') \<and> server_inv ev_allocated this qs' w'"
    using defaultErrorCallback_inv [OF inv s] inv by (cases cb) (auto simp: srv_invoker_def)
  show "\<exists>w'. call_event srv_invoker cb c ev w = Some (Inr w') \<and> server_inv ev_allocated this qs w' \<and>
      servers w' this = servers w this \<and> bev_of w' c = bev_of w c"
    using inv by (simp add: srv_invoker_def)
qed

subsection \<open>Properties\<close>

definition tcp0 :: "(ev_lib, srv_closure) tcp_net" where
  "tcp0 = \<lparr>ext = \<lparr>cl_bufs = [], ev_next = 1, ev_fd = 10, ev_pipes = (\<lambda>_. []), ev_io = (\<lambda>_. (0, 0))\<rparr>,
     store = empty_store, lthreads = Map.empty, live_bevs = {}, servers = Map.empty, clients = Map.empty,
     next_obj = 1\<rparr>"

definition tcp1 :: "(ev_lib, srv_closure) tcp_net" where
  "tcp1 = (case TcpServer_init ref_event 50 2 ''127.0.0.1'' 80 tcp0 of Inr w \<Rightarrow> w | Inl e \<Rightarrow> tcp0)"

lemma tcp1_init: "TcpServer_init ref_event 50 2 ''127.0.0.1'' 80 tcp0 = Inr tcp1"
  unfolding tcp1_def
  by (simp add: TcpServer_init_def tcp0_def new_thread_def LibeventThread_init_def ConnQueue_init_def store_defs
      empty_store_def upd_thread_def setupThread_def ref_event_def ev_new_def numeral_2_eq_2)

lemma tcp0_ok: "store_ok (store tcp0)" "obj_ok tcp0" "live_bevs tcp0 \<subseteq> ev_allocated (ext tcp0)"
  by (simp_all add: tcp0_def obj_ok_def)

lemma tcp1_inv: "server_inv ev_allocated 50 (\<lambda>_. []) tcp1"
  using evref.TcpServer_init_inv [OF tcp0_ok(1,2) _ _ tcp0_ok(3) tcp1_init] by simp

text \<open>
  C4. A server does not corrupt memory: from a constructed server with at least one thread, whatever the
  event loops call and in whatever order (accepting, a thread's pipe, reading, writing, closing, setting
  callbacks, quitting), with callbacks that keep their contract, every handler returns without
  a fault, and every queue again holds exactly its thread's open connections, each with a
  bufferevent of its own that is still allocated.
\<close>

theorem server_never_faults:
  assumes "server_callbacks V allocated I this"
    and "store_ok (store w)" and "obj_ok w" and "this \<noteq> NULL" and "0 < count"
    and "live_bevs w \<subseteq> allocated (ext w)" and "TcpServer_init V this count ip port w = Inr w0"
    and "server_reach V allocated I this w0 w1" and "server_step V allocated I this w1 r"
  shows "\<exists>w2 qs. r = Some (Inr w2) \<and> server_inv allocated this qs w2"
proof -
  have lib: "event_lib V allocated"
    using assms(1) by (simp add: server_callbacks_def)
  have "server_inv allocated this (\<lambda>_. []) w0"
    using event_lib.TcpServer_init_inv [OF lib assms(2-7)] by blast
  then obtain qs where "server_inv allocated this qs w1"
    using server_callbacks.reach_inv [OF assms(1,8)] by blast
  then show ?thesis
    using server_callbacks.step_safe [OF assms(1,9)] by (simp add: server_callbacks.safe_def [OF assms(1)])
qed

theorem server_never_faults_witness:
  "\<exists>w2 qs. acceptCb ref_event 7 50 tcp1 = Inr w2 \<and> server_inv ev_allocated 50 qs w2"
proof -
  have "server_step ref_event ev_allocated srv_invoker 50 tcp1 (Some (acceptCb ref_event 7 50 tcp1))"
    by (rule server_step.Accept)
  from server_never_faults [OF closing.server_callbacks_axioms tcp0_ok(1,2) _ _ tcp0_ok(3) tcp1_init
      server_reach.Start this] show ?thesis by simp
qed

text \<open>
  C19. Accepting a connection hands its descriptor to the least loaded thread: \<open>acceptCb\<close>
  writes it to the pipe of the first thread whose queue is shortest, and changes nothing else.
\<close>

theorem acceptCb_least_loaded:
  assumes "server_inv allocated this qs w" and "servers w this = Some server"
  shows "\<exists>i th. i < thread_count server \<and> lthreads w (threads server ! i) = Some th \<and>
     acceptCb V fd this w = Inr (w\<lparr>ext := snd (sys_write_int V (notify_send_fd th) fd (ext w))\<rparr>) \<and>
     (\<forall>j < thread_count server. load_of w (threads server ! i) \<le> load_of w (threads server ! j)) \<and>
     (\<forall>j < i. load_of w (threads server ! i) < load_of w (threads server ! j)) \<and>
     load_of w (threads server ! i) = of_nat (length (qs (threads server ! i)))"
  by (rule acceptCb_picks [OF assms])

theorem acceptCb_least_loaded_witness:
  "\<exists>w'. acceptCb ref_event 7 50 tcp1 = Inr w' \<and> load_of tcp1 (threads (the (servers tcp1 50)) ! 0) = 0"
proof -
  obtain server where s: "servers tcp1 50 = Some server" "thread_count server = 2"
    using evref.TcpServer_init_inv [OF tcp0_ok(1,2) _ _ tcp0_ok(3) tcp1_init] by auto
  obtain i where i: "\<forall>j < i. load_of tcp1 (threads server ! i) < load_of tcp1 (threads server ! j)"
      "i < thread_count server" "\<forall>j < thread_count server. load_of tcp1 (threads server ! i) \<le> load_of tcp1 (threads server ! j)"
      "load_of tcp1 (threads server ! i) = 0" "\<exists>w'. acceptCb ref_event 7 50 tcp1 = Inr w'"
    using acceptCb_least_loaded [OF tcp1_inv s(1), of ref_event 7] by auto
  have "load_of tcp1 (threads server ! 0) = 0"
    using thread_load_ok(3) [OF tcp1_inv s(1), of 0] s(2) by simp
  with i(5) s(1) show ?thesis by simp
qed

text \<open>
  C20. A descriptor that arrives on a thread's pipe becomes the newest connection of that
  thread, with its own new bufferevent, and is handed to the connection callback; the callback
  gets it before its buffer pointers are set, so appending to its write buffer there
  dereferences a null pointer.
\<close>

theorem notifyHandler_registers:
  assumes "event_lib V allocated" and "server_inv allocated this qs w"
    and "servers w this = Some server" and "t \<in> set (threads server)" and "lthreads w t = Some th"
    and "sys_read_int V (notify_recv_fd th) (ext w) = (4, fd, s1)" and "fd \<noteq> EXIT_CODE"
    and "bufferevent_socket_new V (base th) fd s1 = (bev, s2)" and "bev \<noteq> NULL"
  shows "\<exists>c w'. notifyHandler V I t w = call_if (srv_connect_cb server) (\<lambda>cb. call_data I cb c w') w' \<and>
     server_inv allocated this (qs(t := c # qs t)) w' \<and> serves this w' t c \<and> getFd c w' = Inr fd \<and>
     getBufferevent c w' = Inr bev \<and> bev \<notin> live_bevs w \<and> bev \<in> live_bevs w' \<and>
     addBufToWriteBuffer E c buf w' = Inl Null_deref"
proof (rule event_lib.notify_attach [OF assms])
  fix w'
  let ?c = "next_addr (store w)"
  assume a: "notifyHandler V I t w = call_if (srv_connect_cb server) (\<lambda>cb. call_data I cb ?c w') w'"
    "server_inv allocated this (qs(t := ?c # qs t)) w'" "serves this w' t ?c"
    "map_option conn_data (cells (store w') ?c) = Some (fd, t, bev, NULL, NULL)"
    "live_bevs w' = insert bev (live_bevs w)" "bev \<notin> live_bevs w"
  obtain k where k: "cells (store w') ?c = Some k" "?c \<noteq> NULL"
    by (rule served [OF a(2,3)])
  have "getFd ?c w' = Inr fd" "getBufferevent ?c w' = Inr bev" "addBufToWriteBuffer E ?c buf w' = Inl Null_deref"
    using a(4) k by (auto simp: getFd_def getBufferevent_def addBufToWriteBuffer_def live_writeBuf_def conn_data_def)
  with a show ?thesis by (intro exI [where x = ?c] exI [where x = w']) simp
qed

text \<open>The server with one pending descriptor on the pipe of its first thread.\<close>

definition tcp2 :: "(ev_lib, srv_closure) tcp_net" where
  "tcp2 = (case acceptCb ref_event 7 50 tcp1 of Inr w \<Rightarrow> w | Inl e \<Rightarrow> tcp1)"

lemma tcp1_state:
  "servers tcp1 50 = Some \<lparr>srv_read_cb = None, srv_write_cb = None, srv_connect_cb = None, srv_event_cb = None,
     thread_count = 2, srv_port = 80, srv_ip = ''127.0.0.1'', srv_main_base = 1, threads = [2, 3]\<rparr>"
  "lthreads tcp1 2 = Some \<lparr>thread_id = 0, base = 2, notify_send_fd = 11, notify_recv_fd = 10,
     connect_queue = \<lparr>total = 0, head = 3, tail = 4\<rparr>, lt_owner = Server_owner 50\<rparr>"
  "lthreads tcp1 3 = Some \<lparr>thread_id = 0, base = 3, notify_send_fd = 13, notify_recv_fd = 12,
     connect_queue = \<lparr>total = 0, head = 5, tail = 6\<rparr>, lt_owner = Server_owner 50\<rparr>"
  "ev_pipes (ext tcp1) = (\<lambda>_. [])" "ev_next (ext tcp1) = 4"
  unfolding tcp1_def
  by (simp_all add: TcpServer_init_def tcp0_def new_thread_def LibeventThread_init_def ConnQueue_init_def store_defs
      empty_store_def upd_thread_def setupThread_def ref_event_def ev_new_def numeral_2_eq_2)

lemma tcp2_eq: "tcp2 = tcp1\<lparr>ext := (ext tcp1)\<lparr>ev_pipes := (\<lambda>_. [])(10 := [7])\<rparr>\<rparr>"
  unfolding tcp2_def
  by (simp add: acceptCb_def tcp1_state thread_load_def getCount_def ref_event_def upt_conv_Cons)

lemma tcp2_inv: "server_inv ev_allocated 50 (\<lambda>_. []) tcp2"
  unfolding tcp2_eq by (rule server_inv_frame [OF tcp1_inv]) (auto simp: ev_allocated_def)

lemma tcp2_facts:
  defines "sv \<equiv> the (servers tcp2 50)" and "th \<equiv> the (lthreads tcp2 2)" and "s \<equiv> (ext tcp2)\<lparr>ev_pipes := (\<lambda>_. [])\<rparr>"
  shows "servers tcp2 50 = Some sv" "2 \<in> set (threads sv)" "lthreads tcp2 2 = Some th"
    "sys_read_int ref_event (notify_recv_fd th) (ext tcp2) = (4, 7, s)" "7 \<noteq> EXIT_CODE"
    "bufferevent_socket_new ref_event (base th) 7 s = (4, snd (bufferevent_socket_new ref_event (base th) 7 s))"
    "srv_connect_cb sv = None"
  by (simp_all add: sv_def th_def s_def tcp2_eq tcp1_state ref_event_def fun_eq_iff EXIT_CODE_def)

theorem notifyHandler_registers_witness:
  "\<exists>c w'. notifyHandler ref_event srv_invoker 2 tcp2 = Some (Inr w') \<and> serves 50 w' 2 c \<and> getFd c w' = Inr 7 \<and>
     4 \<in> live_bevs w' \<and> addBufToWriteBuffer chunked c 9 w' = Inl Null_deref"
  using notifyHandler_registers [OF evref.event_lib_axioms tcp2_inv tcp2_facts(1-6), of srv_invoker chunked 9]
    tcp2_facts(7) by auto

text \<open>
  C22. Destroying a server returns, deletes the server, all its threads and every connection it
  serves; the bufferevents of those connections are not released.
\<close>

theorem TcpServer_destroy_frees:
  assumes "event_lib V allocated" and "server_inv allocated this qs w" and "servers w this = Some server"
  shows "\<exists>w'. TcpServer_destroy V this w = Some (Inr w') \<and> servers w' this = None \<and>
     (\<forall>t \<in> set (srv_main_base server # threads server). lthreads w' t = None) \<and>
     (\<forall>t c. serves this w t c \<longrightarrow> cells (store w') c = None) \<and> live_bevs w' = live_bevs w"
  by (rule event_lib.destroy_frees [OF assms])

theorem TcpServer_destroy_frees_witness:
  "\<exists>w'. TcpServer_destroy ref_event 50 tcp1 = Some (Inr w') \<and> servers w' 50 = None \<and> lthreads w' 2 = None"
  using TcpServer_destroy_frees [OF evref.event_lib_axioms tcp1_inv tcp1_state(1)] by auto

text \<open>
  C21. When a served connection fails or is closed by its peer, \<open>bufferEventCb\<close> calls the event
  callback, removes exactly that connection from its thread's queue, deletes it, and releases
  its bufferevent once.
\<close>

theorem bufferEventCb_closes:
  assumes "server_callbacks V allocated I this" and "server_inv allocated this qs w" and "serves this w t c"
  shows "\<exists>w'. bufferEventCb I (bev_of w c) events c w = Some (Inr w') \<and>
     server_inv allocated this (qs(t := remove1 c (qs t))) w' \<and> cells (store w') c = None \<and>
     bev_of w c \<notin> live_bevs w'"
  using server_callbacks.bufferEventCb_removes [OF assms] by blast

theorem bufferEventCb_closes_witness:
  "\<exists>(w :: (ev_lib, srv_closure) tcp_net) w' c. serves 50 w 2 c \<and> bufferEventCb srv_invoker (bev_of w c) 16 c w = Some (Inr w') \<and>
     cells (store w') c = None \<and> bev_of w c \<notin> live_bevs w'"
proof (rule evref.notify_attach [OF tcp2_inv tcp2_facts(1-6), of srv_invoker])
  fix w' :: "(ev_lib, srv_closure) tcp_net"
  assume a: "server_inv ev_allocated 50 ((\<lambda>_. [])(2 := [next_addr (store tcp2)])) w'" "serves 50 w' 2 (next_addr (store tcp2))"
  from bufferEventCb_closes [OF closing.server_callbacks_axioms a, of 16] a(2) show ?thesis
    by blast
qed simp

end
