(* ===== verification/Tcp_Client.thy ===== *)
theory Tcp_Client
  imports Tcp_Server
begin

text \<open>
  \<open>src/tcpClient.cpp\<close>: the class \<open>TcpClient\<close>. The client's connection \<open>conn_\<close> and its thread
  \<open>main_base\<close> are members of the object; in the model they have addresses of their own. The
  connection is in no queue.
\<close>

subsection \<open>The object\<close>

definition TcpClient_init ::
  "'s event_ops \<Rightarrow> ptr \<Rightarrow> string \<Rightarrow> int \<Rightarrow> ('s, 'cb, 'z) tcp_net_scheme \<Rightarrow> ('s, 'cb, 'z) tcp_net_scheme res" where
  "TcpClient_init V this ip port w =
     (let (conn, st) = new_Conn 0 (store w) in
      bind_res (new_thread (w\<lparr>store := st\<rparr>)) (\<lambda>(main_base, w).
      let w = w\<lparr>clients := (clients w)(this \<mapsto>
            \<lparr>cl_read_cb = None, cl_write_cb = None, cl_connect_cb = None, cl_event_cb = None,
             cl_port = port, cl_ip = ip, cl_conn = conn, cl_main_base = main_base\<rparr>)\<rparr> in
      bind_res (upd_thread main_base (\<lambda>t. t\<lparr>thread_id := pthread_self V (ext w)\<rparr>) w) (\<lambda>w.
      bind_res (upd_conn conn (\<lambda>c. c\<lparr>conn_thread := main_base\<rparr>) w) (\<lambda>w.
      bind_res (upd_thread main_base (\<lambda>t. t\<lparr>lt_owner := Client_owner this\<rparr>) w) (\<lambda>w.
      let (b, s) = event_base_new V (ext w) in
      bind_res (upd_thread main_base (\<lambda>t. t\<lparr>base := b\<rparr>) (w\<lparr>ext := s\<rparr>)) (\<lambda>w.
      if b = NULL then Inl (Net_err (''Client event_base_new error:'' @ error_string V (ext w)))
      else Inr w))))))"

definition upd_client ::
  "ptr \<Rightarrow> ('cb TcpClient \<Rightarrow> 'cb TcpClient) \<Rightarrow> ('s, 'cb, 'z) tcp_net_scheme \<Rightarrow> ('s, 'cb, 'z) tcp_net_scheme res" where
  "upd_client this f w =
     bind_res (deref (clients w) this) (\<lambda>c. Inr (w\<lparr>clients := (clients w)(this \<mapsto> f c)\<rparr>))"

definition client_setReadCallback where
  "client_setReadCallback this cb w = upd_client this (\<lambda>s. s\<lparr>cl_read_cb := cb\<rparr>) w"

definition client_setWriteCallback where
  "client_setWriteCallback this cb w = upd_client this (\<lambda>s. s\<lparr>cl_write_cb := cb\<rparr>) w"

definition client_setConnectionCallback where
  "client_setConnectionCallback this cb w = upd_client this (\<lambda>s. s\<lparr>cl_connect_cb := cb\<rparr>) w"

definition client_setEventCallback where
  "client_setEventCallback this cb w = upd_client this (\<lambda>s. s\<lparr>cl_event_cb := cb\<rparr>) w"

subsection \<open>Handlers\<close>

definition client_bufferReadCb ::
  "'s event_ops \<Rightarrow> ('cb, ('s, 'cb, 'z) tcp_net_scheme) invoker \<Rightarrow> ptr \<Rightarrow> ptr \<Rightarrow>
   ('s, 'cb, 'z) tcp_net_scheme \<Rightarrow> ('s, 'cb, 'z) tcp_net_scheme res option" where
  "client_bufferReadCb V I bev data w =
     bind_ro (Some (fetch_buffers V bev data w)) (\<lambda>w.
     bind_ro (Some (getThread data w)) (\<lambda>thread.
     bind_ro (Some (client_of thread w)) (\<lambda>client.
     call_if (cl_read_cb client) (\<lambda>cb. call_data I cb data w) w)))"

definition client_bufferWriteCb ::
  "'s event_ops \<Rightarrow> ('cb, ('s, 'cb, 'z) tcp_net_scheme) invoker \<Rightarrow> ptr \<Rightarrow> ptr \<Rightarrow>
   ('s, 'cb, 'z) tcp_net_scheme \<Rightarrow> ('s, 'cb, 'z) tcp_net_scheme res option" where
  "client_bufferWriteCb V I bev data w =
     bind_ro (Some (fetch_buffers V bev data w)) (\<lambda>w.
     bind_ro (Some (getThread data w)) (\<lambda>thread.
     bind_ro (Some (client_of thread w)) (\<lambda>client.
     call_if (cl_write_cb client) (\<lambda>cb. call_data I cb data w) w)))"

definition BEV_EVENT_READING :: int where "BEV_EVENT_READING = 0x01"
definition BEV_EVENT_WRITING :: int where "BEV_EVENT_WRITING = 0x02"
definition BEV_EVENT_EOF :: int where "BEV_EVENT_EOF = 0x10"
definition BEV_EVENT_ERROR :: int where "BEV_EVENT_ERROR = 0x20"
definition BEV_EVENT_TIMEOUT :: int where "BEV_EVENT_TIMEOUT = 0x40"
definition BEV_EVENT_CONNECTED :: int where "BEV_EVENT_CONNECTED = 0x80"

text \<open>The connected flag counts only when no other flag is set before it in the chain of tests.\<close>

definition is_connected :: "int \<Rightarrow> bool" where
  "is_connected events \<longleftrightarrow>
     (if events AND BEV_EVENT_EOF \<noteq> 0 then False
      else if events AND BEV_EVENT_READING \<noteq> 0 then False
      else if events AND BEV_EVENT_WRITING \<noteq> 0 then False
      else if events AND BEV_EVENT_TIMEOUT \<noteq> 0 then False
      else if events AND BEV_EVENT_ERROR \<noteq> 0 then False
      else events AND BEV_EVENT_CONNECTED \<noteq> 0)"

definition client_bufferEventCb ::
  "'s event_ops \<Rightarrow> ('cb, ('s, 'cb, 'z) tcp_net_scheme) invoker \<Rightarrow> ptr \<Rightarrow> int \<Rightarrow> ptr \<Rightarrow>
   ('s, 'cb, 'z) tcp_net_scheme \<Rightarrow> ('s, 'cb, 'z) tcp_net_scheme res option" where
  "client_bufferEventCb V I bev events data w =
     (if is_connected events then
        bind_ro (Some (upd_conn data (\<lambda>c. c\<lparr>conn_fd := bufferevent_getfd V bev (ext w)\<rparr>) w)) (\<lambda>w.
        bind_ro (Some (fetch_buffers V bev data w)) (\<lambda>w.
        bind_ro (Some (getThread data w)) (\<lambda>thread.
        bind_ro (Some (client_of thread w)) (\<lambda>client.
        call_if (cl_connect_cb client) (\<lambda>cb. call_data I cb data w) w))))
      else
        bind_ro (Some (getThread data w)) (\<lambda>thread.
        bind_ro (Some (client_of thread w)) (\<lambda>client.
        bind_ro (call_if (cl_event_cb client) (\<lambda>cb. call_event I cb data events w) w) (\<lambda>w.
        Some (free_bev bev w)))))"

subsection \<open>Running and stopping\<close>

definition client_startRun ::
  "'s event_ops \<Rightarrow> (ptr \<Rightarrow> ('s, 'cb, 'z) tcp_net_scheme \<Rightarrow> ('s, 'cb, 'z) tcp_net_scheme res option) \<Rightarrow>
   ptr \<Rightarrow> ('s, 'cb, 'z) tcp_net_scheme \<Rightarrow> ('s, 'cb, 'z) tcp_net_scheme res option" where
  "client_startRun V dispatch this w =
     bind_ro (Some (deref (clients w) this)) (\<lambda>client.
     case server_addr V (cl_ip client) of
       None \<Rightarrow> Some (Inl (Net_err ''sokcet ip error!''))
     | Some addr \<Rightarrow>
         bind_ro (Some (deref (lthreads w) (cl_main_base client))) (\<lambda>m.
         let (bev, w) = new_bev V (base m) (- 1) w in
         bind_ro (Some (upd_conn (cl_conn client) (\<lambda>c. c\<lparr>conn_bev := bev\<rparr>) w)) (\<lambda>w.
         if bev = NULL then Some (Inl (Net_err (''New bufferevent socket error:'' @ error_string V (ext w))))
         else
           let w = w\<lparr>ext := bufferevent_setcb V bev (cl_conn client) (ext w)\<rparr>;
               w = w\<lparr>ext := bufferevent_enable V bev (ext w)\<rparr>;
               (r, s) = bufferevent_socket_connect V bev addr (cl_port client) (ext w);
               w = w\<lparr>ext := s\<rparr>
           in if r < 0 then Some (free_bev bev w)
              else dispatch (base m) w)))"

definition client_quit ::
  "'s event_ops \<Rightarrow> ptr \<Rightarrow> nat option \<Rightarrow> ('s, 'cb, 'z) tcp_net_scheme \<Rightarrow> ('s, 'cb, 'z) tcp_net_scheme res" where
  "client_quit V this tv w =
     bind_res (deref (clients w) this) (\<lambda>client.
     bind_res (deref (cells (store w)) (cl_conn client)) (\<lambda>conn.
     bind_res (free_bev (conn_bev conn) w) (\<lambda>w.
     bind_res (deref (lthreads w) (cl_main_base client)) (\<lambda>m.
     Inr (w\<lparr>ext := event_base_loopexit V (base m) tv (ext w)\<rparr>)))))"

definition TcpClient_destroy ::
  "'s event_ops \<Rightarrow> ptr \<Rightarrow> ('s, 'cb, 'z) tcp_net_scheme \<Rightarrow> ('s, 'cb, 'z) tcp_net_scheme res option" where
  "TcpClient_destroy V this w =
     bind_ro (Some (client_quit V this None w)) (\<lambda>w.
     bind_ro (Some (deref (clients w) this)) (\<lambda>client.
     bind_ro (Some (deref (lthreads w) (cl_main_base client))) (\<lambda>m.
     let w = w\<lparr>ext := event_base_free V (base m) (ext w)\<rparr> in
     bind_ro (delete_thread (cl_main_base client) w) (\<lambda>w.
     bind_ro (Some (delete_Conn (cl_conn client) (store w))) (\<lambda>st.
     Some (Inr (w\<lparr>store := st, clients := (clients w)(this := None)\<rparr>)))))))"

subsection \<open>The state of a client\<close>

text \<open>
  \<open>client_inv this w cl k\<close>: the object is alive, its connection holds \<open>k\<close>, belongs to the
  client's own thread and is linked nowhere, and the thread's queue is empty.
\<close>

definition client_inv :: "ptr \<Rightarrow> ('s, 'cb, 'z) tcp_net_scheme \<Rightarrow> 'cb TcpClient \<Rightarrow> Conn \<Rightarrow> bool" where
  "client_inv this w cl k \<longleftrightarrow> this \<noteq> NULL \<and> clients w this = Some cl \<and> cl_conn cl \<noteq> NULL \<and>
     cells (store w) (cl_conn cl) = Some k \<and> conn_thread k = cl_main_base cl \<and>
     conn_pre k = NULL \<and> conn_next k = NULL \<and> cl_main_base cl \<noteq> NULL \<and>
     (\<exists>th. lthreads w (cl_main_base cl) = Some th \<and> lt_owner th = Client_owner this \<and>
        queue_rep (connect_queue th) (store w) [] \<and> cl_conn cl \<notin> set (nodes (connect_queue th) []))"

lemma client_invE:
  assumes "client_inv this w cl k"
  obtains th where "this \<noteq> NULL" and "clients w this = Some cl" and "cl_conn cl \<noteq> NULL"
    and "cells (store w) (cl_conn cl) = Some k" and "conn_thread k = cl_main_base cl"
    and "conn_pre k = NULL" and "cl_main_base cl \<noteq> NULL" and "lthreads w (cl_main_base cl) = Some th"
    and "lt_owner th = Client_owner this" and "queue_rep (connect_queue th) (store w) []"
    and "cl_conn cl \<notin> set (nodes (connect_queue th) [])"
  using assms by (auto simp: client_inv_def)

lemma client_inv_frame:
  assumes "client_inv this w cl k" and "store w' = store w" "lthreads w' = lthreads w" "clients w' = clients w"
  shows "client_inv this w' cl k"
  using assms by (simp add: client_inv_def)

lemma client_inv_update:
  assumes inv: "client_inv this w cl k"
    and f: "conn_thread (f k) = conn_thread k" "conn_pre (f k) = conn_pre k" "conn_next (f k) = conn_next k"
  shows "upd_conn (cl_conn cl) f w = Inr (w\<lparr>store := (store w)\<lparr>cells := (cells (store w))(cl_conn cl \<mapsto> f k)\<rparr>\<rparr>) \<and>
     client_inv this (w\<lparr>store := (store w)\<lparr>cells := (cells (store w))(cl_conn cl \<mapsto> f k)\<rparr>\<rparr>) cl (f k)"
proof -
  obtain th where th: "cl_conn cl \<noteq> NULL" "cells (store w) (cl_conn cl) = Some k"
      "lthreads w (cl_main_base cl) = Some th" "queue_rep (connect_queue th) (store w) []"
      "cl_conn cl \<notin> set (nodes (connect_queue th) [])"
    by (rule client_invE [OF inv])
  have "queue_rep (connect_queue th) ((store w)\<lparr>cells := (cells (store w))(cl_conn cl \<mapsto> f k)\<rparr>) []"
    using th(4,5) by (subst queue_rep_cong [where st = "store w"]) auto
  then show ?thesis
    using inv th f by (simp add: client_inv_def upd_conn_def upd_Conn_def)
qed

lemma client_of_inv: "client_inv this w cl k \<Longrightarrow> client_of (cl_main_base cl) w = Inr cl \<and> getThread (cl_conn cl) w = Inr (cl_main_base cl)"
  by (auto simp: client_inv_def client_of_def getThread_def)

lemma client_init_inv:
  assumes "store_ok (store w)" and "obj_ok w" and "this \<noteq> NULL" and r: "TcpClient_init V this ip port w = Inr w'"
  shows "\<exists>cl k. client_inv this w' cl k \<and> conn_bev k = NULL \<and> cl_ip cl = ip \<and> cl_port cl = port"
proof -
  let ?c = "next_addr (store w)" and ?m = "next_obj w"
  let ?st = "(store w)\<lparr>cells := (cells (store w))(?c \<mapsto> Conn_init 0), next_addr := Suc ?c\<rparr>"
  have "store_ok ?st"
    using assms(1) by (auto simp: store_ok_def)
  then obtain q st where q: "ConnQueue_init ?st = Inr (q, st)" "queue_rep q st []" "head q = Suc ?c" "tail q = Suc (Suc ?c)"
      "\<forall>p < Suc ?c. cells st p = cells ?st p"
    using ConnQueue_init_rep [of ?st] by auto
  have c: "cells st ?c = Some (Conn_init 0)" "?c \<noteq> NULL" "?m \<noteq> NULL"
    using q(5) assms(1,2) by (auto simp: store_ok_def obj_ok_def)
  obtain b s where b: "event_base_new V (ext w) = (b, s)"
    by fastforce
  let ?k = "(Conn_init 0)\<lparr>conn_thread := ?m\<rparr>"
  have qr: "queue_rep q (st\<lparr>cells := (cells st)(?c \<mapsto> ?k)\<rparr>) []"
    using q(2-4) by (subst queue_rep_cong [where st = st]) (auto simp: nodes_def)
  show ?thesis
    using r b q(1,3,4) c qr assms(3)
    by (auto simp: TcpClient_init_def new_Conn_def new_thread_def LibeventThread_init_def upd_thread_def
        upd_conn_def upd_Conn_def client_inv_def nodes_def Conn_init_def Let_def split: if_splits)
qed

lemma client_init_frame:
  "TcpClient_init V this ip port w = Inr w' \<Longrightarrow>
     w' = w\<lparr>ext := ext w', store := store w', lthreads := lthreads w', clients := clients w', next_obj := Suc (next_obj w)\<rparr>"
  by (auto simp: TcpClient_init_def new_Conn_def new_thread_def upd_thread_def upd_conn_def
      bind_res_eq_Inr case_prod_beta Let_def split: if_splits)

lemma client_started:
  assumes inv: "client_inv this w cl k" and m: "lthreads w (cl_main_base cl) = Some m"
    and a: "server_addr V (cl_ip cl) = Some addr"
    and b: "bufferevent_socket_new V (base m) (- 1) (ext w) = (bev, s1)" "bev \<noteq> NULL"
    and r: "bufferevent_socket_connect V bev addr (cl_port cl)
       (bufferevent_enable V bev (bufferevent_setcb V bev (cl_conn cl) s1)) = (r, s2)"
  obtains w' where "client_startRun V dispatch this w = (if r < 0 then Some (free_bev bev w') else dispatch (base m) w')"
    and "client_inv this w' cl (k\<lparr>conn_bev := bev\<rparr>)" and "live_bevs w' = insert bev (live_bevs w)" and "ext w' = s2"
    and "w' = w\<lparr>ext := s2, store := store w', live_bevs := insert bev (live_bevs w)\<rparr>"
proof -
  obtain th where th: "this \<noteq> NULL" "clients w this = Some cl" "cl_conn cl \<noteq> NULL"
      "cells (store w) (cl_conn cl) = Some k" "cl_main_base cl \<noteq> NULL"
    by (rule client_invE [OF inv])
  let ?w1 = "w\<lparr>ext := s1, live_bevs := insert bev (live_bevs w)\<rparr>"
  let ?w2 = "?w1\<lparr>store := (store w)\<lparr>cells := (cells (store w))(cl_conn cl \<mapsto> k\<lparr>conn_bev := bev\<rparr>)\<rparr>\<rparr>"
  have "client_inv this ?w1 cl k"
    by (rule client_inv_frame [OF inv]) simp_all
  then have u: "upd_conn (cl_conn cl) (\<lambda>c. c\<lparr>conn_bev := bev\<rparr>) ?w1 = Inr ?w2" "client_inv this ?w2 cl (k\<lparr>conn_bev := bev\<rparr>)"
    using client_inv_update [of this ?w1 cl k "\<lambda>c. c\<lparr>conn_bev := bev\<rparr>"] by simp_all
  have "client_startRun V dispatch this w =
      (if r < 0 then Some (free_bev bev (?w2\<lparr>ext := s2\<rparr>)) else dispatch (base m) (?w2\<lparr>ext := s2\<rparr>))"
    using th m a b r u(1) by (simp add: client_startRun_def new_bev_def)
  moreover have "client_inv this (?w2\<lparr>ext := s2\<rparr>) cl (k\<lparr>conn_bev := bev\<rparr>)"
    by (rule client_inv_frame [OF u(2)]) simp_all
  ultimately show ?thesis
    using that by simp
qed

text \<open>A client, constructed and then started on an event loop that ends at once.\<close>

definition cli1 :: "(ev_lib, srv_closure) tcp_net" where
  "cli1 = (case TcpClient_init ref_event 60 ''127.0.0.1'' 80 tcp0 of Inr w \<Rightarrow> w | Inl e \<Rightarrow> tcp0)"

lemma cli1_init: "TcpClient_init ref_event 60 ''127.0.0.1'' 80 tcp0 = Inr cli1"
  unfolding cli1_def
  by (simp add: TcpClient_init_def tcp0_def new_thread_def LibeventThread_init_def ConnQueue_init_def store_defs
      empty_store_def upd_thread_def upd_conn_def ref_event_def ev_new_def)

lemma cli1_state: "clients cli1 60 = Some \<lparr>cl_read_cb = None, cl_write_cb = None, cl_connect_cb = None, cl_event_cb = None,
     cl_port = 80, cl_ip = ''127.0.0.1'', cl_conn = 1, cl_main_base = 1\<rparr>"
  "\<exists>m. lthreads cli1 1 = Some m" "ev_next (ext cli1) = 2"
  unfolding cli1_def
  by (simp_all add: TcpClient_init_def tcp0_def new_thread_def LibeventThread_init_def ConnQueue_init_def store_defs
      empty_store_def upd_thread_def upd_conn_def ref_event_def ev_new_def)

lemma cli1_inv:
  obtains k where "client_inv 60 cli1 (the (clients cli1 60)) k" and "conn_bev k = NULL"
  using client_init_inv [OF tcp0_ok(1,2) _ cli1_init] by (auto simp: client_inv_def)

lemma cli2:
  obtains w k where "client_startRun ref_event (\<lambda>b w. Some (Inr w)) 60 cli1 = Some (Inr w)"
    and "client_inv 60 w (the (clients cli1 60)) k" and "conn_bev k = 2" and "2 \<in> live_bevs w"
    and "bufferevent_get_output ref_event 2 (ext w) \<noteq> NULL" and "ch_evb (ext w) (bufferevent_get_output ref_event 2 (ext w)) = Some []"
proof -
  obtain k where k: "client_inv 60 cli1 (the (clients cli1 60)) k"
    by (rule cli1_inv)
  obtain m where m: "lthreads cli1 1 = Some m"
    using cli1_state(2) by blast
  obtain s1 where b: "bufferevent_socket_new ref_event (base m) (- 1) (ext cli1) = (2, s1)"
    and s1: "bufferevent_get_output ref_event 2 s1 \<noteq> NULL" "ch_evb s1 (bufferevent_get_output ref_event 2 s1) = Some []"
    by (simp add: ref_event_def cli1_state ch_evb_def ch_at_def nth_append)
  show ?thesis
    by (rule client_started [OF k _ _ b, of "[127, 0, 0, 1]" 0 s1 "\<lambda>b w. Some (Inr w)"])
      (use m s1 that [of _ "k\<lparr>conn_bev := 2\<rparr>"] in \<open>simp_all add: cli1_state server_addr_def ref_event_def\<close>)
qed

subsection \<open>Properties\<close>

text \<open>
  A client that was started and is destroyed before anything else released its bufferevent
  is destroyed cleanly: its bufferevent is released once, its thread, its connection and the
  object are gone.
\<close>

theorem client_destroy_ok:
  assumes "client_inv this w cl k" and "conn_bev k \<noteq> NULL" and "conn_bev k \<in> live_bevs w"
  shows "\<exists>w'. TcpClient_destroy V this w = Some (Inr w') \<and> live_bevs w' = live_bevs w - {conn_bev k} \<and>
     clients w' this = None \<and> lthreads w' (cl_main_base cl) = None \<and> cells (store w') (cl_conn cl) = None"
proof -
  obtain th where th: "this \<noteq> NULL" "clients w this = Some cl" "cl_conn cl \<noteq> NULL"
      "cells (store w) (cl_conn cl) = Some k" "cl_main_base cl \<noteq> NULL" "lthreads w (cl_main_base cl) = Some th"
      "queue_rep (connect_queue th) (store w) []" "cl_conn cl \<notin> set (nodes (connect_queue th) [])"
    by (rule client_invE [OF assms(1)])
  obtain st where st: "ConnQueue_destroy (connect_queue th) (store w) = Some (Inr st)" "cells st (cl_conn cl) = Some k"
    using free_from_linked [of "nodes (connect_queue th) []" "store w"] th(4,7,8)
    by (auto simp: queue_rep_def ConnQueue_destroy_def nodes_def)
  show ?thesis
    using th st assms(2,3)
    by (simp add: TcpClient_destroy_def client_quit_def free_bev_def delete_thread_def delete_Conn_def)
qed

lemma released_twice:
  assumes "client_inv this w cl k" and "conn_bev k \<noteq> NULL"
  shows "TcpClient_destroy V this (w\<lparr>live_bevs := live_bevs w - {conn_bev k}\<rparr>) = Some (Inl Double_free)"
    and "TcpClient_destroy V this (w\<lparr>live_bevs := live_bevs w - {conn_bev k}, ext := s\<rparr>) = Some (Inl Double_free)"
  using assms by (auto simp: client_inv_def TcpClient_destroy_def client_quit_def free_bev_def)

theorem client_destroy_ok_witness:
  "\<exists>w w'. client_startRun ref_event (\<lambda>b w. Some (Inr w)) 60 cli1 = Some (Inr w) \<and>
     TcpClient_destroy ref_event 60 w = Some (Inr w') \<and> 2 \<in> live_bevs w \<and> 2 \<notin> live_bevs w' \<and> clients w' 60 = None"
proof (rule cli2)
  fix w k
  assume a: "client_startRun ref_event (\<lambda>b w. Some (Inr w)) 60 cli1 = Some (Inr w)"
    "client_inv 60 w (the (clients cli1 60)) k" "conn_bev k = 2" "2 \<in> live_bevs w"
  from client_destroy_ok [OF a(2), of ref_event] a show ?thesis by auto
qed

text \<open>
  C28. The client releases its bufferevent again whenever it was released before. After an error
  event on the connection (whose event callback, if one is set, returns and leaves the client's
  connection and bufferevent in place), after \<open>quit\<close>, and after a \<open>startRun\<close> whose connect
  failed, the destructor releases it a second time; and a client that was never started
  releases a null bufferevent.
\<close>

theorem client_double_release:
  assumes "client_inv this w cl k" and "conn_bev k \<noteq> NULL" and "conn_bev k \<in> live_bevs w"
    and "\<not> is_connected events"
    and "call_if (cl_event_cb cl) (\<lambda>cb. call_event I cb (cl_conn cl) events w) w = Some (Inr w1)"
    and "client_inv this w1 cl k1" and "conn_bev k1 = conn_bev k" and "conn_bev k \<in> live_bevs w1"
    and "client_inv this v cl k0" and "conn_bev k0 = NULL"
  shows "(\<exists>w'. client_bufferEventCb V I (conn_bev k) events (cl_conn cl) w = Some (Inr w') \<and>
         TcpClient_destroy V this w' = Some (Inl Double_free)) \<and>
    (\<exists>w'. client_quit V this tv w = Inr w' \<and> TcpClient_destroy V this w' = Some (Inl Double_free)) \<and>
    TcpClient_destroy V this v = Some (Inl Null_deref) \<and>
    (\<forall>dispatch m addr bev s1 r s2.
       lthreads v (cl_main_base cl) = Some m \<and> server_addr V (cl_ip cl) = Some addr \<and>
       bufferevent_socket_new V (base m) (- 1) (ext v) = (bev, s1) \<and> bev \<noteq> NULL \<and>
       bufferevent_socket_connect V bev addr (cl_port cl)
         (bufferevent_enable V bev (bufferevent_setcb V bev (cl_conn cl) s1)) = (r, s2) \<and> r < 0 \<longrightarrow>
       (\<exists>w'. client_startRun V dispatch this v = Some (Inr w') \<and> TcpClient_destroy V this w' = Some (Inl Double_free)))"
proof (intro conjI allI impI)
  show "\<exists>w'. client_bufferEventCb V I (conn_bev k) events (cl_conn cl) w = Some (Inr w') \<and>
         TcpClient_destroy V this w' = Some (Inl Double_free)"
    using released_twice [OF assms(6), of V] client_of_inv [OF assms(1)] assms(2,4,5,7,8)
    by (simp add: client_bufferEventCb_def free_bev_def)
  show "\<exists>w'. client_quit V this tv w = Inr w' \<and> TcpClient_destroy V this w' = Some (Inl Double_free)"
    by (rule client_invE [OF assms(1)]) (simp add: client_quit_def free_bev_def assms(2,3) released_twice(2) [OF assms(1,2)])
  show "TcpClient_destroy V this v = Some (Inl Null_deref)"
    using assms(9,10) by (auto simp: client_inv_def TcpClient_destroy_def client_quit_def free_bev_def)
next
  fix dispatch m addr bev s1 r s2
  assume a: "lthreads v (cl_main_base cl) = Some m \<and> server_addr V (cl_ip cl) = Some addr \<and>
       bufferevent_socket_new V (base m) (- 1) (ext v) = (bev, s1) \<and> bev \<noteq> NULL \<and>
       bufferevent_socket_connect V bev addr (cl_port cl)
         (bufferevent_enable V bev (bufferevent_setcb V bev (cl_conn cl) s1)) = (r, s2) \<and> r < 0"
  then obtain v' where v': "client_startRun V dispatch this v = Some (free_bev bev v')"
      "client_inv this v' cl (k0\<lparr>conn_bev := bev\<rparr>)" "bev \<in> live_bevs v'"
    by (auto intro: client_started [OF assms(9), of m V addr bev s1 r s2 dispatch])
  show "\<exists>w'. client_startRun V dispatch this v = Some (Inr w') \<and> TcpClient_destroy V this w' = Some (Inl Double_free)"
    using released_twice [OF v'(2), of V] v'(1,3) a by (simp add: free_bev_def)
qed

definition refusing_event :: "'z ev_lib_scheme event_ops" where
  "refusing_event = ref_event\<lparr>bufferevent_socket_connect := (\<lambda>bev addr port s. (- 1, s))\<rparr>"

theorem client_double_release_witness:
  "\<exists>(w :: (ev_lib, srv_closure) tcp_net) w' w'' v.
     client_bufferEventCb refusing_event srv_invoker 2 BEV_EVENT_EOF 1 w = Some (Inr w') \<and>
     TcpClient_destroy refusing_event 60 w' = Some (Inl Double_free) \<and>
     client_quit refusing_event 60 None w = Inr w'' \<and> TcpClient_destroy refusing_event 60 w'' = Some (Inl Double_free) \<and>
     TcpClient_destroy refusing_event 60 cli1 = Some (Inl Null_deref) \<and>
     client_startRun refusing_event (\<lambda>b w. Some (Inr w)) 60 cli1 = Some (Inr v) \<and>
     TcpClient_destroy refusing_event 60 v = Some (Inl Double_free)"
proof (rule cli2)
  fix w :: "(ev_lib, srv_closure) tcp_net" and k
  assume a: "client_inv 60 w (the (clients cli1 60)) k" "conn_bev k = 2" "2 \<in> live_bevs w"
  let ?cl = "the (clients cli1 60)"
  have e: "\<not> is_connected BEV_EVENT_EOF" "cl_conn ?cl = 1"
      "call_if (cl_event_cb ?cl) (\<lambda>cb. call_event srv_invoker cb (cl_conn ?cl) BEV_EVENT_EOF w) w = Some (Inr w)"
    by (simp_all add: is_connected_def BEV_EVENT_EOF_def cli1_state call_if_def)
  obtain k0 where k0: "client_inv 60 cli1 ?cl k0" "conn_bev k0 = NULL"
    by (rule cli1_inv)
  obtain m s1 where m: "lthreads cli1 (cl_main_base ?cl) = Some m" "server_addr (refusing_event :: ev_lib event_ops) (cl_ip ?cl) = Some [127, 0, 0, 1]"
      "bufferevent_socket_new refusing_event (base m) (- 1) (ext cli1) = (2, s1)"
      "bufferevent_socket_connect refusing_event 2 [127, 0, 0, 1] (cl_port ?cl)
         (bufferevent_enable refusing_event 2 (bufferevent_setcb refusing_event 2 (cl_conn ?cl) s1)) = (- 1, s1)"
    using cli1_state by (auto simp: refusing_event_def ref_event_def server_addr_def)
  have b: "conn_bev k \<noteq> NULL" "conn_bev k \<in> live_bevs w"
    using a(2,3) by simp_all
  note d = client_double_release [OF a(1) b e(1,3) a(1) refl b(2) k0, of refusing_event None, unfolded a(2) e(2)]
  obtain v where "client_startRun refusing_event (\<lambda>b w. Some (Inr w)) 60 cli1 = Some (Inr v)"
      "TcpClient_destroy refusing_event 60 v = Some (Inl Double_free)"
    using d [THEN conjunct2, THEN conjunct2, THEN conjunct2, rule_format, of m "[127, 0, 0, 1]" 2 s1 "- 1" s1 "\<lambda>b w. Some (Inr w)"] m e(2) by auto
  with d show ?thesis
    by blast
qed

text \<open>
  C29. The codec's default error callback, which closes a connection through its thread's queue,
  crashes on a client: the client's connection is in no queue, and removing it dereferences
  its null links.
\<close>

theorem client_codec_error_crashes:
  assumes "client_inv this w cl k" and "conn_bev k \<noteq> NULL" and "conn_bev k \<in> live_bevs w"
  shows "defaultErrorCallback (cl_conn cl) e w = Inl Null_deref"
proof -
  obtain th where th: "cl_conn cl \<noteq> NULL" "cells (store w) (cl_conn cl) = Some k" "conn_thread k = cl_main_base cl"
      "conn_pre k = NULL" "cl_main_base cl \<noteq> NULL" "lthreads w (cl_main_base cl) = Some th"
    by (rule client_invE [OF assms(1)])
  then show ?thesis
    using defaultErrorCallback_eq [OF th(1,2) assms(2,3)]
    by (simp add: thread_deleteConn_def deleteConn_unlinked)
qed

theorem client_codec_error_crashes_witness:
  "\<exists>w :: (ev_lib, srv_closure) tcp_net. client_startRun ref_event (\<lambda>b w. Some (Inr w)) 60 cli1 = Some (Inr w) \<and>
     defaultErrorCallback 1 invalidLength w = Inl Null_deref"
proof (rule cli2)
  fix w k
  assume a: "client_startRun ref_event (\<lambda>b w. Some (Inr w)) 60 cli1 = Some (Inr w)"
    "client_inv 60 w (the (clients cli1 60)) k" "conn_bev k = 2" "2 \<in> live_bevs w"
  from client_codec_error_crashes [OF a(2), of invalidLength] a cli1_state(1) show ?thesis by simp
qed

lemma client_connected_state:
  assumes "client_inv this w cl k" and "is_connected events"
  shows "\<exists>st k'. client_bufferEventCb V I bev events (cl_conn cl) w =
       call_if (cl_connect_cb cl) (\<lambda>cb. call_data I cb (cl_conn cl) (w\<lparr>store := st\<rparr>)) (w\<lparr>store := st\<rparr>) \<and>
     client_inv this (w\<lparr>store := st\<rparr>) cl k' \<and> conn_fd k' = bufferevent_getfd V bev (ext w) \<and>
     conn_readBuf k' = bufferevent_get_input V bev (ext w) \<and>
     conn_writeBuf k' = bufferevent_get_output V bev (ext w) \<and> conn_bev k' = conn_bev k"
proof -
  let ?f = "\<lambda>c. c\<lparr>conn_fd := bufferevent_getfd V bev (ext w), conn_readBuf := bufferevent_get_input V bev (ext w),
     conn_writeBuf := bufferevent_get_output V bev (ext w)\<rparr>"
  let ?st = "(store w)\<lparr>cells := (cells (store w))(cl_conn cl \<mapsto> ?f k)\<rparr>"
  obtain th where th: "cl_conn cl \<noteq> NULL" "cells (store w) (cl_conn cl) = Some k"
    by (rule client_invE [OF assms(1)])
  have i: "client_inv this (w\<lparr>store := ?st\<rparr>) cl (?f k)"
    using client_inv_update [OF assms(1), of ?f] by simp
  have "client_bufferEventCb V I bev events (cl_conn cl) w =
      call_if (cl_connect_cb cl) (\<lambda>cb. call_data I cb (cl_conn cl) (w\<lparr>store := ?st\<rparr>)) (w\<lparr>store := ?st\<rparr>)"
    using assms(2) th client_of_inv [OF i]
    by (simp add: client_bufferEventCb_def fetch_buffers_def upd_conn_def upd_Conn_def)
  with i show ?thesis
    by (intro exI [where x = ?st] exI [where x = "?f k"]) simp
qed

text \<open>
  C27. When the connection is established, the client takes the descriptor and the buffers of
  its bufferevent into its connection and then calls the connection callback; in the state the
  callback is given, data can be written to the connection when the bufferevent's output buffer
  is alive, and is appended there.
\<close>

theorem client_connected:
  assumes "client_inv this w cl k" and "is_connected events"
  shows "\<exists>w' k'. client_bufferEventCb V I bev events (cl_conn cl) w =
       call_if (cl_connect_cb cl) (\<lambda>cb. call_data I cb (cl_conn cl) w') w' \<and>
     client_inv this w' cl k' \<and> conn_fd k' = bufferevent_getfd V bev (ext w) \<and>
     conn_readBuf k' = bufferevent_get_input V bev (ext w) \<and>
     conn_writeBuf k' = bufferevent_get_output V bev (ext w) \<and> conn_bev k' = conn_bev k \<and> ext w' = ext w \<and>
     (\<forall>E evb out d. evbuffer_ok E evb \<and> bufferevent_get_output V bev (ext w) \<noteq> NULL \<and>
        evb (ext w) (bufferevent_get_output V bev (ext w)) = Some out \<longrightarrow>
        (\<exists>s. addToWriteBuffer E (cl_conn cl) d w' = Inr (0, w'\<lparr>ext := s\<rparr>) \<and>
          evb s = (evb (ext w))(bufferevent_get_output V bev (ext w) \<mapsto> out @ d)))"
proof -
  let ?b = "bufferevent_get_output V bev (ext w)"
  obtain st k' where k': "client_bufferEventCb V I bev events (cl_conn cl) w =
      call_if (cl_connect_cb cl) (\<lambda>cb. call_data I cb (cl_conn cl) (w\<lparr>store := st\<rparr>)) (w\<lparr>store := st\<rparr>)"
    "client_inv this (w\<lparr>store := st\<rparr>) cl k'" "conn_fd k' = bufferevent_getfd V bev (ext w)"
    "conn_readBuf k' = bufferevent_get_input V bev (ext w)" "conn_writeBuf k' = ?b" "conn_bev k' = conn_bev k"
    using client_connected_state [OF assms, of V I bev] by blast
  have c: "cl_conn cl \<noteq> NULL" "cells st (cl_conn cl) = Some k'"
    using k'(2) by (simp_all add: client_inv_def)
  have "\<exists>s. addToWriteBuffer E (cl_conn cl) d (w\<lparr>store := st\<rparr>) = Inr (0, w\<lparr>store := st, ext := s\<rparr>) \<and>
      evb s = (evb (ext w))(?b \<mapsto> out @ d)"
    if "evbuffer_ok E evb" "?b \<noteq> NULL" "evb (ext w) ?b = Some out" for E evb out d
    using evbuffer_ok.add_ok [OF that(1,3), of d] evbuffer_lib.add_law [OF evbuffer_ok.axioms(1) [OF that(1)] that(3), of d]
      c k'(5) that(2)
    by (cases "evbuffer_add E ?b d (ext w)") (auto simp: addToWriteBuffer_def live_writeBuf_def)
  then show ?thesis
    using k' by (intro exI [where x = "w\<lparr>store := st\<rparr>"] exI [where x = k']) simp
qed

lemma connected_flag: "is_connected BEV_EVENT_CONNECTED"
  by (simp add: is_connected_def BEV_EVENT_CONNECTED_def BEV_EVENT_EOF_def BEV_EVENT_READING_def
      BEV_EVENT_WRITING_def BEV_EVENT_TIMEOUT_def BEV_EVENT_ERROR_def)

theorem client_connected_witness:
  "\<exists>w w' s. client_startRun ref_event (\<lambda>b w. Some (Inr w)) 60 cli1 = Some (Inr w) \<and>
     client_bufferEventCb ref_event srv_invoker 2 BEV_EVENT_CONNECTED 1 w = Some (Inr w') \<and>
     addToWriteBuffer chunked 1 [1, 2] w' = Inr (0, w'\<lparr>ext := s\<rparr>) \<and>
     ch_evb s (bufferevent_get_output ref_event 2 (ext w)) = Some [1, 2]"
proof (rule cli2)
  fix w k
  assume a: "client_startRun ref_event (\<lambda>b w. Some (Inr w)) 60 cli1 = Some (Inr w)"
    "client_inv 60 w (the (clients cli1 60)) k" "bufferevent_get_output ref_event 2 (ext w) \<noteq> NULL"
    "ch_evb (ext w) (bufferevent_get_output ref_event 2 (ext w)) = Some []"
  obtain w' where w': "client_bufferEventCb ref_event srv_invoker 2 BEV_EVENT_CONNECTED 1 w = Some (Inr w')"
    and can_write: "\<And>E evb out d. evbuffer_ok E evb \<and> bufferevent_get_output ref_event 2 (ext w) \<noteq> NULL \<and>
        evb (ext w) (bufferevent_get_output ref_event 2 (ext w)) = Some out \<Longrightarrow>
        \<exists>s. addToWriteBuffer E 1 d w' = Inr (0, w'\<lparr>ext := s\<rparr>) \<and>
          evb s = (evb (ext w))(bufferevent_get_output ref_event 2 (ext w) \<mapsto> out @ d)"
    using client_connected [OF a(2) connected_flag, of ref_event srv_invoker 2] by (auto simp: cli1_state call_if_def)
  from can_write [of chunked ch_evb "[]" "[1, 2]"] a w' chunks.evbuffer_ok_axioms show ?thesis
    by fastforce
qed

end
