(* ===== verification/Tcp_Liveness.thy ===== *)
theory Tcp_Liveness
  imports Tcp_Server
begin

text \<open>
  Accepted connections are served. The main loop hands a descriptor to a thread through a pipe,
  and libevent calls the thread's \<open>notifyHandler\<close> as long as the pipe has something to read.
  This theory adds the order of the pipe to the contract of the event library and a contract for
  connection callbacks that return and leave the TCP layer alone, and proves that firing the
  handler until the pipe is empty makes the descriptor a served connection.
\<close>

subsection \<open>Pipes that keep order\<close>

text \<open>
  \<open>ends\<close> are the pipes in use, each a reading and a writing end; \<open>pipe\<close> is what can be read at a
  reading end; \<open>ample\<close> says that memory for bufferevents is not exhausted. A write that
  transfers four bytes appends, a read of a pipe with contents takes the oldest integer, and the
  calls on bufferevents do not touch pipes.
\<close>

locale pipe_lib = event_lib V allocated
  for V :: "'s event_ops" and allocated +
  fixes pipe :: "'s \<Rightarrow> int \<Rightarrow> int list"
    and ends :: "'s \<Rightarrow> (int \<times> int) set"
    and ample :: "'s \<Rightarrow> bool"
  assumes write_law: "(r, sd) \<in> ends s \<Longrightarrow> sys_write_int V sd v s = (4, s') \<Longrightarrow>
        pipe s' r = pipe s r @ [v] \<and> ends s' = ends s \<and> ample s' = ample s"
    and read_law: "(r, sd) \<in> ends s \<Longrightarrow> pipe s r = v # vs \<Longrightarrow>
        \<exists>s'. sys_read_int V r s = (4, v, s') \<and> pipe s' r = vs \<and> ends s' = ends s \<and> ample s' = ample s"
    and new_law: "ample s \<Longrightarrow> bufferevent_socket_new V b fd s = (bev, s') \<Longrightarrow>
        bev \<noteq> NULL \<and> pipe s' = pipe s \<and> ends s' = ends s \<and> ample s'"
    and quiet_law: "pipe (bufferevent_setcb V bev arg s) = pipe s" "ends (bufferevent_setcb V bev arg s) = ends s"
        "ample (bufferevent_setcb V bev arg s) = ample s"
        "pipe (bufferevent_enable V bev s) = pipe s" "ends (bufferevent_enable V bev s) = ends s"
        "ample (bufferevent_enable V bev s) = ample s"

text \<open>A connection callback that leaves the TCP layer as it is, except for other callbacks of the server.\<close>

definition quiet :: "ptr \<Rightarrow> ('s, 'cb, 'z) tcp_net_scheme \<Rightarrow> ('s, 'cb, 'z) tcp_net_scheme \<Rightarrow> bool" where
  "quiet this w w' \<longleftrightarrow> store w' = store w \<and> lthreads w' = lthreads w \<and> live_bevs w' = live_bevs w \<and>
     ext w' = ext w \<and> (\<forall>sv. servers w this = Some sv \<longrightarrow> (\<exists>sv'. servers w' this = Some sv' \<and>
        threads sv' = threads sv \<and> thread_count sv' = thread_count sv \<and> srv_main_base sv' = srv_main_base sv))"

text \<open>
  A server whose connection callback returns and is quiet, given an invariant \<open>Q\<close> of the layer
  above that does not depend on the TCP layer.
\<close>

locale prompt_server = pipe_lib V allocated pipe ends ample
  for V :: "'s event_ops" and allocated and pipe and ends and ample +
  fixes I :: "('cb, ('s, 'cb, 'z) tcp_net_scheme) invoker"
    and this :: ptr
    and Q :: "('s, 'cb, 'z) tcp_net_scheme \<Rightarrow> bool"
  assumes connect_ok: "Q w \<Longrightarrow> server_inv allocated this qs w \<Longrightarrow> serves this w t c \<Longrightarrow> servers w this = Some sv \<Longrightarrow>
        srv_connect_cb sv = Some cb \<Longrightarrow> \<exists>w'. call_data I cb c w = Some (Inr w') \<and> quiet this w w' \<and> Q w'"
    and frame_ok: "Q w \<Longrightarrow> servers w' = servers w \<Longrightarrow> next_obj w' = next_obj w \<Longrightarrow>
        tcp_net.more w' = tcp_net.more w \<Longrightarrow> Q w'"

subsection \<open>Firing a thread's handler\<close>

primrec fires ::
  "'s event_ops \<Rightarrow> ('cb, ('s, 'cb, 'z) tcp_net_scheme) invoker \<Rightarrow> ptr \<Rightarrow> nat \<Rightarrow>
   ('s, 'cb, 'z) tcp_net_scheme \<Rightarrow> ('s, 'cb, 'z) tcp_net_scheme res option" where
  "fires V I t 0 w = Some (Inr w)"
| "fires V I t (Suc n) w = bind_ro (notifyHandler V I t w) (fires V I t n)"

context prompt_server
begin

text \<open>The server is in order and \<open>vs\<close> are waiting in the pipe of its thread \<open>t\<close>.\<close>

definition waiting :: "ptr \<Rightarrow> int \<Rightarrow> int \<Rightarrow> int list \<Rightarrow> ('s, 'cb, 'z) tcp_net_scheme \<Rightarrow> bool" where
  "waiting t r sd vs w \<longleftrightarrow> (\<exists>qs server th. server_inv allocated this qs w \<and> servers w this = Some server \<and>
     t \<in> set (threads server) \<and> lthreads w t = Some th \<and> notify_recv_fd th = r \<and> Q w \<and>
     (r, sd) \<in> ends (ext w) \<and> ample (ext w) \<and> pipe (ext w) r = vs)"

lemma waiting_inv: "waiting t r sd vs w \<Longrightarrow> (\<exists>qs. server_inv allocated this qs w) \<and> pipe (ext w) r = vs"
  by (auto simp: waiting_def)

lemma waiting_quiet:
  assumes "waiting t r sd vs w" "quiet this w w'" "Q w'"
  shows "waiting t r sd vs w'"
proof -
  obtain qs server th where w: "server_inv allocated this qs w" "servers w this = Some server"
      "t \<in> set (threads server)" "lthreads w t = Some th" "notify_recv_fd th = r" "(r, sd) \<in> ends (ext w)" "ample (ext w)" "pipe (ext w) r = vs"
    using assms(1) by (auto simp: waiting_def)
  moreover obtain sv' where sv': "servers w' this = Some sv'" "threads sv' = threads server"
      "thread_count sv' = thread_count server" "srv_main_base sv' = srv_main_base server"
    using assms(2) w(2) by (auto simp: quiet_def)
  moreover have "server_inv allocated this qs w'"
    by (rule server_inv_callbacks [OF w(1) _ _ _ _ w(2) sv']) (use assms(2) in \<open>auto simp: quiet_def\<close>)
  ultimately show ?thesis
    using assms(2,3) by (auto simp: waiting_def quiet_def)
qed

lemma fires_one:
  assumes wait: "waiting t r sd (v # vs) w" and v: "v \<noteq> EXIT_CODE"
  shows "\<exists>w' c. notifyHandler V I t w = Some (Inr w') \<and> waiting t r sd vs w' \<and> serves this w' t c \<and> getFd c w' = Inr v"
proof -
  obtain qs server th where w: "server_inv allocated this qs w" "servers w this = Some server"
      "t \<in> set (threads server)" "lthreads w t = Some th" and th: "notify_recv_fd th = r" and Q: "Q w"
      and p: "(r, sd) \<in> ends (ext w)" "pipe (ext w) r = v # vs" and am: "ample (ext w)"
    using wait by (auto simp: waiting_def)
  obtain s1 where s1: "sys_read_int V (notify_recv_fd th) (ext w) = (4, v, s1)" "pipe s1 r = vs" "ends s1 = ends (ext w)" "ample s1"
    using read_law [OF p] th am by auto
  obtain bev s2 where s2: "bufferevent_socket_new V (base th) v s1 = (bev, s2)"
    by (cases "bufferevent_socket_new V (base th) v s1")
  note new = new_law [OF s1(4) s2]
  let ?c = "next_addr (store w)"
  obtain w' q where w': "notifyHandler V I t w = call_if (srv_connect_cb server) (\<lambda>cb. call_data I cb ?c w') w'"
      "server_inv allocated this (qs(t := ?c # qs t)) w'" "serves this w' t ?c"
      "map_option conn_data (cells (store w') ?c) = Some (v, t, bev, NULL, NULL)"
      "servers w' = servers w" "next_obj w' = next_obj w" "tcp_net.more w' = tcp_net.more w"
      "lthreads w' t = Some (th\<lparr>connect_queue := q\<rparr>)"
      "ext w' = bufferevent_enable V bev (bufferevent_setcb V bev ?c s2)"
    by (rule notify_attach [OF w s1(1) v s2 conjunct1 [OF new], of I]) blast
  have wait': "waiting t r sd vs w'"
    unfolding waiting_def using w'(2) w(2,3) w'(5,8) th frame_ok [OF Q w'(5-7)] new s1(2,3) p(1)
    by (auto simp: w'(9) quiet_law)
  have fd: "getFd ?c w' = Inr v"
    by (rule served [OF w'(2,3)]) (use w'(4) in \<open>auto simp: getFd_def conn_data_def\<close>)
  show ?thesis
  proof (cases "srv_connect_cb server")
    case None
    with w'(1,3) wait' fd show ?thesis by auto
  next
    case (Some cb)
    obtain w2 where w2: "call_data I cb ?c w' = Some (Inr w2)" "quiet this w' w2" "Q w2"
      using connect_ok [OF _ w'(2,3) _ Some] frame_ok [OF Q w'(5-7)] w(2) w'(5) by auto
    have "serves this w2 t ?c" "getFd ?c w2 = Inr v"
      using w2(2) w'(3) fd by (fastforce simp: quiet_def serves_def getFd_def)+
    with w'(1) Some w2(1) waiting_quiet [OF wait' w2(2,3)] show ?thesis by auto
  qed
qed

lemma fires_all:
  assumes "waiting t r sd (vs @ [v]) w" "EXIT_CODE \<notin> set (vs @ [v])"
  shows "\<exists>w' c. fires V I t (Suc (length vs)) w = Some (Inr w') \<and> waiting t r sd [] w' \<and> serves this w' t c \<and> getFd c w' = Inr v"
  using assms
proof (induction vs arbitrary: w)
  case Nil
  then show ?case
    using fires_one [of t r sd v "[]" w] by auto
next
  case (Cons u vs)
  then obtain w1 where "notifyHandler V I t w = Some (Inr w1)" "waiting t r sd (vs @ [v]) w1"
    using fires_one [of t r sd u "vs @ [v]" w] by auto
  with Cons show ?case by simp
qed

lemma accept_then_served:
  assumes inv: "server_inv allocated this qs w" and server: "servers w this = Some server" and Q: "Q w"
    and am: "ample (ext w)" and fd: "fd \<noteq> EXIT_CODE"
    and pipes: "\<And>t th. t \<in> set (threads server) \<Longrightarrow> lthreads w t = Some th \<Longrightarrow>
        (notify_recv_fd th, notify_send_fd th) \<in> ends (ext w) \<and> EXIT_CODE \<notin> set (pipe (ext w) (notify_recv_fd th)) \<and>
        fst (sys_write_int V (notify_send_fd th) fd (ext w)) = 4"
  shows "\<exists>w1 t th w' c qs'. acceptCb V fd this w = Inr w1 \<and> t \<in> set (threads server) \<and> lthreads w t = Some th \<and>
     fires V I t (Suc (length (pipe (ext w) (notify_recv_fd th)))) w1 = Some (Inr w') \<and>
     serves this w' t c \<and> getFd c w' = Inr fd \<and> pipe (ext w') (notify_recv_fd th) = [] \<and> server_inv allocated this qs' w'"
proof -
  obtain i th where i: "i < thread_count server" "lthreads w (threads server ! i) = Some th"
      "acceptCb V fd this w = Inr (w\<lparr>ext := snd (sys_write_int V (notify_send_fd th) fd (ext w))\<rparr>)"
    using acceptCb_picks [OF inv server] by blast
  let ?t = "threads server ! i" and ?s = "snd (sys_write_int V (notify_send_fd th) fd (ext w))"
  let ?r = "notify_recv_fd th"
  have t: "?t \<in> set (threads server)"
    using i(1) server by (metis inv nth_mem option.inject server_invE)
  note pt = pipes [OF t i(2)]
  then have wr: "sys_write_int V (notify_send_fd th) fd (ext w) = (4, ?s)"
    by (metis prod.collapse)
  have "server_inv allocated this qs (w\<lparr>ext := ?s\<rparr>)"
    by (rule server_inv_callbacks [OF inv _ _ _ _ server]) (use server pipe_write_law [OF wr] in auto)
  then have "waiting ?t ?r (notify_send_fd th) (pipe (ext w) ?r @ [fd]) (w\<lparr>ext := ?s\<rparr>)"
    unfolding waiting_def using server t i(2) write_law [OF _ wr] pt am frame_ok [OF Q] by fastforce
  then show ?thesis
    using fires_all [of ?t ?r _ "pipe (ext w) ?r" fd] pt fd i(2,3) t waiting_inv by fastforce
qed

end

end
