(* ===== verification/Rpc_Channel.thy ===== *)
theory Rpc_Channel
  imports Rpc_Code Tcp_State "HOL-Library.AList"
begin

text \<open>
  \<open>src/rpcChannel.h\<close> and \<open>src/rpcChannel.cpp\<close>: the class \<open>RpcChannel\<close>, both ends of a remote
  call. The process state gains the channels, the static counter \<open>_id\<close>, the request and
  response objects of the user, the live completion closures and the service tables. The
  user's messages, services and closures are not part of the repository: they are the record
  \<open>service_ops\<close>. A channel's codec is the RPC codec with \<open>onRpcMessage\<close> as its callback.
\<close>

subsection \<open>The state\<close>

record OutstandingCall =
  oc_response :: ptr
  oc_done :: ptr

record RpcChannel =
  ch_conn :: "ptr option" \<comment> \<open>\<open>None\<close>: not initialised\<close>
  outstandings :: "(int64 \<times> OutstandingCall) list" \<comment> \<open>the map from ids to calls\<close>
  ch_services :: ptr

text \<open>Callbacks of the RPC layer that the TCP layer stores.\<close>

datatype rpc_closure =
    On_connection ptr \<comment> \<open>\<open>RpcServer::onConnection\<close> of this server\<close>
  | Channel_onMessage ptr \<comment> \<open>\<open>RpcChannel::onMessage\<close> of this channel\<close>
  | User_callback ptr \<comment> \<open>a method of an object of the program that uses the library\<close>

record RpcServer =
  rs_server :: ptr
  rs_services :: ptr

record ('s, 'q) rpc_net = "('s, rpc_closure) tcp_net" +
  channels :: "ptr \<rightharpoonup> RpcChannel"
  rpc_id :: int32
  user_msgs :: "ptr \<rightharpoonup> 'q"
  next_msg :: ptr
  closures :: "ptr set"
  service_maps :: "ptr \<rightharpoonup> (bytes \<times> ptr) list"
  rpc_servers :: "ptr \<rightharpoonup> RpcServer"

text \<open>
  The completion closure that \<open>onRpcMessage\<close> hands to a service:
  \<open>NewCallback(this, &RpcChannel::doneCallback, response, id)\<close>.
\<close>

record done_callback =
  dc_channel :: ptr
  dc_response :: ptr
  dc_id :: int64

record ('q, 'w) service_ops =
  svc_full_name :: "ptr \<Rightarrow> bytes" \<comment> \<open>\<open>service->GetDescriptor()->full_name()\<close>\<close>
  svc_FindMethodByName :: "ptr \<Rightarrow> bytes \<Rightarrow> ptr"
  svc_new_request :: "ptr \<Rightarrow> ptr \<Rightarrow> 'q" \<comment> \<open>\<open>GetRequestPrototype(method).New()\<close>\<close>
  svc_new_response :: "ptr \<Rightarrow> ptr \<Rightarrow> 'q"
  svc_CallMethod :: "ptr \<Rightarrow> ptr \<Rightarrow> 'q \<Rightarrow> ptr \<Rightarrow> done_callback \<Rightarrow> 'w \<Rightarrow> 'w res"
  method_service_full_name :: "ptr \<Rightarrow> bytes" \<comment> \<open>\<open>method->service()->full_name()\<close>\<close>
  method_name :: "ptr \<Rightarrow> bytes"
  q_SerializeAsString :: "'q \<Rightarrow> bytes"
  q_ParseFromString :: "'q \<Rightarrow> bytes \<Rightarrow> bool \<times> 'q"
  run_closure :: "ptr \<Rightarrow> 'w \<Rightarrow> 'w res" \<comment> \<open>\<open>done->Run()\<close>\<close>
  run_user :: "ptr \<Rightarrow> ptr \<Rightarrow> 'w \<Rightarrow> 'w res option" \<comment> \<open>the program's own callback of the TCP layer\<close>

definition delete_msg :: "ptr \<Rightarrow> ('s, 'q, 'z) rpc_net_scheme \<Rightarrow> ('s, 'q, 'z) rpc_net_scheme res" where
  "delete_msg p w =
     (if p = NULL then Inr w
      else if user_msgs w p = None then Inl Double_free
      else Inr (w\<lparr>user_msgs := (user_msgs w)(p := None)\<rparr>))"

definition delete_closure :: "ptr \<Rightarrow> ('s, 'q, 'z) rpc_net_scheme \<Rightarrow> ('s, 'q, 'z) rpc_net_scheme res" where
  "delete_closure p w =
     (if p = NULL then Inr w
      else if p \<notin> closures w then Inl Double_free
      else Inr (w\<lparr>closures := closures w - {p}\<rparr>))"

definition run_done ::
  "('q, ('s, 'q, 'z) rpc_net_scheme) service_ops \<Rightarrow> ptr \<Rightarrow>
   ('s, 'q, 'z) rpc_net_scheme \<Rightarrow> ('s, 'q, 'z) rpc_net_scheme res" where
  "run_done S done w = (if done \<notin> closures w then Inl Use_after_free else run_closure S done w)"

definition new_msg :: "'q \<Rightarrow> ('s, 'q, 'z) rpc_net_scheme \<Rightarrow> ptr \<times> ('s, 'q, 'z) rpc_net_scheme" where
  "new_msg q w = (next_msg w, w\<lparr>user_msgs := (user_msgs w)(next_msg w \<mapsto> q), next_msg := Suc (next_msg w)\<rparr>)"

subsection \<open>Construction and destruction\<close>

definition RpcChannel_default :: RpcChannel where
  "RpcChannel_default = \<lparr>ch_conn = None, outstandings = [], ch_services = NULL\<rparr>"

definition RpcChannel_conn :: "ptr \<Rightarrow> RpcChannel" where
  "RpcChannel_conn conn = \<lparr>ch_conn = Some conn, outstandings = [], ch_services = NULL\<rparr>"

text \<open>The parameter shadows the member of the same name: each of these assigns it to itself.\<close>

definition setConnection :: "ptr \<Rightarrow> RpcChannel \<Rightarrow> RpcChannel" where
  "setConnection conn ch = (let conn = conn in ch)"

definition setServices :: "ptr \<Rightarrow> RpcChannel \<Rightarrow> RpcChannel" where
  "setServices services ch = (let services = services in ch)"

primrec delete_calls ::
  "(int64 \<times> OutstandingCall) list \<Rightarrow> ('s, 'q, 'z) rpc_net_scheme \<Rightarrow> ('s, 'q, 'z) rpc_net_scheme res" where
  "delete_calls [] w = Inr w"
| "delete_calls (it # its) w =
     (let out = snd it in
      bind_res (delete_msg (oc_response out) w) (\<lambda>w.
      bind_res (delete_closure (oc_done out) w) (\<lambda>w. delete_calls its w)))"

definition RpcChannel_destroy ::
  "ptr \<Rightarrow> ('s, 'q, 'z) rpc_net_scheme \<Rightarrow> ('s, 'q, 'z) rpc_net_scheme res" where
  "RpcChannel_destroy this w =
     bind_res (deref (channels w) this) (\<lambda>ch.
     bind_res (delete_calls (outstandings ch) w) (\<lambda>w.
     Inr (w\<lparr>channels := (channels w)(this := None)\<rparr>)))"

subsection \<open>Sending\<close>

text \<open>\<open>rpcCodeDer.send\<close>; the callback bound in the codec plays no part in sending.\<close>

definition channel_send ::
  "'s evbuffer_ops \<Rightarrow> adler32_fun \<Rightarrow> 'u RpcMessage message_ops \<Rightarrow> ptr \<Rightarrow> 'u RpcMessage \<Rightarrow>
   ('s, 'q, 'z) rpc_net_scheme \<Rightarrow> ('s, 'q, 'z) rpc_net_scheme res" where
  "channel_send E Z M conn message w =
     derived_send E Z M (RpcCodeDerived_init (\<lambda>conn message w. Inr w)) conn message w"

definition the_conn :: "ptr option \<Rightarrow> ptr res" where
  "the_conn c = (case c of None \<Rightarrow> Inl Uninitialised | Some p \<Rightarrow> Inr p)"

definition CallMethod ::
  "'s evbuffer_ops \<Rightarrow> adler32_fun \<Rightarrow> ('p, 'u) pb_ops \<Rightarrow> 'u RpcMessage message_ops \<Rightarrow>
   ('q, ('s, 'q, 'z) rpc_net_scheme) service_ops \<Rightarrow> ptr \<Rightarrow> ptr \<Rightarrow> 'q \<Rightarrow> ptr \<Rightarrow> ptr \<Rightarrow>
   ('s, 'q, 'z) rpc_net_scheme \<Rightarrow> ('s, 'q, 'z) rpc_net_scheme res" where
  "CallMethod E Z L M S this method request response done w =
     (let message = RpcMessage_new L;
          message = Clear L message in
      bind_res (set_type REQUEST message) (\<lambda>message.
      if sint (rpc_id w) = 2 ^ 31 - 1 then Inl Signed_overflow
      else
        let w = w\<lparr>rpc_id := rpc_id w + 1\<rparr>;
            id = (scast (rpc_id w) :: int64);
            message = set_id id message;
            message = set_service (method_service_full_name S method) message;
            message = set_method (method_name S method) message;
            message = set_request (q_SerializeAsString S request) message;
            out = \<lparr>oc_response = response, oc_done = done\<rparr>
        in
          bind_res (deref (channels w) this) (\<lambda>ch.
          let w = w\<lparr>channels := (channels w)(this \<mapsto> ch\<lparr>outstandings := AList.update id out (outstandings ch)\<rparr>)\<rparr> in
          bind_res (the_conn (ch_conn ch)) (\<lambda>conn.
          channel_send E Z M conn message w))))"

subsection \<open>Receiving\<close>

definition doneCallback ::
  "'s evbuffer_ops \<Rightarrow> adler32_fun \<Rightarrow> ('p, 'u) pb_ops \<Rightarrow> 'u RpcMessage message_ops \<Rightarrow>
   ('q, ('s, 'q, 'z) rpc_net_scheme) service_ops \<Rightarrow> done_callback \<Rightarrow>
   ('s, 'q, 'z) rpc_net_scheme \<Rightarrow> ('s, 'q, 'z) rpc_net_scheme res" where
  "doneCallback E Z L M S dc w =
     (if dc_response dc = NULL \<or> dc_id dc = 0 then Inl Assertion_failed
      else
        bind_res (set_type RESPONSE (RpcMessage_new L)) (\<lambda>message.
        let message = set_id (dc_id dc) message in
        bind_res (deref (user_msgs w) (dc_response dc)) (\<lambda>response.
        let message = set_response (q_SerializeAsString S response) message in
        bind_res (deref (channels w) (dc_channel dc)) (\<lambda>ch.
        bind_res (the_conn (ch_conn ch)) (\<lambda>conn.
        bind_res (channel_send E Z M conn message w) (\<lambda>w.
        delete_msg (dc_response dc) w))))))"

definition on_response ::
  "('q, ('s, 'q, 'z) rpc_net_scheme) service_ops \<Rightarrow> ptr \<Rightarrow> 'u RpcMessage \<Rightarrow>
   ('s, 'q, 'z) rpc_net_scheme \<Rightarrow> ('s, 'q, 'z) rpc_net_scheme res" where
  "on_response S this message w =
     (let id = id_get message in
      if \<not> (has_response message \<or> has_error message) then Inl Assertion_failed
      else
        bind_res (deref (channels w) this) (\<lambda>ch.
        case map_of (outstandings ch) id of
          None \<Rightarrow> Inr w
        | Some out \<Rightarrow>
            let w = w\<lparr>channels := (channels w)(this \<mapsto> ch\<lparr>outstandings := AList.delete id (outstandings ch)\<rparr>)\<rparr> in
            if oc_response out = NULL then Inr w
            else
              bind_res
                (if has_response message then
                   bind_res (deref (user_msgs w) (oc_response out)) (\<lambda>q.
                   let (ok, q) = q_ParseFromString S q (response_get message) in
                   Inr (w\<lparr>user_msgs := (user_msgs w)(oc_response out \<mapsto> q)\<rparr>))
                 else Inr w) (\<lambda>w.
              bind_res (if oc_done out \<noteq> NULL then run_done S (oc_done out) w else Inr w) (\<lambda>w.
              delete_msg (oc_response out) w))))"

text \<open>The outcome of looking a request up: an error code, or the call of the service.\<close>

definition on_request ::
  "('q, ('s, 'q, 'z) rpc_net_scheme) service_ops \<Rightarrow> ptr \<Rightarrow> 'u RpcMessage \<Rightarrow>
   ('s, 'q, 'z) rpc_net_scheme \<Rightarrow> (int32 \<times> ('s, 'q, 'z) rpc_net_scheme) res" where
  "on_request S this message w =
     bind_res (deref (channels w) this) (\<lambda>ch.
     if ch_services ch = NULL then Inr (NO_SERVICE, w)
     else
       bind_res (deref (service_maps w) (ch_services ch)) (\<lambda>services.
       case map_of services (service_get message) of
         None \<Rightarrow> Inr (NO_SERVICE, w)
       | Some service \<Rightarrow>
           if service = NULL then Inl Assertion_failed
           else
             let method = svc_FindMethodByName S service (method_get message) in
             if method = NULL then Inr (NO_METHOD, w)
             else
               let (ok, request) = q_ParseFromString S (svc_new_request S service method) (request_get message) in
               if \<not> ok then Inr (INVALID_REQUEST, w)
               else
                 let (response, w) = new_msg (svc_new_response S service method) w in
                 bind_res (svc_CallMethod S service method request response
                   \<lparr>dc_channel = this, dc_response = response, dc_id = id_get message\<rparr> w) (\<lambda>w.
                 Inr (NO_ERROR, w))))"

definition onRpcMessage ::
  "'s evbuffer_ops \<Rightarrow> adler32_fun \<Rightarrow> ('p, 'u) pb_ops \<Rightarrow> 'u RpcMessage message_ops \<Rightarrow>
   ('q, ('s, 'q, 'z) rpc_net_scheme) service_ops \<Rightarrow> ptr \<Rightarrow> ptr \<Rightarrow> 'u RpcMessage \<Rightarrow>
   ('s, 'q, 'z) rpc_net_scheme \<Rightarrow> ('s, 'q, 'z) rpc_net_scheme res" where
  "onRpcMessage E Z L M S this conn message w =
     (if type_get message = RESPONSE then on_response S this message w
      else if type_get message = REQUEST then
        bind_res (on_request S this message w) (\<lambda>(error, w).
        if error \<noteq> NO_ERROR then
          bind_res (set_type RESPONSE (RpcMessage_new L)) (\<lambda>response.
          let response = set_id (id_get message) response in
          bind_res (set_error error response) (\<lambda>response.
          channel_send E Z M conn response w))
        else Inr w)
      else Inr w)"

definition channel_codec ::
  "'s evbuffer_ops \<Rightarrow> adler32_fun \<Rightarrow> ('p, 'u) pb_ops \<Rightarrow> 'u RpcMessage message_ops \<Rightarrow>
   ('q, ('s, 'q, 'z) rpc_net_scheme) service_ops \<Rightarrow> ptr \<Rightarrow>
   ('u RpcMessage, ('s, 'q, 'z) rpc_net_scheme) ProtobufCodecLiteDerived" where
  "channel_codec E Z L M S this = RpcCodeDerived_init (onRpcMessage E Z L M S this)"

definition channel_onMessage ::
  "'s evbuffer_ops \<Rightarrow> adler32_fun \<Rightarrow> ('p, 'u) pb_ops \<Rightarrow> 'u RpcMessage message_ops \<Rightarrow>
   ('q, ('s, 'q, 'z) rpc_net_scheme) service_ops \<Rightarrow> ptr \<Rightarrow> ptr \<Rightarrow>
   ('s, 'q, 'z) rpc_net_scheme \<Rightarrow> ('s, 'q, 'z) rpc_net_scheme res option" where
  "channel_onMessage E Z L M S this conn w =
     bind_ro (Some (deref (channels w) this)) (\<lambda>ch.
     if conn \<noteq> NULL then derived_onMessage E Z M (channel_codec E Z L M S this) conn w
     else Some (Inr w))"

subsection \<open>The libraries under a channel\<close>

locale rpc_stack = rpc_runtime L unread M + evbuffer_ok E evb + zlib_lib Z
  for L :: "('p, 'u) pb_ops" and unread and M and E :: "'s evbuffer_ops" and evb and Z

sublocale rpc_stack \<subseteq> codec_env E evb Z M "sendable L" same_view
  by unfold_locales

interpretation stack: rpc_stack ref_wire rs_unread "rpc_vtable ref_wire" chunked ch_evb ref_adler32
  by unfold_locales

context rpc_stack
begin

lemma channel_send_frame:
  assumes "sendable L m" and "writes evb w conn b c" and "fits mRpc (SerializeWithCachedSizesToArray L m)"
  shows "\<exists>s. channel_send E Z M conn m w = Inr (w\<lparr>ext := s\<rparr>) \<and>
     evb s = (evb (ext w))(b \<mapsto> c @ frame Z mRpc (SerializeWithCachedSizesToArray L m))"
  using send_frame [OF assms(1,2), of "rpcCodeDer (RpcCodeDerived_init (\<lambda>conn message w. Inr w))"] assms(3)
  by (simp add: channel_send_def derived_send_def dispatch)

end

subsection \<open>Calls\<close>

text \<open>
  The ids in use: positive, not above the counter, one entry each, and in increasing order, as
  the iterator of the map visits them. The counter starts at zero.
\<close>

definition ids_ok :: "int32 \<Rightarrow> RpcChannel \<Rightarrow> bool" where
  "ids_ok n ch \<longleftrightarrow> 0 \<le> sint n \<and> sorted_wrt (<) (map (\<lambda>c. sint (fst c)) (outstandings ch)) \<and>
     (\<forall>i \<in> fst ` set (outstandings ch). 0 < sint i \<and> sint i \<le> sint n)"

lemma sint_scast_32_64: "sint (scast (x :: int32) :: int64) = sint x"
  by (simp add: sint_up_scast is_up)

lemma sint_succ: "sint (n :: int32) \<noteq> 2 ^ 31 - 1 \<Longrightarrow> sint (n + 1) = sint n + 1"
  using sint_range_size [of n] by (simp add: signed_take_bit_int_eq_self sint_word_ariths(1) word_size)

lemma update_fresh: "k \<notin> fst ` set al \<Longrightarrow> AList.update k v al = al @ [(k, v)]"
  by (induction al) auto

lemma ids_ok_fresh:
  assumes "ids_ok n ch" and "sint n \<noteq> 2 ^ 31 - 1"
  shows "map_of (outstandings ch) (scast (n + 1) :: int64) = None"
    and "ids_ok (n + 1) (ch\<lparr>outstandings := AList.update (scast (n + 1)) out (outstandings ch)\<rparr>)"
proof -
  have n: "sint (scast (n + 1) :: int64) = sint n + 1"
    using assms(2) by (simp add: sint_scast_32_64 sint_succ)
  then have new: "scast (n + 1) \<notin> fst ` set (outstandings ch)"
    using assms(1) by (auto simp: ids_ok_def)
  then show "map_of (outstandings ch) (scast (n + 1) :: int64) = None"
    by (simp add: map_of_eq_None_iff)
  have "\<forall>c \<in> set (outstandings ch). sint (fst c) \<le> sint n"
    using assms(1) by (auto simp: ids_ok_def)
  then show "ids_ok (n + 1) (ch\<lparr>outstandings := AList.update (scast (n + 1)) out (outstandings ch)\<rparr>)"
    using assms n by (fastforce simp: ids_ok_def update_fresh [OF new] sorted_wrt_append sint_succ)
qed

lemma ids_ok_delete: "ids_ok n ch \<Longrightarrow> ids_ok n (ch\<lparr>outstandings := AList.delete i (outstandings ch)\<rparr>)"
  by (auto simp: ids_ok_def AList.delete_eq sorted_wrt_map sorted_wrt_filter)

text \<open>The messages the channel builds.\<close>

definition request_view :: "uint64 \<Rightarrow> bytes \<Rightarrow> bytes \<Rightarrow> bytes \<Rightarrow> rpc_view" where
  "request_view i service method request =
     \<lparr>v_type = Some REQUEST, v_id = Some i, v_service = Some service, v_method = Some method,
      v_request = Some request, v_response = None, v_error = None\<rparr>"

definition response_view :: "uint64 \<Rightarrow> bytes \<Rightarrow> rpc_view" where
  "response_view i response =
     \<lparr>v_type = Some RESPONSE, v_id = Some i, v_service = None, v_method = None,
      v_request = None, v_response = Some response, v_error = None\<rparr>"

definition error_view :: "uint64 \<Rightarrow> int32 \<Rightarrow> rpc_view" where
  "error_view i e =
     \<lparr>v_type = Some RESPONSE, v_id = Some i, v_service = None, v_method = None,
      v_request = None, v_response = None, v_error = Some e\<rparr>"

definition request_msg :: "('p, 'u) pb_ops \<Rightarrow> uint64 \<Rightarrow> bytes \<Rightarrow> bytes \<Rightarrow> bytes \<Rightarrow> 'u RpcMessage" where
  "request_msg L i service method request =
     set_request request (set_method method (set_service service (set_id i
       ((set_has_type (Clear L (RpcMessage_new L)))\<lparr>type_f := REQUEST\<rparr>))))"

definition response_msg :: "('p, 'u) pb_ops \<Rightarrow> uint64 \<Rightarrow> bytes \<Rightarrow> 'u RpcMessage" where
  "response_msg L i response =
     set_response response (set_id i ((set_has_type (RpcMessage_new L))\<lparr>type_f := RESPONSE\<rparr>))"

definition error_msg :: "('p, 'u) pb_ops \<Rightarrow> uint64 \<Rightarrow> int32 \<Rightarrow> 'u RpcMessage" where
  "error_msg L i e =
     (set_has_error (set_id i ((set_has_type (RpcMessage_new L))\<lparr>type_f := RESPONSE\<rparr>)))\<lparr>error_f := e\<rparr>"

lemma valid_types: "MessageType_IsValid REQUEST" "MessageType_IsValid RESPONSE"
  by (simp_all add: MessageType_IsValid_def)

lemma view_new: "view (RpcMessage_new L) = empty_view" "msg_inv (RpcMessage_new L)"
  by (simp_all add: RpcMessage_new_def)

lemma view_msgs:
  "view (request_msg L i sv me rq) = request_view i sv me rq"
  "view (response_msg L i rs) = response_view i rs"
  "view (error_msg L i e) = error_view i e"
  by (simp_all add: request_msg_def response_msg_def error_msg_def Clear_view(1) [OF view_new(2)] view_new
      request_view_def response_view_def error_view_def empty_view_def)

lemma msg_inv_msgs:
  "msg_inv (request_msg L i sv me rq)" "msg_inv (response_msg L i rs)"
  "ErrorCode_IsValid e \<Longrightarrow> msg_inv (error_msg L i e)"
  by (simp_all add: request_msg_def response_msg_def error_msg_def Clear_view(2) [OF view_new(2)] view_new valid_types)

text \<open>A getter returns the viewed value, or the default when the field is absent.\<close>

lemma get_view:
  assumes "msg_inv m"
  shows "type_get m = (case v_type (view m) of None \<Rightarrow> 0 | Some v \<Rightarrow> v)"
    "id_get m = (case v_id (view m) of None \<Rightarrow> 0 | Some v \<Rightarrow> v)"
    "service_get m = (case v_service (view m) of None \<Rightarrow> [] | Some v \<Rightarrow> v)"
    "method_get m = (case v_method (view m) of None \<Rightarrow> [] | Some v \<Rightarrow> v)"
    "request_get m = (case v_request (view m) of None \<Rightarrow> [] | Some v \<Rightarrow> v)"
    "response_get m = (case v_response (view m) of None \<Rightarrow> [] | Some v \<Rightarrow> v)"
    "error_get m = (case v_error (view m) of None \<Rightarrow> 0 | Some v \<Rightarrow> v)"
    "has_response m \<longleftrightarrow> v_response (view m) \<noteq> None" "has_error m \<longleftrightarrow> v_error (view m) \<noteq> None"
  using assms by (simp_all add: view_def msg_inv_def get_defs)

context rpc_stack
begin

lemma unknown_msgs:
  "unknown_fields_f (request_msg L i sv me rq) = uf_new L" "unknown_fields_f (response_msg L i rs) = uf_new L"
  "unknown_fields_f (error_msg L i e) = uf_new L"
proof -
  have "unknown_fields_f (Clear L (RpcMessage_new L)) = uf_new L"
    using Clear_fields [OF view_new(2), of L L] by blast
  then show "unknown_fields_f (request_msg L i sv me rq) = uf_new L" "unknown_fields_f (response_msg L i rs) = uf_new L"
    "unknown_fields_f (error_msg L i e) = uf_new L"
    by (simp_all add: request_msg_def response_msg_def error_msg_def RpcMessage_new_def)
qed

lemma sendable_msgs:
  "length sv < 2 ^ 31 \<Longrightarrow> length me < 2 ^ 31 \<Longrightarrow> length rq < 2 ^ 31 \<Longrightarrow> sendable L (request_msg L i sv me rq)"
  "length rs < 2 ^ 31 \<Longrightarrow> sendable L (response_msg L i rs)"
  "ErrorCode_IsValid e \<Longrightarrow> sendable L (error_msg L i e)"
  by (simp_all add: sendable_def msg_inv_msgs unknown_msgs uf_new_empty get_view view_msgs
      request_view_def response_view_def error_view_def)

lemma CallMethod_eq:
  assumes "channels w this = Some ch" "this \<noteq> NULL" "ch_conn ch = Some conn" "sint (rpc_id w) \<noteq> 2 ^ 31 - 1"
  shows "CallMethod E Z L M S this method request response done w =
     channel_send E Z M conn
       (request_msg L (scast (rpc_id w + 1)) (method_service_full_name S method) (method_name S method) (q_SerializeAsString S request))
       (w\<lparr>rpc_id := rpc_id w + 1, channels := (channels w)(this \<mapsto> ch\<lparr>outstandings :=
          AList.update (scast (rpc_id w + 1)) \<lparr>oc_response = response, oc_done = done\<rparr> (outstandings ch)\<rparr>)\<rparr>)"
  using assms by (simp add: CallMethod_def valid_types request_msg_def the_conn_def Let_def)

end

definition request_of ::
  "('p, 'u) pb_ops \<Rightarrow> ('q, 'w) service_ops \<Rightarrow> uint64 \<Rightarrow> ptr \<Rightarrow> 'q \<Rightarrow> 'u RpcMessage" where
  "request_of L S i method request =
     request_msg L i (method_service_full_name S method) (method_name S method) (q_SerializeAsString S request)"


context rpc_stack
begin

lemma field_sizes:
  "length (WriteEnumToArray L 1 v) \<le> 11" "length (WriteEnumToArray L 7 v) \<le> 11"
  "length (WriteFixed64ToArray L 2 i) = 9"
  "length x < 2 ^ 31 \<Longrightarrow> length (WriteStringToArray L 3 x) \<le> length x + 6"
  "length x < 2 ^ 31 \<Longrightarrow> length (WriteStringToArray L 4 x) \<le> length x + 6"
  "length x < 2 ^ 31 \<Longrightarrow> length (WriteBytesToArray L 5 x) \<le> length x + 6"
  "length x < 2 ^ 31 \<Longrightarrow> length (WriteBytesToArray L 6 x) \<le> length x + 6"
  using sizes(5) [of v] string_size [of x]
  by (simp_all add: write_enum write_fixed64 write_string write_bytes sizes(4))

lemma serialized_length:
  assumes "sendable L m"
  shows "length (SerializeWithCachedSizesToArray L m) \<le> 55 +
     ((if has_service m then length (service_get m) else 0) + (if has_method m then length (method_get m) else 0) +
      (if has_request m then length (request_get m) else 0) + (if has_response m then length (response_get m) else 0))"
proof -
  have l: "length (service_get m) < 2 ^ 31" "length (method_get m) < 2 ^ 31"
     "length (request_get m) < 2 ^ 31" "length (response_get m) < 2 ^ 31" "uf_empty L (unknown_fields_f m)"
    using assms by (simp_all add: sendable_def)
  show ?thesis
    using field_sizes(1) [of "type_get m"] field_sizes(2) [of "error_get m"] field_sizes(4) [OF l(1)]
      field_sizes(5) [OF l(2)] field_sizes(6) [OF l(3)] field_sizes(7) [OF l(4)] l(5)
    by (simp add: SerializeWithCachedSizesToArray_def field_sizes(3))
qed

lemma has_view:
  "has_service m \<longleftrightarrow> v_service (view m) \<noteq> None" "has_method m \<longleftrightarrow> v_method (view m) \<noteq> None"
  "has_request m \<longleftrightarrow> v_request (view m) \<noteq> None" "has_response m \<longleftrightarrow> v_response (view m) \<noteq> None"
  by (simp_all add: view_def)

lemma fits_msgs:
  "length sv + length me + length rq \<le> 67108000 \<Longrightarrow> fits mRpc (SerializeWithCachedSizesToArray L (request_msg L i sv me rq))"
  "length rs \<le> 67108000 \<Longrightarrow> fits mRpc (SerializeWithCachedSizesToArray L (response_msg L i rs))"
  "ErrorCode_IsValid e \<Longrightarrow> fits mRpc (SerializeWithCachedSizesToArray L (error_msg L i e))"
  using serialized_length [OF sendable_msgs(1) [of sv me rq i]] serialized_length [OF sendable_msgs(2) [of rs i]]
    serialized_length [OF sendable_msgs(3) [of e i]]
  by (simp_all add: fits_def maxMessageLen_def checksumLen_def has_view get_view(3-6) msg_inv_msgs view_msgs
      request_view_def response_view_def error_view_def)

lemma send_error:
  assumes "writes evb w conn b c" and "ErrorCode_IsValid e"
  shows "\<exists>s. bind_res (set_type RESPONSE (RpcMessage_new L)) (\<lambda>response.
          let response = set_id i response in
          bind_res (set_error e response) (\<lambda>response. channel_send E Z M conn response w)) = Inr (w\<lparr>ext := s\<rparr>) \<and>
     evb s = (evb (ext w))(b \<mapsto> c @ frame Z mRpc (SerializeWithCachedSizesToArray L (error_msg L i e)))"
  using channel_send_frame [OF sendable_msgs(3) [OF assms(2)] assms(1) fits_msgs(3) [OF assms(2)], of i] assms(2)
  by (simp add: valid_types error_msg_def Let_def)

end

subsection \<open>What a request asks for\<close>

text \<open>
  The lookup of a request in the service table of a channel: the code of the error to answer,
  or the service, the method and the parsed argument to call it with.
\<close>

definition lookup_request ::
  "('q, 'w) service_ops \<Rightarrow> (bytes \<times> ptr) list option \<Rightarrow> 'u RpcMessage \<Rightarrow> int32 + ptr \<times> ptr \<times> 'q" where
  "lookup_request S table m =
     (case table of
        None \<Rightarrow> Inl NO_SERVICE
      | Some services \<Rightarrow>
         (case map_of services (service_get m) of
            None \<Rightarrow> Inl NO_SERVICE
          | Some service \<Rightarrow>
              let method = svc_FindMethodByName S service (method_get m) in
              if method = NULL then Inl NO_METHOD
              else
                let (ok, request) = q_ParseFromString S (svc_new_request S service method) (request_get m) in
                if ok then Inr (service, method, request) else Inl INVALID_REQUEST))"

definition service_table :: "('s, 'q, 'z) rpc_net_scheme \<Rightarrow> RpcChannel \<Rightarrow> (bytes \<times> ptr) list option" where
  "service_table w ch = (if ch_services ch = NULL then None else service_maps w (ch_services ch))"

definition table_ok :: "('s, 'q, 'z) rpc_net_scheme \<Rightarrow> RpcChannel \<Rightarrow> bool" where
  "table_ok w ch \<longleftrightarrow> ch_services ch \<noteq> NULL \<longrightarrow>
     (\<exists>services. service_maps w (ch_services ch) = Some services \<and> NULL \<notin> snd ` set services)"

lemma on_request_eq:
  assumes "channels w this = Some ch" "this \<noteq> NULL" "table_ok w ch"
  shows "on_request S this m w =
    (case lookup_request S (service_table w ch) m of
       Inl e \<Rightarrow> Inr (e, w)
     | Inr (service, method, request) \<Rightarrow>
         bind_res (svc_CallMethod S service method request (next_msg w)
           \<lparr>dc_channel = this, dc_response = next_msg w, dc_id = id_get m\<rparr>
           (snd (new_msg (svc_new_response S service method) w))) (\<lambda>w'. Inr (NO_ERROR, w')))"
proof (cases "ch_services ch = NULL")
  case True
  then show ?thesis
    using assms by (simp add: on_request_def lookup_request_def service_table_def)
next
  case False
  then obtain services where sv: "service_maps w (ch_services ch) = Some services" "NULL \<notin> snd ` set services"
    using assms(3) by (auto simp: table_ok_def)
  show ?thesis
  proof (cases "map_of services (service_get m)")
    case None
    then show ?thesis
      using assms sv False by (simp add: on_request_def lookup_request_def service_table_def)
  next
    case (Some service)
    then have "service \<noteq> NULL"
      using sv(2) by (force dest: map_of_SomeD)
    then show ?thesis
      using assms sv False Some
      by (simp add: on_request_def lookup_request_def service_table_def new_msg_def Let_def split: prod.split)
  qed
qed

lemma lookup_error_valid:
  "lookup_request S t m = Inl e \<Longrightarrow> ErrorCode_IsValid e \<and> e \<noteq> NO_ERROR"
  by (auto simp: lookup_request_def ErrorCode_IsValid_def Let_def split: option.splits if_splits prod.splits)


text \<open>A process with a channel at address 30 on the connection of \<open>sample_conn\<close>, and a service at 40.\<close>

definition S0 :: "(bytes, (chunk_lib, bytes) rpc_net) service_ops" where
  "S0 = \<lparr>svc_full_name = (\<lambda>s. [75, 86]),
     svc_FindMethodByName = (\<lambda>s n. if n = [80, 117, 116] then 41 else NULL),
     svc_new_request = (\<lambda>s m. []), svc_new_response = (\<lambda>s m. []),
     svc_CallMethod = (\<lambda>s m q r dc w. Inr (w\<lparr>user_msgs := (user_msgs w)(r \<mapsto> q)\<rparr>)),
     method_service_full_name = (\<lambda>m. [75, 86]), method_name = (\<lambda>m. [80, 117, 116]),
     q_SerializeAsString = (\<lambda>q. q), q_ParseFromString = (\<lambda>q bs. (bs \<noteq> [9], bs)),
     run_closure = (\<lambda>d w. Inr (w\<lparr>closures := closures w - {d}\<rparr>)), run_user = (\<lambda>u c w. Some (Inr w))\<rparr>"

definition rpc_world :: "bytes \<Rightarrow> bytes \<Rightarrow> RpcChannel \<Rightarrow> (chunk_lib, bytes) rpc_net" where
  "rpc_world rb wb ch =
     \<lparr>ext = \<lparr>cl_bufs = [Some [rb], Some [wb]]\<rparr>, store = \<lparr>cells = [3 \<mapsto> sample_conn], next_addr = 4\<rparr>,
      lthreads = Map.empty, live_bevs = {9}, servers = Map.empty, clients = Map.empty, next_obj = 1,
      channels = [30 \<mapsto> ch], rpc_id = 6, user_msgs = [20 \<mapsto> []], next_msg = 21, closures = {25},
      service_maps = [35 \<mapsto> [([75, 86], 40)]], rpc_servers = Map.empty\<rparr>"

definition ch0 :: RpcChannel where
  "ch0 = (RpcChannel_conn 3)\<lparr>outstandings := [(5, \<lparr>oc_response = 20, oc_done = 25\<rparr>)]\<rparr>"

lemma rpc_world_simps [simp]:
  "channels (rpc_world rb wb ch) = [30 \<mapsto> ch]" "rpc_id (rpc_world rb wb ch) = 6"
  "user_msgs (rpc_world rb wb ch) = [20 \<mapsto> []]" "closures (rpc_world rb wb ch) = {25}"
  "service_maps (rpc_world rb wb ch) = [35 \<mapsto> [([75, 86], 40)]]" "next_msg (rpc_world rb wb ch) = 21"
  by (simp_all add: rpc_world_def)

lemma rpc_world_buffers:
  "reads ch_evb (rpc_world rb wb ch) 3 1 rb" "writes ch_evb (rpc_world rb wb ch) 3 2 wb"
  by (simp_all add: reads_def writes_def rpc_world_def sample_conn_def ch_evb_def ch_at_def)

lemma sample_gets: "type_get sample_message = REQUEST" "id_get sample_message = 7"
    "service_get sample_message = [75, 86]" "method_get sample_message = [80, 117, 116]" "request_get sample_message = [1, 2, 3]"
  by (simp_all add: sample_facts)

subsection \<open>Properties\<close>

lemma CallMethod_frame:
  assumes "rpc_stack L unread M E evb Z" and "channels w this = Some ch" and "this \<noteq> NULL"
    and "ids_ok (rpc_id w) ch" and "ch_conn ch = Some conn" and "writes evb w conn b c"
    and "length (method_service_full_name S method) + length (method_name S method) +
         length (q_SerializeAsString S request) \<le> 67108000"
  shows "if sint (rpc_id w) = 2 ^ 31 - 1
     then CallMethod E Z L M S this method request response done w = Inl Signed_overflow
     else \<exists>w' ch'. CallMethod E Z L M S this method request response done w = Inr w' \<and>
       rpc_id w' = rpc_id w + 1 \<and> channels w' = (channels w)(this \<mapsto> ch') \<and> ids_ok (rpc_id w') ch' \<and>
       map_of (outstandings ch) (scast (rpc_id w')) = None \<and>
       map_of (outstandings ch') =
         (map_of (outstandings ch))(scast (rpc_id w') \<mapsto> \<lparr>oc_response = response, oc_done = done\<rparr>) \<and>
       writes evb w' conn b (c @ frame Z mRpc (SerializeWithCachedSizesToArray L (request_of L S (scast (rpc_id w')) method request))) \<and>
       user_msgs w' = user_msgs w \<and> closures w' = closures w \<and> store w' = store w \<and> live_bevs w' = live_bevs w \<and>
       ch' = ch\<lparr>outstandings := AList.update (scast (rpc_id w'))
                 \<lparr>oc_response = response, oc_done = done\<rparr> (outstandings ch)\<rparr> \<and>
       view (request_of L S (scast (rpc_id w')) method request) =
         request_view (scast (rpc_id w')) (method_service_full_name S method) (method_name S method)
           (q_SerializeAsString S request)"
proof (cases "sint (rpc_id w) = 2 ^ 31 - 1")
  case True
  then show ?thesis
    by (simp add: CallMethod_def valid_types Let_def)
next
  case False
  let ?id = "scast (rpc_id w + 1) :: int64"
  let ?m = "request_of L S ?id method request"
  let ?ch = "ch\<lparr>outstandings := AList.update ?id \<lparr>oc_response = response, oc_done = done\<rparr> (outstandings ch)\<rparr>"
  let ?w = "w\<lparr>rpc_id := rpc_id w + 1, channels := (channels w)(this \<mapsto> ?ch)\<rparr>"
  have wr: "writes evb ?w conn b c"
    using assms(6) by (simp add: writes_def)
  have snd: "sendable L ?m" "fits mRpc (SerializeWithCachedSizesToArray L ?m)"
    using assms(7) unfolding request_of_def
    by (auto intro!: rpc_stack.sendable_msgs [OF assms(1)] rpc_stack.fits_msgs [OF assms(1)])
  obtain s where s: "channel_send E Z M conn ?m ?w = Inr (?w\<lparr>ext := s\<rparr>)"
      "evb s = (evb (ext w))(b \<mapsto> c @ frame Z mRpc (SerializeWithCachedSizesToArray L ?m))"
    using rpc_stack.channel_send_frame [OF assms(1) snd(1) wr snd(2)] by auto
  have "writes evb (?w\<lparr>ext := s\<rparr>) conn b (c @ frame Z mRpc (SerializeWithCachedSizesToArray L ?m))"
    by (rule writes_ext [OF wr]) (simp add: s(2))
  moreover have "CallMethod E Z L M S this method request response done w = Inr (?w\<lparr>ext := s\<rparr>)"
    using rpc_stack.CallMethod_eq [OF assms(1,2,3,5) False] s(1) by (simp add: request_of_def)
  moreover have "view ?m = request_view ?id (method_service_full_name S method) (method_name S method)
      (q_SerializeAsString S request)"
    by (simp add: request_of_def view_msgs)
  ultimately show ?thesis
    using False ids_ok_fresh [OF assms(4) False]
    by (intro iffD2 [OF if_not_P] exI [where x = "?w\<lparr>ext := s\<rparr>"] exI [where x = ?ch])
      (simp_all add: update_conv')
qed

text \<open>
  C8. A call gets an id that no outstanding call of the channel has, is recorded under it with
  its response object and its closure, and its request (type, id, service, method, serialised
  argument) goes out as one frame after whatever the connection still has to write. The
  counter overflow is the only other outcome.
\<close>

theorem CallMethod_sends:
  assumes "rpc_stack L unread M E evb Z" and "channels w this = Some ch" and "this \<noteq> NULL"
    and "ids_ok (rpc_id w) ch" and "ch_conn ch = Some conn" and "writes evb w conn b c"
    and "length (method_service_full_name S method) + length (method_name S method) +
         length (q_SerializeAsString S request) \<le> 67108000"
  shows "if sint (rpc_id w) = 2 ^ 31 - 1
     then CallMethod E Z L M S this method request response done w = Inl Signed_overflow
     else \<exists>w' ch'. CallMethod E Z L M S this method request response done w = Inr w' \<and>
       rpc_id w' = rpc_id w + 1 \<and> channels w' = (channels w)(this \<mapsto> ch') \<and> ids_ok (rpc_id w') ch' \<and>
       map_of (outstandings ch) (scast (rpc_id w')) = None \<and>
       map_of (outstandings ch') =
         (map_of (outstandings ch))(scast (rpc_id w') \<mapsto> \<lparr>oc_response = response, oc_done = done\<rparr>) \<and>
       writes evb w' conn b (c @ frame Z mRpc (SerializeWithCachedSizesToArray L (request_of L S (scast (rpc_id w')) method request))) \<and>
       view (request_of L S (scast (rpc_id w')) method request) =
         request_view (scast (rpc_id w')) (method_service_full_name S method) (method_name S method)
           (q_SerializeAsString S request)"
proof (cases "sint (rpc_id w) = 2 ^ 31 - 1")
  case True
  then show ?thesis
    using CallMethod_frame [OF assms, of response "done"] by simp
next
  case False
  then show ?thesis
    using CallMethod_frame [OF assms, of response "done"] unfolding if_not_P [OF False] by blast
qed

theorem CallMethod_sends_witness:
  "\<exists>w'. CallMethod chunked ref_adler32 ref_wire (rpc_vtable ref_wire) S0 30 41 [1, 2, 3] 20 25 (rpc_world [] [9] ch0) = Inr w' \<and>
     rpc_id w' = 7 \<and>
     writes ch_evb w' 3 2 (9 # frame ref_adler32 mRpc (SerializeWithCachedSizesToArray ref_wire (request_of ref_wire S0 7 41 [1, 2, 3])))"
proof -
  have ids: "ids_ok (rpc_id (rpc_world [] [9] ch0)) ch0"
    by (simp add: ids_ok_def ch0_def)
  show ?thesis
    using CallMethod_sends [OF stack.rpc_stack_axioms _ _ ids _ rpc_world_buffers(2), of 30 S0 41 "[1, 2, 3]" 20 25]
    by (auto simp: ch0_def RpcChannel_conn_def S0_def)
qed

text \<open>
  C9. A request is answered as the channel's service table says: an unknown service, an unknown
  method and an argument that does not parse are answered with one error response carrying the
  request's id, on the connection the request came from; otherwise the service is called once,
  with a new response object and a closure that will answer under the request's id.
\<close>

theorem request_dispatch:
  assumes "rpc_stack L unread M E evb Z" and "channels w this = Some ch" and "this \<noteq> NULL"
    and "table_ok w ch" and "type_get m = REQUEST" and "writes evb w conn b c"
  shows "case lookup_request S (service_table w ch) m of
      Inl e \<Rightarrow> \<exists>s. onRpcMessage E Z L M S this conn m w = Inr (w\<lparr>ext := s\<rparr>) \<and>
        evb s = (evb (ext w))(b \<mapsto> c @ frame Z mRpc (SerializeWithCachedSizesToArray L (error_msg L (id_get m) e))) \<and>
        view (error_msg L (id_get m) e :: 'u RpcMessage) = error_view (id_get m) e
    | Inr (service, method, request) \<Rightarrow>
        onRpcMessage E Z L M S this conn m w =
          svc_CallMethod S service method request (next_msg w)
            \<lparr>dc_channel = this, dc_response = next_msg w, dc_id = id_get m\<rparr>
            (snd (new_msg (svc_new_response S service method) w))"
proof (cases "lookup_request S (service_table w ch) m")
  case (Inl e)
  then have e: "ErrorCode_IsValid e" "e \<noteq> NO_ERROR"
    using lookup_error_valid by blast+
  show ?thesis
    using rpc_stack.send_error [OF assms(1,6) e(1), of "id_get m"] e(2) assms(5) Inl
    by (auto simp: onRpcMessage_def on_request_eq [OF assms(2-4)] view_msgs)
next
  case (Inr x)
  then show ?thesis
    using assms(5)
    by (cases x) (simp add: onRpcMessage_def on_request_eq [OF assms(2-4)] bind_res_def split: sum.split)
qed

theorem request_dispatch_witness:
  "(\<exists>s. onRpcMessage chunked ref_adler32 ref_wire (rpc_vtable ref_wire) S0 30 3 sample_message (rpc_world [] [] ch0)
      = Inr ((rpc_world [] [] ch0)\<lparr>ext := s\<rparr>) \<and>
      ch_evb s 2 = Some (frame ref_adler32 mRpc (SerializeWithCachedSizesToArray ref_wire (error_msg ref_wire 7 NO_SERVICE)))) \<and>
   onRpcMessage chunked ref_adler32 ref_wire (rpc_vtable ref_wire) S0 30 3 sample_message
      (rpc_world [] [] (ch0\<lparr>ch_services := 35\<rparr>)) =
      Inr ((rpc_world [] [] (ch0\<lparr>ch_services := 35\<rparr>))\<lparr>user_msgs := [20 \<mapsto> [], 21 \<mapsto> [1, 2, 3]], next_msg := 22\<rparr>)"
proof
  have t: "table_ok (rpc_world [] [] ch0) ch0" "table_ok (rpc_world [] [] (ch0\<lparr>ch_services := 35\<rparr>)) (ch0\<lparr>ch_services := 35\<rparr>)"
    by (simp_all add: table_ok_def ch0_def RpcChannel_conn_def)
  have l: "lookup_request S0 (service_table (rpc_world [] [] ch0) ch0) sample_message = Inl NO_SERVICE"
    "lookup_request S0 (service_table (rpc_world [] [] (ch0\<lparr>ch_services := 35\<rparr>)) (ch0\<lparr>ch_services := 35\<rparr>)) sample_message
       = Inr (40, 41, [1, 2, 3])"
    by (simp_all add: lookup_request_def service_table_def ch0_def RpcChannel_conn_def sample_gets S0_def)
  show "\<exists>s. onRpcMessage chunked ref_adler32 ref_wire (rpc_vtable ref_wire) S0 30 3 sample_message (rpc_world [] [] ch0)
      = Inr ((rpc_world [] [] ch0)\<lparr>ext := s\<rparr>) \<and>
      ch_evb s 2 = Some (frame ref_adler32 mRpc (SerializeWithCachedSizesToArray ref_wire (error_msg ref_wire 7 NO_SERVICE)))"
    using request_dispatch [OF stack.rpc_stack_axioms _ _ t(1) sample_gets(1) rpc_world_buffers(2), of 30 S0] l(1)
    by (auto simp: sample_gets)
  show "onRpcMessage chunked ref_adler32 ref_wire (rpc_vtable ref_wire) S0 30 3 sample_message
      (rpc_world [] [] (ch0\<lparr>ch_services := 35\<rparr>)) =
      Inr ((rpc_world [] [] (ch0\<lparr>ch_services := 35\<rparr>))\<lparr>user_msgs := [20 \<mapsto> [], 21 \<mapsto> [1, 2, 3]], next_msg := 22\<rparr>)"
    using request_dispatch [OF stack.rpc_stack_axioms _ _ t(2) sample_gets(1) rpc_world_buffers(2), of 30 S0] l(2)
    by (simp add: S0_def new_msg_def)
qed

text \<open>
  C10. A response completes its call exactly once: the entry is removed first, a present payload
  is parsed into the caller's response object, the caller's closure runs, and the response
  object is deleted. The same response again, or one with an unknown id, changes nothing. A
  response with an error and no payload completes the call the same way, and the error code is
  dropped. The order and range of the remaining ids are kept.
\<close>

theorem response_completes_once:
  assumes "channels w this = Some ch" and "this \<noteq> NULL"
    and "type_get m = RESPONSE" and "has_response m \<or> has_error m"
    and "map_of (outstandings ch) (id_get m) = Some \<lparr>oc_response = r, oc_done = d\<rparr>"
    and "r \<noteq> NULL" and "d \<noteq> NULL" and "d \<in> closures w" and "user_msgs w r = Some q"
    and "run_closure S d (w\<lparr>channels := (channels w)(this \<mapsto> ch\<lparr>outstandings := AList.delete (id_get m) (outstandings ch)\<rparr>),
           user_msgs := (if has_response m then (user_msgs w)(r \<mapsto> snd (q_ParseFromString S q (response_get m))) else user_msgs w)\<rparr>)
         = Inr w1"
    and "user_msgs w1 r \<noteq> None"
    and "channels w1 this = Some (ch\<lparr>outstandings := AList.delete (id_get m) (outstandings ch)\<rparr>)"
  shows "\<exists>w'. onRpcMessage E Z L M S this conn m w = Inr w' \<and>
     w' = w1\<lparr>user_msgs := (user_msgs w1)(r := None)\<rparr> \<and>
     onRpcMessage E Z L M S this conn m w' = Inr w' \<and>
     (\<forall>n. ids_ok n ch \<longrightarrow> ids_ok n (ch\<lparr>outstandings := AList.delete (id_get m) (outstandings ch)\<rparr>))"
proof -
  let ?w' = "w1\<lparr>user_msgs := (user_msgs w1)(r := None)\<rparr>"
  obtain ok q' where "q_ParseFromString S q (response_get m) = (ok, q')"
    by fastforce
  then have "on_response S this m w = Inr ?w'"
    using assms by (cases "has_response m") (simp_all add: on_response_def run_done_def delete_msg_def)
  moreover have "on_response S this m ?w' = Inr ?w'"
    using assms(2,4,12) by (simp add: on_response_def delete_conv')
  ultimately show ?thesis
    using assms(3) ids_ok_delete by (simp add: onRpcMessage_def)
qed


text \<open>The response to the outstanding call 5 of \<open>ch0\<close>.\<close>

lemma response_gets:
  "type_get (response_msg ref_wire i bs) = RESPONSE" "id_get (response_msg ref_wire i bs) = i"
  "response_get (response_msg ref_wire i bs) = bs" "has_response (response_msg ref_wire i bs)"
  by (simp_all add: get_view [OF msg_inv_msgs(2)] view_msgs response_view_def)

theorem response_completes_once_witness:
  "\<exists>w'. onRpcMessage chunked ref_adler32 ref_wire (rpc_vtable ref_wire) S0 30 3 (response_msg ref_wire 5 [8])
       (rpc_world [] [] ch0) = Inr w' \<and>
     w' = (rpc_world [] [] ch0)\<lparr>channels := [30 \<mapsto> RpcChannel_conn 3], closures := {}, user_msgs := Map.empty\<rparr>"
proof -
  let ?w = "rpc_world [] [] ch0" and ?m = "response_msg ref_wire 5 [8]"
  have c: "ch0\<lparr>outstandings := AList.delete 5 (outstandings ch0)\<rparr> = RpcChannel_conn 3"
    "map_of (outstandings ch0) 5 = Some \<lparr>oc_response = 20, oc_done = 25\<rparr>"
    by (simp_all add: ch0_def RpcChannel_conn_def)
  have "run_closure S0 25 (?w\<lparr>channels := (channels ?w)(30 \<mapsto> RpcChannel_conn 3),
           user_msgs := (user_msgs ?w)(20 \<mapsto> snd (q_ParseFromString S0 [] [8]))\<rparr>)
         = Inr (?w\<lparr>channels := [30 \<mapsto> RpcChannel_conn 3], user_msgs := [20 \<mapsto> [8]], closures := {}\<rparr>)"
    by (simp add: S0_def)
  then show ?thesis
    using response_completes_once [of ?w 30 ch0 ?m 20 25 "[]" S0
        "?w\<lparr>channels := [30 \<mapsto> RpcChannel_conn 3], user_msgs := [20 \<mapsto> [8]], closures := {}\<rparr>"
        chunked ref_adler32 ref_wire "rpc_vtable ref_wire" 3]
    by (simp add: response_gets c)
qed

subsection \<open>A channel that nobody calls through, as a client of the codec\<close>

text \<open>
  The channel of a served connection: no service table, no outstanding call. Its abstract
  state is what it has written to the connection; a request is answered with \<open>NO_SERVICE\<close>.
\<close>

definition idle_channel ::
  "('s \<Rightarrow> ptr \<rightharpoonup> bytes) \<Rightarrow> ptr \<Rightarrow> ptr \<Rightarrow> ptr \<Rightarrow> ('s, 'q, 'z) rpc_net_scheme \<Rightarrow> bool" where
  "idle_channel evb this conn wb w \<longleftrightarrow> this \<noteq> NULL \<and>
     (\<exists>ch. channels w this = Some ch \<and> ch_services ch = NULL \<and> outstandings ch = []) \<and>
     (\<exists>out. writes evb w conn wb out)"

definition idle_step :: "('p, 'u) pb_ops \<Rightarrow> adler32_fun \<Rightarrow> 'u RpcMessage \<Rightarrow> bytes \<Rightarrow> bytes res" where
  "idle_step L Z m out =
     (if type_get m = RESPONSE then
        if has_response m \<or> has_error m then Inr out else Inl Assertion_failed
      else if type_get m = REQUEST then
        Inr (out @ frame Z mRpc (SerializeWithCachedSizesToArray L (error_msg L (id_get m) NO_SERVICE)))
      else Inr out)"

definition written :: "('s \<Rightarrow> ptr \<rightharpoonup> bytes) \<Rightarrow> ptr \<Rightarrow> ('s, 'z) net_scheme \<Rightarrow> bytes" where
  "written evb wb w = the (evb (ext w) wb)"

lemma channel_codec_fields [simp]:
  "codec_tag (rpcCodeDer (channel_codec E Z L M S this)) = mRpc"
  "messageCallback (rpcCodeDer (channel_codec E Z L M S this)) = onRpcMessage E Z L M S this"
  "codec_errorCallback (rpcCodeDer (channel_codec E Z L M S this)) = defaultErrorCallback"
  "codec_ok (rpcCodeDer (channel_codec E Z L M S this))"
  by (simp_all add: channel_codec_def codec_ok_RpcCodeDerived)

context rpc_stack
begin

lemma idle_request:
  assumes "idle_channel evb this conn wb w" and "type_get m = REQUEST"
  shows "\<exists>s. onRpcMessage E Z L M S this conn m w = Inr (w\<lparr>ext := s\<rparr>) \<and>
     evb s = (evb (ext w))(wb \<mapsto> written evb wb w @
       frame Z mRpc (SerializeWithCachedSizesToArray L (error_msg L (id_get m) NO_SERVICE)))"
proof -
  obtain ch out where ch: "this \<noteq> NULL" "channels w this = Some ch" "ch_services ch = NULL" "writes evb w conn wb out"
    using assms(1) by (auto simp: idle_channel_def)
  have "written evb wb w = out"
    using ch(4) by (simp add: written_def writes_def)
  moreover have "ErrorCode_IsValid NO_SERVICE"
    by (simp add: ErrorCode_IsValid_def)
  note send_error [OF ch(4) this, of "id_get m"]
  ultimately show ?thesis
    using assms(2) ch(1-3) by (auto simp: onRpcMessage_def on_request_def)
qed

lemma idle_callback:
  assumes "idle_channel evb this conn wb w"
  shows "case idle_step L Z m (written evb wb w) of
      Inl f \<Rightarrow> onRpcMessage E Z L M S this conn m w = Inl f
    | Inr out \<Rightarrow> \<exists>s. onRpcMessage E Z L M S this conn m w = Inr (w\<lparr>ext := s\<rparr>) \<and> evb s = (evb (ext w))(wb \<mapsto> out)"
proof -
  obtain ch out where ch: "this \<noteq> NULL" "channels w this = Some ch" "outstandings ch = []" "writes evb w conn wb out"
    using assms by (auto simp: idle_channel_def)
  have same: "\<exists>s. Inr w = Inr (w\<lparr>ext := s\<rparr>) \<and> evb s = (evb (ext w))(wb \<mapsto> written evb wb w)"
    using ch(4) by (intro exI [where x = "ext w"]) (auto simp: written_def writes_def fun_eq_iff)
  consider "type_get m = RESPONSE" | "type_get m = REQUEST" | "type_get m \<noteq> RESPONSE" "type_get m \<noteq> REQUEST"
    by blast
  then show ?thesis
  proof cases
    case 1
    then show ?thesis
      using ch same by (simp add: idle_step_def onRpcMessage_def on_response_def)
  next
    case 2
    then show ?thesis
      using idle_request [OF assms 2] by (simp add: idle_step_def)
  next
    case 3
    then show ?thesis
      using same by (simp add: idle_step_def onRpcMessage_def)
  qed
qed

lemma idle_ext:
  assumes "idle_channel evb this conn wb w" and "evb s wb = Some out"
  shows "idle_channel evb this conn wb (w\<lparr>ext := s\<rparr>)" "written evb wb (w\<lparr>ext := s\<rparr>) = out"
  using assms by (auto simp: idle_channel_def written_def intro: writes_ext)

lemma idle_codec_client:
  assumes "b \<noteq> wb"
  shows "codec_client E evb Z M (sendable L) same_view (rpcCodeDer (channel_codec E Z L M S this)) conn b
    (idle_channel evb this conn wb) (written evb wb) (idle_step L Z)"
proof (unfold_locales, goal_cases)
  case 1
  show ?case by simp
next
  case (2 w c s d)
  then have "evb s wb = Some (written evb wb w)"
    using assms by (auto simp: idle_channel_def written_def writes_def)
  then show ?case
    using idle_ext [OF 2(1)] by blast
next
  case (3 w c m f)
  then show ?case
    using idle_callback [OF 3(1), where S = S and m = m] by simp
next
  case (4 w c m out)
  then obtain s where s: "onRpcMessage E Z L M S this conn m w = Inr (w\<lparr>ext := s\<rparr>)" "evb s = (evb (ext w))(wb \<mapsto> out)"
    using idle_callback [OF 4(1), where S = S and m = m] by auto
  moreover have "evb s b = Some c"
    using s(2) 4(2) assms by (simp add: reads_def)
  ultimately show ?case
    using idle_ext [OF 4(1), of s out] reads_ext [OF 4(2)] by auto
qed

end

interpretation idle: codec_client chunked ch_evb ref_adler32 "rpc_vtable ref_wire" "sendable ref_wire" same_view
  "rpcCodeDer (channel_codec chunked ref_adler32 ref_wire (rpc_vtable ref_wire) S this)" conn 1
  "idle_channel ch_evb this conn 2" "written ch_evb 2" "idle_step ref_wire ref_adler32"
  for S this conn
  by (rule stack.idle_codec_client) simp

text \<open>A response without a payload and without an error, which the channel does not survive.\<close>

definition bare :: "'u RpcMessage \<Rightarrow> bool" where
  "bare m \<longleftrightarrow> type_get m = RESPONSE \<and> \<not> has_response m \<and> \<not> has_error m"

definition no_service_answers :: "('p, 'u) pb_ops \<Rightarrow> adler32_fun \<Rightarrow> 'u RpcMessage list \<Rightarrow> bytes" where
  "no_service_answers L Z ms = concat (map (\<lambda>m. frame Z mRpc (SerializeWithCachedSizesToArray L
     (error_msg L (id_get m) NO_SERVICE))) (filter (\<lambda>m. type_get m = REQUEST) ms))"

lemma run_idle:
  "run_msgs (idle_step L Z) ms out =
     (if \<exists>m \<in> set ms. bare m then Inl Assertion_failed else Inr (out @ no_service_answers L Z ms))"
  by (induction ms arbitrary: out) (auto simp: idle_step_def no_service_answers_def bare_def)

lemma idle_writes: "idle_channel evb this conn wb w \<Longrightarrow> writes evb w conn wb (written evb wb w)"
  by (auto simp: idle_channel_def written_def writes_def)

lemma idle_answers:
  assumes "rpc_stack L unread M E evb Z"
    and "idle_channel evb this conn wb w" and "conn \<noteq> NULL"
    and "reads evb w conn b c" and "b \<noteq> wb" and "length c < 2 ^ 31"
    and "decode_stream Z M mRpc c = (ms, err, left)"
  shows "if \<exists>m \<in> set ms. bare m then channel_onMessage E Z L M S this conn w = Some (Inl Assertion_failed)
     else \<exists>w'. channel_onMessage E Z L M S this conn w =
         Some (case err of None \<Rightarrow> Inr w' | Some e \<Rightarrow> defaultErrorCallback conn e w') \<and>
       reads evb w' conn b left \<and> writes evb w' conn wb (written evb wb w @ no_service_answers L Z ms)"
proof -
  note cl = rpc_stack.idle_codec_client [OF assms(1,5), of S this conn]
  note rd = codec_client.axioms(1) [OF cl]
  have on: "channel_onMessage E Z L M S this conn w = onMessage E Z M (rpcCodeDer (channel_codec E Z L M S this)) conn w"
    using assms(2,3) by (auto simp: channel_onMessage_def derived_onMessage_def idle_channel_def)
  have "codec_reader.at_client evb conn b (idle_channel evb this conn wb) (written evb wb) w (written evb wb w) c"
    using assms(2,4) by (simp add: codec_reader.at_client_def [OF rd])
  from codec_client.onMessage_decodes [OF cl this assms(6)]
  have loop: "codec_client.loop_result evb (rpcCodeDer (channel_codec E Z L M S this)) conn b (idle_channel evb this conn wb)
      (written evb wb) (idle_step L Z) (ms, err, left) (written evb wb w) (channel_onMessage E Z L M S this conn w)"
    by (simp add: on assms(7))
  show ?thesis
  proof (cases "\<exists>m \<in> set ms. bare m")
    case True
    then show ?thesis
      using loop by (simp add: codec_client.loop_result_def [OF cl] run_idle)
  next
    case False
    then obtain w' where w': "channel_onMessage E Z L M S this conn w =
          Some (codec_reader.leave_with (rpcCodeDer (channel_codec E Z L M S this)) conn err w')"
        "idle_channel evb this conn wb w'" "written evb wb w' = written evb wb w @ no_service_answers L Z ms"
        "reads evb w' conn b left"
      using loop by (auto simp: codec_client.loop_result_def [OF cl] run_idle codec_reader.at_client_def [OF rd])
    then show ?thesis
      unfolding if_not_P [OF False] codec_reader.leave_with_def [OF rd] channel_codec_fields
      using idle_writes [OF w'(2)] by metis
  qed
qed

lemma idle_new_channel:
  "channels w this = Some (setServices p (RpcChannel_conn conn)) \<Longrightarrow> this \<noteq> NULL \<Longrightarrow> writes evb w conn wb out \<Longrightarrow>
     idle_channel evb this conn wb w \<and> written evb wb w = out"
  by (auto simp: idle_channel_def written_def writes_def setServices_def RpcChannel_conn_def)

text \<open>
  C11. The channel of a served connection answers requests with \<open>NO_SERVICE\<close>, whatever table it
  was given: \<open>setServices\<close> assigns its parameter to itself, so the table stays null. For every
  stream of bytes, either a decoded message is a response with neither payload nor error, and
  the process stops at an assertion; or each decoded request is answered in order under its id,
  no other message is answered, and no service is called. When the stream also holds an error,
  the connection is closed after the answers.
\<close>

theorem server_channel_no_service:
  assumes "rpc_stack L unread M E evb Z"
    and "channels w this = Some (setServices p (RpcChannel_conn conn))" and "this \<noteq> NULL" and "conn \<noteq> NULL"
    and "reads evb w conn b c" and "writes evb w conn wb out" and "b \<noteq> wb" and "length c < 2 ^ 31"
    and "decode_stream Z M mRpc c = (ms, err, left)"
  shows "if \<exists>m \<in> set ms. bare m then channel_onMessage E Z L M S this conn w = Some (Inl Assertion_failed)
     else \<exists>w'. channel_onMessage E Z L M S this conn w =
         Some (case err of None \<Rightarrow> Inr w' | Some e \<Rightarrow> defaultErrorCallback conn e w') \<and>
       reads evb w' conn b left \<and> writes evb w' conn wb (out @ concat (map (\<lambda>m.
         frame Z mRpc (SerializeWithCachedSizesToArray L (error_msg L (id_get m) NO_SERVICE)))
           (filter (\<lambda>m. type_get m = REQUEST) ms)))"
  using idle_answers [OF assms(1) _ assms(4,5,7-9)] idle_new_channel [OF assms(2,3,6)]
  unfolding no_service_answers_def by metis

theorem server_channel_no_service_witness:
  "\<exists>w'. channel_onMessage chunked ref_adler32 ref_wire (rpc_vtable ref_wire) S0 30 3
       (rpc_world (frame ref_adler32 mRpc (SerializeWithCachedSizesToArray ref_wire sample_message)) []
          (setServices 35 (RpcChannel_conn 3))) = Some (Inr w') \<and>
     writes ch_evb w' 3 2 (frame ref_adler32 mRpc (SerializeWithCachedSizesToArray ref_wire (error_msg ref_wire 7 NO_SERVICE)))"
proof -
  let ?p = "SerializeWithCachedSizesToArray ref_wire sample_message"
  let ?m = "parsed_message (rpc_vtable ref_wire) ?p"
  have "same_view sample_message ?m"
    using rpc_ref.parsed_same [OF sample_sendable] by (simp add: rpc_ref.dispatch)
  then have v: "view ?m = view sample_message"
    by (simp add: same_view_def)
  have i: "msg_inv sample_message" "msg_inv ?m"
    using sample_sendable rpc_ref.parsed_inv by (simp_all add: sendable_def)
  have m: "type_get ?m = REQUEST" "id_get ?m = 7"
    using sample_gets(1,2) by (simp_all only: get_view(1,2) [OF i(1)] get_view(1,2) [OF i(2)] v)
  have d: "decode_stream ref_adler32 (rpc_vtable ref_wire) mRpc (frame ref_adler32 mRpc ?p) = ([?m], None, [])"
    using decode_stream_frame [of mRpc ?p ref_adler32 "rpc_vtable ref_wire" "[]"]
    by (simp add: fits_def maxMessageLen_def serialized_sample checksumLen_def)
  have l: "length (frame ref_adler32 mRpc ?p) < 2 ^ 31"
    by (simp add: serialized_sample checksumLen_def headerLen_def)
  show ?thesis
    using server_channel_no_service [where this = 30 and p = 35 and S = S0 and out = "[]",
        OF stack.rpc_stack_axioms _ _ _ rpc_world_buffers _ l d]
    by (auto simp: m bare_def)
qed

subsection \<open>One frame on any channel\<close>

context rpc_stack
begin

lemma channel_reader:
  "codec_reader E evb Z M (sendable L) same_view (rpcCodeDer (channel_codec E Z L M S this)) conn b
     (\<lambda>_. True) (\<lambda>w. (w\<lparr>ext := x\<rparr>, (evb (ext w))(b := None)))"
  by unfold_locales (auto simp: fun_eq_iff)

text \<open>A state that differs from another only in libevent's part, and there only in the buffer \<open>b\<close>.\<close>

lemma channel_at:
  fixes w w1 :: "('s, 'q, 'z) rpc_net_scheme"
  shows "codec_reader.at_client evb conn b (\<lambda>_. True) (\<lambda>v. (v\<lparr>ext := x\<rparr>, (evb (ext v))(b := None))) w1
     (w\<lparr>ext := x\<rparr>, (evb (ext w))(b := None)) bs \<longleftrightarrow>
   w1 = w\<lparr>ext := ext w1\<rparr> \<and> evb (ext w1) = (evb (ext w))(b \<mapsto> bs) \<and> reads evb w1 conn b bs"
proof -
  have "w1\<lparr>ext := x\<rparr> = w\<lparr>ext := x\<rparr> \<longleftrightarrow> w1 = w\<lparr>ext := ext w1\<rparr>"
    by (cases w1; cases w) simp
  moreover have "evb (ext w1) b = Some bs \<Longrightarrow>
      (evb (ext w1))(b := None) = (evb (ext w))(b := None) \<longleftrightarrow> evb (ext w1) = (evb (ext w))(b \<mapsto> bs)"
    by (metis fun_upd_triv fun_upd_upd)
  ultimately show ?thesis
    by (subst codec_reader.at_client_def [OF channel_reader]) (auto simp: reads_def)
qed

lemma channel_onMessage_frame:
  assumes "sendable L m" and "fits mRpc (SerializeWithCachedSizesToArray L m)"
    and "channels w this = Some ch" "this \<noteq> NULL" "conn \<noteq> NULL"
    and "reads evb w conn b (frame Z mRpc (SerializeWithCachedSizesToArray L m))"
  obtains m' s where "view m' = view m" and "msg_inv m'"
    and "evb s = (evb (ext w))(b \<mapsto> frame_body Z mRpc (SerializeWithCachedSizesToArray L m))"
    and "\<forall>f. onRpcMessage E Z L M S this conn m' (w\<lparr>ext := s\<rparr>) = Inl f \<longrightarrow>
        channel_onMessage E Z L M S this conn w = Some (Inl f)"
    and "\<forall>w2. onRpcMessage E Z L M S this conn m' (w\<lparr>ext := s\<rparr>) = Inr w2 \<longrightarrow>
        reads evb w2 conn b (frame_body Z mRpc (SerializeWithCachedSizesToArray L m)) \<longrightarrow>
        (\<exists>s2. channel_onMessage E Z L M S this conn w = Some (Inr (w2\<lparr>ext := s2\<rparr>)) \<and>
          evb s2 = (evb (ext w2))(b \<mapsto> []))"
proof -
  let ?p = "SerializeWithCachedSizesToArray L m"
  let ?abs = "\<lambda>v. (v\<lparr>ext := ext w\<rparr>, (evb (ext v))(b := None))"
  let ?m = "parsed_message M ?p"
  note rd = channel_reader [of S this conn b "ext w"]
  let ?at = "codec_reader.at_client evb conn b (\<lambda>_. True) ?abs"
  have "?at w (?abs w) (frame Z (codec_tag (rpcCodeDer (channel_codec E Z L M S this))) ?p)"
    using assms(6) by (simp only: channel_at) (simp add: reads_def fun_upd_idem)
  then obtain w1 where w1: "?at w1 (?abs w) (frame_body Z mRpc ?p)"
    and bad: "\<And>f. onRpcMessage E Z L M S this conn ?m w1 = Inl f \<Longrightarrow>
        onMessage E Z M (rpcCodeDer (channel_codec E Z L M S this)) conn w = Some (Inl f)"
    and good: "\<And>w2 a'. onRpcMessage E Z L M S this conn ?m w1 = Inr w2 \<Longrightarrow> ?at w2 a' (frame_body Z mRpc ?p) \<Longrightarrow>
        \<exists>w3. onMessage E Z M (rpcCodeDer (channel_codec E Z L M S this)) conn w = Some (Inr w3) \<and>
          ?at w3 a' [] \<and> w3 = w2\<lparr>ext := ext w3\<rparr>"
    by (rule codec_reader.onMessage_frame [OF rd]) (use assms(2) in simp_all)
  have ww: "w\<lparr>ext := ext w1\<rparr> = w1" and e1: "evb (ext w1) = (evb (ext w))(b \<mapsto> frame_body Z mRpc ?p)"
    using w1 by (simp_all only: channel_at)
  have ch: "channel_onMessage E Z L M S this conn w = onMessage E Z M (rpcCodeDer (channel_codec E Z L M S this)) conn w"
    using assms(3-5) by (simp add: channel_onMessage_def derived_onMessage_def)
  have rest: "\<exists>s2. channel_onMessage E Z L M S this conn w = Some (Inr (w2\<lparr>ext := s2\<rparr>)) \<and> evb s2 = (evb (ext w2))(b \<mapsto> [])"
    if "onRpcMessage E Z L M S this conn ?m w1 = Inr w2" "reads evb w2 conn b (frame_body Z mRpc ?p)" for w2
  proof -
    have "?at w2 (?abs w2) (frame_body Z mRpc ?p)"
      using that(2) by (simp only: channel_at) (simp add: reads_def fun_upd_idem)
    from good [OF that(1) this] obtain w3 where
        w3: "channel_onMessage E Z L M S this conn w = Some (Inr w3)" "?at w3 (?abs w2) []"
      unfolding ch by blast
    then have "w3 = w2\<lparr>ext := ext w3\<rparr>" "evb (ext w3) = (evb (ext w2))(b \<mapsto> [])"
      by (simp_all only: channel_at)
    with w3(1) show ?thesis
      by metis
  qed
  show thesis
    by (rule that [of ?m "ext w1"])
      (use parsed_same [OF assms(1)] parsed_inv e1 bad rest in \<open>simp_all add: dispatch same_view_def ww ch\<close>)
qed

end

text \<open>
  C18. Any peer can stop the process: one well-formed frame with a message of type \<open>RESPONSE\<close>
  that carries neither a response nor an error makes the assertion in \<open>onRpcMessage\<close> fail,
  on a client's channel as on a server's, whatever calls are outstanding.
\<close>

theorem empty_response_aborts:
  assumes "rpc_stack L unread M E evb Z"
    and "channels w this = Some ch" and "this \<noteq> NULL" and "conn \<noteq> NULL"
    and "sendable L m" and "type_get m = RESPONSE" and "\<not> has_response m" and "\<not> has_error m"
    and "fits mRpc (SerializeWithCachedSizesToArray L m)"
    and "reads evb w conn b (frame Z mRpc (SerializeWithCachedSizesToArray L m))"
  shows "channel_onMessage E Z L M S this conn w = Some (Inl Assertion_failed)"
proof -
  obtain m' s where m': "view m' = view m" "msg_inv m'"
    and bad: "\<forall>f. onRpcMessage E Z L M S this conn m' (w\<lparr>ext := s\<rparr>) = Inl f \<longrightarrow>
        channel_onMessage E Z L M S this conn w = Some (Inl f)"
    by (rule rpc_stack.channel_onMessage_frame [OF assms(1,5,9,2-4,10), of S]) (rule that)
  have "msg_inv m"
    using assms(5) by (simp add: sendable_def)
  then have "type_get m' = RESPONSE" "\<not> has_response m'" "\<not> has_error m'"
    using assms(6-8) m' by (simp_all add: get_view)
  then show ?thesis
    by (intro bad [rule_format]) (simp add: onRpcMessage_def on_response_def)
qed

definition bare_response :: "bytes RpcMessage" where
  "bare_response = (set_has_type (RpcMessage_new ref_wire))\<lparr>type_f := RESPONSE\<rparr>"

theorem empty_response_aborts_witness:
  "channel_onMessage chunked ref_adler32 ref_wire (rpc_vtable ref_wire) S0 30 3
     (rpc_world (frame ref_adler32 mRpc (SerializeWithCachedSizesToArray ref_wire bare_response)) [] ch0)
   = Some (Inl Assertion_failed)"
proof -
  have i: "msg_inv bare_response"
    by (simp add: bare_response_def view_new valid_types)
  have v: "view bare_response = empty_view\<lparr>v_type := Some RESPONSE\<rparr>"
    by (simp add: bare_response_def view_new)
  have "unknown_fields_f bare_response = uf_new ref_wire"
    by (simp add: bare_response_def RpcMessage_new_def)
  then have s: "sendable ref_wire bare_response"
    using i by (simp add: sendable_def ref.uf_new_empty get_view v empty_view_def)
  have f: "fits mRpc (SerializeWithCachedSizesToArray ref_wire bare_response)"
    using stack.serialized_length [OF s] stack.has_view [of bare_response]
    by (simp add: fits_def maxMessageLen_def checksumLen_def v empty_view_def)
  show ?thesis
    using empty_response_aborts [OF stack.rpc_stack_axioms _ _ _ s _ _ _ f rpc_world_buffers(1) [of _ "[]" ch0],
        where this = 30 and ch = ch0 and S = S0] i v
    by (simp add: get_view empty_view_def)
qed

text \<open>
  A message that concerns no outstanding call changes nothing: a response with an unknown
  id, and every message that is neither a request nor a response.
\<close>

lemma stray_message_ignored:
  assumes "channels w this = Some ch" and "this \<noteq> NULL"
    and "type_get m = RESPONSE \<and> (has_response m \<or> has_error m) \<and> id_get m \<notin> fst ` set (outstandings ch) \<or>
         type_get m \<notin> {REQUEST, RESPONSE}"
  shows "onRpcMessage E Z L M S this conn m w = Inr w"
proof -
  have "map_of (outstandings ch) (id_get m) = None" if "id_get m \<notin> fst ` set (outstandings ch)"
    using that by (simp add: map_of_eq_None_iff)
  then show ?thesis
    using assms by (auto simp: onRpcMessage_def on_response_def)
qed

lemma stray_message_ignored_example:
  "onRpcMessage chunked ref_adler32 ref_wire (rpc_vtable ref_wire) S0 30 3 (response_msg ref_wire 77 [8])
     (rpc_world [] [] ch0) = Inr (rpc_world [] [] ch0)"
  using stray_message_ignored [of "rpc_world [] [] ch0" 30 ch0 "response_msg ref_wire 77 [8]"]
  by (simp add: response_gets ch0_def RpcChannel_conn_def)

context rpc_stack
begin

lemma doneCallback_sends:
  assumes "dc_response dc \<noteq> NULL" and "user_msgs w (dc_response dc) = Some q" and "dc_id dc \<noteq> 0"
    and "dc_channel dc \<noteq> NULL" and "channels w (dc_channel dc) = Some ch" and "ch_conn ch = Some conn"
    and "writes evb w conn b c" and "length (q_SerializeAsString S q) \<le> 67108000"
  shows "\<exists>s. doneCallback E Z L M S dc w = Inr (w\<lparr>ext := s, user_msgs := (user_msgs w)(dc_response dc := None)\<rparr>) \<and>
       evb s = (evb (ext w))(b \<mapsto> c @ frame Z mRpc
         (SerializeWithCachedSizesToArray L (response_msg L (dc_id dc) (q_SerializeAsString S q))))"
proof -
  let ?m = "response_msg L (dc_id dc) (q_SerializeAsString S q)"
  have "sendable L ?m" "fits mRpc (SerializeWithCachedSizesToArray L ?m)"
    using assms(8) by (auto intro!: sendable_msgs fits_msgs)
  then obtain s where s: "channel_send E Z M conn ?m w = Inr (w\<lparr>ext := s\<rparr>)"
      "evb s = (evb (ext w))(b \<mapsto> c @ frame Z mRpc (SerializeWithCachedSizesToArray L ?m))"
    using channel_send_frame [OF _ assms(7)] by blast
  then have "doneCallback E Z L M S dc w = Inr (w\<lparr>ext := s, user_msgs := (user_msgs w)(dc_response dc := None)\<rparr>)"
    using assms(1-6) by (simp add: doneCallback_def valid_types the_conn_def response_msg_def delete_msg_def Let_def)
  with s(2) show ?thesis
    by blast
qed

end

text \<open>
  C17. The completion of a service call answers it once: the response object is serialised under
  the call's id into one frame on the channel's connection, and the object is deleted; a second
  run of the same completion reads the deleted object. A null object or the id zero fails the
  assertion.
\<close>

theorem doneCallback_replies:
  assumes "rpc_stack L unread M E evb Z"
    and "dc_response dc \<noteq> NULL" and "user_msgs w (dc_response dc) = Some q"
    and "dc_channel dc \<noteq> NULL" and "channels w (dc_channel dc) = Some ch" and "ch_conn ch = Some conn"
    and "writes evb w conn b c" and "length (q_SerializeAsString S q) \<le> 67108000"
  shows "if dc_id dc = 0 then doneCallback E Z L M S dc w = Inl Assertion_failed
     else \<exists>s. doneCallback E Z L M S dc w = Inr (w\<lparr>ext := s, user_msgs := (user_msgs w)(dc_response dc := None)\<rparr>) \<and>
       evb s = (evb (ext w))(b \<mapsto> c @ frame Z mRpc
         (SerializeWithCachedSizesToArray L (response_msg L (dc_id dc) (q_SerializeAsString S q)))) \<and>
       view (response_msg L (dc_id dc) (q_SerializeAsString S q) :: 'u RpcMessage) =
         response_view (dc_id dc) (q_SerializeAsString S q) \<and>
       doneCallback E Z L M S dc (w\<lparr>ext := s, user_msgs := (user_msgs w)(dc_response dc := None)\<rparr>) = Inl Use_after_free"
proof (cases "dc_id dc = 0")
  case False
  obtain s where "doneCallback E Z L M S dc w = Inr (w\<lparr>ext := s, user_msgs := (user_msgs w)(dc_response dc := None)\<rparr>)"
      "evb s = (evb (ext w))(b \<mapsto> c @ frame Z mRpc
         (SerializeWithCachedSizesToArray L (response_msg L (dc_id dc) (q_SerializeAsString S q))))"
    using rpc_stack.doneCallback_sends [OF assms(1-3) False assms(4-8)] by blast
  moreover have "doneCallback E Z L M S dc (w\<lparr>ext := s, user_msgs := (user_msgs w)(dc_response dc := None)\<rparr>) = Inl Use_after_free"
    using assms(2) False by (simp add: doneCallback_def valid_types Let_def)
  ultimately show ?thesis
    unfolding if_not_P [OF False] using view_msgs(2) by blast
qed (simp add: doneCallback_def)

theorem doneCallback_replies_witness:
  "\<exists>s. doneCallback chunked ref_adler32 ref_wire (rpc_vtable ref_wire) S0
        \<lparr>dc_channel = 30, dc_response = 20, dc_id = 7\<rparr> (rpc_world [] [] ch0)
      = Inr ((rpc_world [] [] ch0)\<lparr>ext := s, user_msgs := Map.empty\<rparr>) \<and>
     ch_evb s 2 = Some (frame ref_adler32 mRpc (SerializeWithCachedSizesToArray ref_wire (response_msg ref_wire 7 [])))"
proof -
  have "ch_conn ch0 = Some 3" "q_SerializeAsString S0 = (\<lambda>q. q)"
    by (simp_all add: ch0_def RpcChannel_conn_def S0_def)
  then show ?thesis
    using doneCallback_replies [OF stack.rpc_stack_axioms _ _ _ _ _ rpc_world_buffers(2) [of "[]" "[]" ch0],
      where dc = "\<lparr>dc_channel = 30, dc_response = 20, dc_id = 7\<rparr>" and q = "[]" and ch = ch0 and S = S0]
    by auto
qed


definition call_responses :: "(int64 \<times> OutstandingCall) list \<Rightarrow> ptr list" where
  "call_responses cs = map (\<lambda>c. oc_response (snd c)) cs"

definition call_closures :: "(int64 \<times> OutstandingCall) list \<Rightarrow> ptr list" where
  "call_closures cs = map (\<lambda>c. oc_done (snd c)) cs"

lemma call_lists [simp]:
  "call_responses [] = []" "call_responses (c # cs) = oc_response (snd c) # call_responses cs"
  "call_closures [] = []" "call_closures (c # cs) = oc_done (snd c) # call_closures cs"
  by (simp_all add: call_responses_def call_closures_def)

lemma delete_calls_frees:
  assumes "distinct (call_responses cs)" and "distinct (call_closures cs)"
    and "set (call_responses cs) \<subseteq> dom (user_msgs w)" and "set (call_closures cs) \<subseteq> closures w"
    and "NULL \<notin> set (call_responses cs)" and "NULL \<notin> set (call_closures cs)"
  shows "delete_calls cs w = Inr (w\<lparr>user_msgs := user_msgs w |` (- set (call_responses cs)),
     closures := closures w - set (call_closures cs)\<rparr>)"
  using assms
proof (induction cs arbitrary: w)
  case Nil
  then show ?case by (simp add: restrict_map_def)
next
  case (Cons it cs)
  let ?r = "oc_response (snd it)" and ?d = "oc_done (snd it)"
  let ?w = "w\<lparr>user_msgs := (user_msgs w)(?r := None), closures := closures w - {?d}\<rparr>"
  have "delete_calls (it # cs) w = delete_calls cs ?w"
    using Cons.prems by (auto simp: delete_msg_def delete_closure_def Let_def)
  also have "\<dots> = Inr (?w\<lparr>user_msgs := user_msgs ?w |` (- set (call_responses cs)),
     closures := closures ?w - set (call_closures cs)\<rparr>)"
    using Cons.prems by (intro Cons.IH) auto
  finally show ?case
    by (simp add: restrict_map_def fun_eq_iff set_diff_eq)
qed

text \<open>
  C30. Destroying a channel releases what it owns: the response object and the closure of every
  outstanding call, each once, and nothing else; the channel is gone afterwards and destroying
  it again is a use after free.
\<close>

theorem RpcChannel_destroy_frees:
  assumes "channels w this = Some ch" and "this \<noteq> NULL"
    and "distinct (call_responses (outstandings ch))" and "distinct (call_closures (outstandings ch))"
    and "set (call_responses (outstandings ch)) \<subseteq> dom (user_msgs w) - {NULL}"
    and "set (call_closures (outstandings ch)) \<subseteq> closures w - {NULL}"
  shows "\<exists>w'. RpcChannel_destroy this w = Inr w' \<and>
     dom (user_msgs w') = dom (user_msgs w) - set (call_responses (outstandings ch)) \<and>
     closures w' = closures w - set (call_closures (outstandings ch)) \<and>
     channels w' = (channels w)(this := None) \<and> RpcChannel_destroy this w' = Inl Use_after_free"
proof -
  have "delete_calls (outstandings ch) w = Inr (w\<lparr>user_msgs := user_msgs w |` (- set (call_responses (outstandings ch))),
     closures := closures w - set (call_closures (outstandings ch))\<rparr>)"
    using assms by (intro delete_calls_frees) auto
  then show ?thesis
    using assms(1,2) by (auto simp: RpcChannel_destroy_def)
qed

theorem RpcChannel_destroy_frees_witness:
  "\<exists>w'. RpcChannel_destroy 30 (rpc_world [] [] ch0) = Inr w' \<and> dom (user_msgs w') = {} \<and> closures w' = {}"
  using RpcChannel_destroy_frees [of "rpc_world [] [] ch0" 30 ch0] by (auto simp: ch0_def)

subsection \<open>A request at the server's end, a reply at the caller's\<close>

context rpc_stack
begin

lemma parsed_sent:
  assumes "sendable L m"
  shows "view (parsed_message M (SerializeWithCachedSizesToArray L m)) = view m"
    and "msg_inv (parsed_message M (SerializeWithCachedSizesToArray L m))"
  using parsed_same [OF assms] parsed_inv by (simp_all add: dispatch same_view_def)

end

lemma idle_answers_request:
  assumes "rpc_stack L unread M E evb Z" and "idle_channel evb this conn wb w" and "conn \<noteq> NULL"
    and "sendable L m" and "fits mRpc (SerializeWithCachedSizesToArray L m)" and "type_get m = REQUEST"
    and "reads evb w conn b (frame Z mRpc (SerializeWithCachedSizesToArray L m))" and "b \<noteq> wb"
  shows "\<exists>w'. channel_onMessage E Z L M S this conn w = Some (Inr w') \<and> reads evb w' conn b [] \<and>
     writes evb w' conn wb (written evb wb w @
       frame Z mRpc (SerializeWithCachedSizesToArray L (error_msg L (id_get m) NO_SERVICE)))"
proof -
  let ?p = "SerializeWithCachedSizesToArray L m" and ?m = "parsed_message M (SerializeWithCachedSizesToArray L m)"
  have same: "view ?m = view m" "msg_inv ?m" "msg_inv m"
    using rpc_stack.parsed_sent [OF assms(1,4)] assms(4) by (simp_all add: sendable_def)
  then have m: "type_get ?m = REQUEST" "id_get ?m = id_get m"
    using assms(6) by (simp_all add: get_view)
  have d: "decode_stream Z M mRpc (frame Z mRpc ?p) = ([?m], None, [])"
    using decode_stream_frame [OF assms(5), of Z M "[]"] by simp
  have l: "length (frame Z mRpc ?p) < 2 ^ 31"
    using assms(5) by (simp add: fits_def maxMessageLen_def headerLen_def)
  show ?thesis
    using idle_answers [OF assms(1-3,7,8) l d, of S] m by (simp add: bare_def no_service_answers_def)
qed

text \<open>
  What the caller's closure decides, when it runs in the state \<open>u\<close> while the channel reads from
  the state \<open>w\<close>: a fault of the closure is the outcome; when it returns with the response object
  alive and the connection's unread bytes as they were, the object is deleted and the rest of
  the frame consumed.
\<close>

definition closure_decides ::
  "'s evbuffer_ops \<Rightarrow> adler32_fun \<Rightarrow> ('p, 'u) pb_ops \<Rightarrow> 'u RpcMessage message_ops \<Rightarrow>
   ('q, ('s, 'q, 'z) rpc_net_scheme) service_ops \<Rightarrow> ('s \<Rightarrow> ptr \<rightharpoonup> bytes) \<Rightarrow> ptr \<Rightarrow> ptr \<Rightarrow> ptr \<Rightarrow> bytes \<Rightarrow> ptr \<Rightarrow> ptr \<Rightarrow>
   ('s, 'q, 'z) rpc_net_scheme \<Rightarrow> ('s, 'q, 'z) rpc_net_scheme \<Rightarrow> bool" where
  "closure_decides E Z L M S evb this conn b body r d w u \<longleftrightarrow>
     reads evb u conn b body \<and>
     (\<forall>f. run_closure S d u = Inl f \<longrightarrow> channel_onMessage E Z L M S this conn w = Some (Inl f)) \<and>
     (\<forall>u'. run_closure S d u = Inr u' \<and> user_msgs u' r \<noteq> None \<and> reads evb u' conn b body \<longrightarrow>
        (\<exists>s. channel_onMessage E Z L M S this conn w =
            Some (Inr (u'\<lparr>user_msgs := (user_msgs u')(r := None), ext := s\<rparr>)) \<and> evb s b = Some []))"

text \<open>
  A response reaches the call it answers: the caller's closure runs in a state in which the call
  is gone and the response object holds the payload, if there is one.
\<close>

lemma reply_completes:
  assumes "rpc_stack L unread M E evb Z" and "channels w this = Some ch" and "this \<noteq> NULL" and "conn \<noteq> NULL"
    and "sendable L m" and "fits mRpc (SerializeWithCachedSizesToArray L m)" and "type_get m = RESPONSE"
    and "has_response m \<or> has_error m"
    and "reads evb w conn b (frame Z mRpc (SerializeWithCachedSizesToArray L m))"
    and "map_of (outstandings ch) (id_get m) = Some \<lparr>oc_response = r, oc_done = d\<rparr>"
    and "r \<noteq> NULL" and "d \<noteq> NULL" and "d \<in> closures w" and "user_msgs w r = Some q"
  shows "\<exists>u. u = w\<lparr>ext := ext u, channels := (channels w)(this \<mapsto> ch\<lparr>outstandings := AList.delete (id_get m) (outstandings ch)\<rparr>),
        user_msgs := (user_msgs w)(r \<mapsto> (if has_response m then snd (q_ParseFromString S q (response_get m)) else q))\<rparr> \<and>
     closure_decides E Z L M S evb this conn b (frame_body Z mRpc (SerializeWithCachedSizesToArray L m)) r d w u"
proof -
  let ?body = "frame_body Z mRpc (SerializeWithCachedSizesToArray L m)"
  obtain m' s where m': "view m' = view m" "msg_inv m'"
    and s: "evb s = (evb (ext w))(b \<mapsto> ?body)"
    and bad: "\<forall>f. onRpcMessage E Z L M S this conn m' (w\<lparr>ext := s\<rparr>) = Inl f \<longrightarrow>
        channel_onMessage E Z L M S this conn w = Some (Inl f)"
    and good: "\<forall>w2. onRpcMessage E Z L M S this conn m' (w\<lparr>ext := s\<rparr>) = Inr w2 \<longrightarrow> reads evb w2 conn b ?body \<longrightarrow>
        (\<exists>s2. channel_onMessage E Z L M S this conn w = Some (Inr (w2\<lparr>ext := s2\<rparr>)) \<and> evb s2 = (evb (ext w2))(b \<mapsto> []))"
    by (rule rpc_stack.channel_onMessage_frame [OF assms(1,5,6,2-4,9), of S]) (rule that)
  have "msg_inv m"
    using assms(5) by (simp add: sendable_def)
  then have g: "type_get m' = RESPONSE" "has_response m' = has_response m" "has_error m' = has_error m"
      "id_get m' = id_get m" "response_get m' = response_get m"
    using assms(7) m' by (simp_all add: get_view)
  let ?q = "if has_response m then snd (q_ParseFromString S q (response_get m)) else q"
  let ?u = "w\<lparr>ext := s, channels := (channels w)(this \<mapsto> ch\<lparr>outstandings := AList.delete (id_get m) (outstandings ch)\<rparr>),
      user_msgs := (user_msgs w)(r \<mapsto> ?q)\<rparr>"
  have "(user_msgs w)(r \<mapsto> q) = user_msgs w"
    using assms(14) by auto
  then have on: "onRpcMessage E Z L M S this conn m' (w\<lparr>ext := s\<rparr>) = bind_res (run_closure S d ?u) (delete_msg r)"
    using assms(2,3,8,10-14) g
    by (cases "has_response m"; cases "q_ParseFromString S q (response_get m)")
      (simp_all add: onRpcMessage_def on_response_def run_done_def)
  have last: "\<exists>s2. channel_onMessage E Z L M S this conn w =
        Some (Inr (u'\<lparr>user_msgs := (user_msgs u')(r := None), ext := s2\<rparr>)) \<and> evb s2 b = Some []"
    if u': "run_closure S d ?u = Inr u'" "user_msgs u' r \<noteq> None" "reads evb u' conn b ?body" for u'
  proof -
    have "onRpcMessage E Z L M S this conn m' (w\<lparr>ext := s\<rparr>) = Inr (u'\<lparr>user_msgs := (user_msgs u')(r := None)\<rparr>)"
      using on u' assms(11) by (simp add: delete_msg_def)
    moreover have "reads evb (u'\<lparr>user_msgs := (user_msgs u')(r := None)\<rparr>) conn b ?body"
      using u'(3) by (simp add: reads_def)
    ultimately show ?thesis
      using good by fastforce
  qed
  have "reads evb ?u conn b ?body"
    using assms(9) s by (simp add: reads_def)
  moreover have "channel_onMessage E Z L M S this conn w = Some (Inl f)" if "run_closure S d ?u = Inl f" for f
    using bad on that by simp
  moreover have "?u = w\<lparr>ext := ext ?u, channels := (channels w)(this \<mapsto> ch\<lparr>outstandings := AList.delete (id_get m) (outstandings ch)\<rparr>),
      user_msgs := (user_msgs w)(r \<mapsto> ?q)\<rparr>"
    by simp
  ultimately show ?thesis
    using last unfolding closure_decides_def by blast
qed

lemma delete_update_fresh: "map_of al k = None \<Longrightarrow> AList.delete k (AList.update k v al) = al"
  by (induction al) (auto split: if_splits)

lemma request_of_gets:
  "type_get (request_of L S i method request) = REQUEST" "id_get (request_of L S i method request) = i"
  by (simp_all add: request_of_def get_view [OF msg_inv_msgs(1)] view_msgs request_view_def)

lemma error_msg_gets:
  assumes "ErrorCode_IsValid e"
  shows "type_get (error_msg L i e) = RESPONSE" "id_get (error_msg L i e) = i" "\<not> has_response (error_msg L i e)"
    "has_error (error_msg L i e)"
  by (simp_all add: get_view [OF msg_inv_msgs(3) [OF assms]] view_msgs error_view_def)

lemma rpc_world_cells: "cells (store (rpc_world rb wb ch)) 3 = Some sample_conn"
  by (simp add: rpc_world_def)

end
