(* ===== verification/Rpc_Server.thy ===== *)
theory Rpc_Server
  imports Rpc_Channel Tcp_Server
begin

text \<open>
  \<open>src/rpcServer.h\<close>, \<open>src/rpcServer.cpp\<close> and the smart pointers' accessor of
  \<open>include/util.h\<close>: the class \<open>RpcServer\<close>, which owns a \<open>TcpServer\<close> and the table of services
  and makes a channel for each new connection. The \<open>invoker\<close> of the TCP layer's callbacks is
  closed here: the callbacks the RPC layer stores are \<open>onConnection\<close> of a server and \<open>onMessage\<close>
  of a channel; a program that uses the library may store its own.
\<close>

subsection \<open>Smart pointers\<close>

record shared_ptr =
  sp_get :: ptr

definition get_pointer :: "shared_ptr \<Rightarrow> ptr" where
  "get_pointer p = sp_get p"

subsection \<open>Operations\<close>

text \<open>
  The constructor: \<open>this\<close> is the address of the object, \<open>srv\<close> and \<open>table\<close> those of its
  members \<open>server\<close> and \<open>services\<close>.
\<close>

definition RpcServer_init ::
  "'s event_ops \<Rightarrow> ptr \<Rightarrow> ptr \<Rightarrow> ptr \<Rightarrow> nat \<Rightarrow> string \<Rightarrow> int \<Rightarrow>
   ('s, 'q, 'z) rpc_net_scheme \<Rightarrow> ('s, 'q, 'z) rpc_net_scheme res" where
  "RpcServer_init V this srv table count ip port w =
     bind_res (TcpServer_init V srv count ip port w) (\<lambda>w.
     let w = w\<lparr>service_maps := (service_maps w)(table \<mapsto> []),
               rpc_servers := (rpc_servers w)(this \<mapsto> \<lparr>rs_server = srv, rs_services = table\<rparr>)\<rparr> in
     setConnectionCallback srv (Some (On_connection this)) w)"

definition registerService ::
  "('q, 'w) service_ops \<Rightarrow> ptr \<Rightarrow> ptr \<Rightarrow> ('s, 'q, 'z) rpc_net_scheme \<Rightarrow> ('s, 'q, 'z) rpc_net_scheme res" where
  "registerService S this service w =
     (if service \<noteq> NULL then
        let desc = svc_full_name S service in
        bind_res (deref (rpc_servers w) this) (\<lambda>rs.
        bind_res (deref (service_maps w) (rs_services rs)) (\<lambda>services.
        Inr (w\<lparr>service_maps := (service_maps w)(rs_services rs \<mapsto> AList.update desc service services)\<rparr>)))
      else Inr w)"

text \<open>\<open>new RpcChannel(conn)\<close>, held by a shared pointer.\<close>

definition new_channel :: "ptr \<Rightarrow> ('s, 'q, 'z) rpc_net_scheme \<Rightarrow> shared_ptr \<times> ('s, 'q, 'z) rpc_net_scheme" where
  "new_channel conn w =
     (\<lparr>sp_get = next_obj w\<rparr>,
      w\<lparr>channels := (channels w)(next_obj w \<mapsto> RpcChannel_conn conn), next_obj := Suc (next_obj w)\<rparr>)"

text \<open>
  The only owner of the channel is the local variable: leaving the block destroys it, while the
  server keeps a callback bound to its address.
\<close>

definition onConnection ::
  "ptr \<Rightarrow> ptr \<Rightarrow> ('s, 'q, 'z) rpc_net_scheme \<Rightarrow> ('s, 'q, 'z) rpc_net_scheme res" where
  "onConnection this conn w =
     (if conn \<noteq> NULL then
        bind_res (getFd conn w) (\<lambda>fd.
        bind_res (getThread conn w) (\<lambda>t.
        bind_res (deref (lthreads w) t) (\<lambda>thread.
        let (channel, w) = new_channel conn w in
        bind_res (deref (rpc_servers w) this) (\<lambda>rs.
        bind_res (deref (channels w) (get_pointer channel)) (\<lambda>ch.
        let w = w\<lparr>channels := (channels w)(get_pointer channel \<mapsto> setServices (rs_services rs) ch)\<rparr> in
        bind_res (setReadCallback (rs_server rs) (Some (Channel_onMessage (get_pointer channel))) w) (\<lambda>w.
        RpcChannel_destroy (get_pointer channel) w))))))
      else Inr w)"

definition start ::
  "'s event_ops \<Rightarrow> (ptr \<Rightarrow> ('s, 'q, 'z) rpc_net_scheme \<Rightarrow> ('s, 'q, 'z) rpc_net_scheme res option) \<Rightarrow>
   ptr \<Rightarrow> ('s, 'q, 'z) rpc_net_scheme \<Rightarrow> ('s, 'q, 'z) rpc_net_scheme res option" where
  "start V dispatch this w =
     bind_ro (Some (deref (rpc_servers w) this)) (\<lambda>rs. startRun V dispatch (rs_server rs) w)"

text \<open>The members are destroyed in reverse order of declaration: the table, then the server.\<close>

definition RpcServer_destroy ::
  "'s event_ops \<Rightarrow> ptr \<Rightarrow> ('s, 'q, 'z) rpc_net_scheme \<Rightarrow> ('s, 'q, 'z) rpc_net_scheme res option" where
  "RpcServer_destroy V this w =
     bind_ro (Some (deref (rpc_servers w) this)) (\<lambda>rs.
     bind_ro (TcpServer_destroy V (rs_server rs) (w\<lparr>service_maps := (service_maps w)(rs_services rs := None)\<rparr>)) (\<lambda>w.
     Some (Inr (w\<lparr>rpc_servers := (rpc_servers w)(this := None)\<rparr>))))"

text \<open>
  Running a stored callback. An event callback takes a further argument, so no closure of the
  RPC layer can be one.
\<close>

primrec rpc_call ::
  "'s evbuffer_ops \<Rightarrow> adler32_fun \<Rightarrow> ('p, 'u) pb_ops \<Rightarrow> 'u RpcMessage message_ops \<Rightarrow>
   ('q, ('s, 'q, 'z) rpc_net_scheme) service_ops \<Rightarrow> rpc_closure \<Rightarrow> ptr \<Rightarrow>
   ('s, 'q, 'z) rpc_net_scheme \<Rightarrow> ('s, 'q, 'z) rpc_net_scheme res option" where
  "rpc_call E Z L M S (On_connection this) conn w = Some (onConnection this conn w)"
| "rpc_call E Z L M S (Channel_onMessage this) conn w = channel_onMessage E Z L M S this conn w"
| "rpc_call E Z L M S (User_callback this) conn w = run_user S this conn w"

definition rpc_invoker ::
  "'s evbuffer_ops \<Rightarrow> adler32_fun \<Rightarrow> ('p, 'u) pb_ops \<Rightarrow> 'u RpcMessage message_ops \<Rightarrow>
   ('q, ('s, 'q, 'z) rpc_net_scheme) service_ops \<Rightarrow> (rpc_closure, ('s, 'q, 'z) rpc_net_scheme) invoker" where
  "rpc_invoker E Z L M S =
     \<lparr>call_data = rpc_call E Z L M S, call_event = (\<lambda>cb conn events w. Some (Inl Uninitialised))\<rparr>"

subsection \<open>Services\<close>

text \<open>The services a server offers, by name.\<close>

definition offers :: "('s, 'q, 'z) rpc_net_scheme \<Rightarrow> ptr \<Rightarrow> bytes \<rightharpoonup> ptr" where
  "offers w this = (case rpc_servers w this of
      None \<Rightarrow> Map.empty
    | Some rs \<Rightarrow> (case service_maps w (rs_services rs) of None \<Rightarrow> Map.empty | Some services \<Rightarrow> map_of services))"

definition has_table :: "('s, 'q, 'z) rpc_net_scheme \<Rightarrow> ptr \<Rightarrow> bool" where
  "has_table w this \<longleftrightarrow> this \<noteq> NULL \<and> (\<exists>rs services. rpc_servers w this = Some rs \<and> rs_services rs \<noteq> NULL \<and>
      service_maps w (rs_services rs) = Some services \<and> distinct (map fst services) \<and> NULL \<notin> snd ` set services)"

lemma registerService_eq:
  assumes "has_table w this"
  shows "\<exists>w'. registerService S this service w = Inr w' \<and> has_table w' this \<and>
     offers w' this = (if service = NULL then offers w this else (offers w this)(svc_full_name S service \<mapsto> service)) \<and>
     w' = w\<lparr>service_maps := service_maps w'\<rparr>"
proof -
  obtain rs services where rs: "this \<noteq> NULL" "rpc_servers w this = Some rs" "rs_services rs \<noteq> NULL"
      "service_maps w (rs_services rs) = Some services" "distinct (map fst services)" "NULL \<notin> snd ` set services"
    using assms by (auto simp: has_table_def)
  let ?t = "AList.update (svc_full_name S service) service services"
  have "snd ` set ?t \<subseteq> insert service (snd ` set services)"
    by (induction services) auto
  then have "NULL \<notin> snd ` set ?t" if "service \<noteq> NULL"
    using that rs(6) by auto
  moreover have "distinct (map fst ?t)"
    using rs(5) by (rule distinct_update)
  ultimately show ?thesis
    using rs by (auto simp: registerService_def has_table_def offers_def update_conv')
qed

text \<open>Registering a sequence of services.\<close>

primrec register_all ::
  "('q, 'w) service_ops \<Rightarrow> ptr \<Rightarrow> ptr list \<Rightarrow> ('s, 'q, 'z) rpc_net_scheme \<Rightarrow> ('s, 'q, 'z) rpc_net_scheme res" where
  "register_all S this [] w = Inr w"
| "register_all S this (p # ps) w = bind_res (registerService S this p w) (register_all S this ps)"

text \<open>
  C25. The service table holds the last service registered under each name: registering any
  sequence of services succeeds, a null pointer is ignored, and every name is then bound to the
  last service with that full name, or as before; nothing but the table changes.
\<close>

theorem registered_services_found:
  assumes "has_table w this"
  shows "\<exists>w'. register_all S this ps w = Inr w' \<and> has_table w' this \<and>
     offers w' this = offers w this ++ map_of (rev (map (\<lambda>p. (svc_full_name S p, p)) (filter (\<lambda>p. p \<noteq> NULL) ps))) \<and>
     w' = w\<lparr>service_maps := service_maps w'\<rparr>"
  using assms
proof (induction ps arbitrary: w)
  case (Cons p ps)
  obtain w1 where w1: "registerService S this p w = Inr w1" "has_table w1 this" "w1 = w\<lparr>service_maps := service_maps w1\<rparr>"
      "offers w1 this = (if p = NULL then offers w this else (offers w this)(svc_full_name S p \<mapsto> p))"
    using registerService_eq [OF Cons.prems, of S p] by blast
  obtain w2 where w2: "register_all S this ps w1 = Inr w2" "has_table w2 this" "w2 = w1\<lparr>service_maps := service_maps w2\<rparr>"
      "offers w2 this = offers w1 this ++ map_of (rev (map (\<lambda>p. (svc_full_name S p, p)) (filter (\<lambda>p. p \<noteq> NULL) ps)))"
    using Cons.IH [OF w1(2)] by blast
  have "w2 = w\<lparr>service_maps := service_maps w2\<rparr>"
    by (subst w2(3), subst w1(3)) simp
  then show ?case
    using w1(1,4) w2(1,2,4) by (auto simp: map_add_assoc [symmetric] map_add_upd_left)
qed auto

text \<open>A process with an \<open>RpcServer\<close> at 60: its TCP server at 50, two threads, its table at 35.\<close>

definition rpc0 :: "(ev_lib, bytes) rpc_net" where
  "rpc0 = tcp_net.extend
     \<lparr>ext = \<lparr>cl_bufs = [], ev_next = 1, ev_fd = 10, ev_pipes = (\<lambda>_. []), ev_io = (\<lambda>_. (0, 0))\<rparr>,
      store = empty_store, lthreads = Map.empty, live_bevs = {}, servers = Map.empty, clients = Map.empty,
      next_obj = 1\<rparr>
     (rpc_net.fields Map.empty 0 Map.empty 1 {} Map.empty Map.empty)"

lemmas rpc_init_simps = RpcServer_init_def TcpServer_init_def rpc0_def tcp_net.defs rpc_net.defs new_thread_def
      LibeventThread_init_def ConnQueue_init_def store_defs empty_store_def upd_thread_def setupThread_def
      ref_event_def ev_new_def numeral_2_eq_2 setConnectionCallback_def upd_server_def

definition rpc1 :: "(ev_lib, bytes) rpc_net" where
  "rpc1 = (case RpcServer_init ref_event 60 50 35 2 ''127.0.0.1'' 80 rpc0 of Inr w \<Rightarrow> w | Inl e \<Rightarrow> rpc0)"

lemma rpc1_init: "RpcServer_init ref_event 60 50 35 2 ''127.0.0.1'' 80 rpc0 = Inr rpc1"
  unfolding rpc1_def
  by (simp add: rpc_init_simps)

lemma rpc1_table: "rpc_servers rpc1 60 = Some \<lparr>rs_server = 50, rs_services = 35\<rparr>" "service_maps rpc1 35 = Some []"
  unfolding rpc1_def
  by (simp_all add: rpc_init_simps)

definition S1 :: "(bytes, (ev_lib, bytes) rpc_net) service_ops" where
  "S1 = \<lparr>svc_full_name = (\<lambda>s. if s = 42 then [66] else [75, 86]),
     svc_FindMethodByName = (\<lambda>s n. NULL),
     svc_new_request = (\<lambda>s m. []), svc_new_response = (\<lambda>s m. []),
     svc_CallMethod = (\<lambda>s m q r dc w. Inr w),
     method_service_full_name = (\<lambda>m. [75, 86]), method_name = (\<lambda>m. [80]),
     q_SerializeAsString = (\<lambda>q. q), q_ParseFromString = (\<lambda>q bs. (True, bs)),
     run_closure = (\<lambda>d w. Inr w), run_user = (\<lambda>u c w. Some (Inr w))\<rparr>"

theorem registered_services_found_witness:
  "\<exists>w'. register_all S1 60 [40, NULL, 42, 41] rpc1 = Inr w' \<and>
     offers w' 60 [75, 86] = Some 41 \<and> offers w' 60 [66] = Some 42 \<and> offers w' 60 [9] = None"
proof -
  have "has_table rpc1 60" "offers rpc1 60 = Map.empty"
    by (auto simp: has_table_def offers_def rpc1_table)
  with registered_services_found [of rpc1 60 S1 "[40, NULL, 42, 41]"] show ?thesis
    by (auto simp: S1_def)
qed

lemma onConnection_eq:
  assumes "this \<noteq> NULL" and "rpc_servers w this = Some rs"
    and "rs_server rs \<noteq> NULL" and "servers w (rs_server rs) = Some sv"
    and "conn \<noteq> NULL" and "cells (store w) conn = Some k" and "conn_thread k \<noteq> NULL"
    and "lthreads w (conn_thread k) = Some t" and "next_obj w \<noteq> NULL" and "channels w (next_obj w) = None"
  shows "onConnection this conn w =
    Inr (w\<lparr>servers := (servers w)(rs_server rs \<mapsto> sv\<lparr>srv_read_cb := Some (Channel_onMessage (next_obj w))\<rparr>),
      next_obj := Suc (next_obj w), channels := channels w\<rparr>)"
proof -
  have "(channels w)(next_obj w := None) = channels w"
    using assms(10) by (simp add: fun_eq_iff)
  with assms show ?thesis
    by (simp add: onConnection_def getFd_def getThread_def new_channel_def get_pointer_def setReadCallback_def upd_server_def
        RpcChannel_destroy_def setServices_def RpcChannel_conn_def)
qed

lemma onConnection_result:
  assumes "this \<noteq> NULL" and "rpc_servers w this = Some rs"
    and "rs_server rs \<noteq> NULL" and "servers w (rs_server rs) = Some sv"
    and "conn \<noteq> NULL" and "cells (store w) conn = Some k" and "conn_thread k \<noteq> NULL"
    and "lthreads w (conn_thread k) = Some t" and "next_obj w \<noteq> NULL" and "channels w (next_obj w) = None"
  shows "\<exists>w'. onConnection this conn w = Inr w' \<and> channels w' = channels w \<and>
     servers w' = (servers w)(rs_server rs \<mapsto> sv\<lparr>srv_read_cb := Some (Channel_onMessage (next_obj w))\<rparr>) \<and>
     store w' = store w \<and> lthreads w' = lthreads w \<and>
     (\<forall>V E Z L M S bev c kc tc. c \<noteq> NULL \<longrightarrow> cells (store w') c = Some kc \<longrightarrow> conn_thread kc \<noteq> NULL \<longrightarrow>
        lthreads w' (conn_thread kc) = Some tc \<longrightarrow> lt_owner tc = Server_owner (rs_server rs) \<longrightarrow>
        bufferReadCb V (rpc_invoker E Z L M S) bev c w' = Some (Inl Use_after_free))"
proof -
  let ?p = "next_obj w"
  let ?w = "w\<lparr>servers := (servers w)(rs_server rs \<mapsto> sv\<lparr>srv_read_cb := Some (Channel_onMessage ?p)\<rparr>),
      next_obj := Suc ?p, channels := channels w\<rparr>"
  have "onConnection this conn w = Inr ?w"
    by (rule onConnection_eq [OF assms])
  moreover have "bufferReadCb V (rpc_invoker E Z L M S) bev c ?w = Some (Inl Use_after_free)"
    if "c \<noteq> NULL" "cells (store ?w) c = Some kc" "conn_thread kc \<noteq> NULL" "lthreads ?w (conn_thread kc) = Some tc"
      "lt_owner tc = Server_owner (rs_server rs)" for V E Z L M S bev c kc tc
    using that assms(3,9,10)
    by (simp add: bufferReadCb_def fetch_buffers_def upd_conn_def upd_Conn_def getThread_def server_of_def rpc_invoker_def
        channel_onMessage_def)
  ultimately show ?thesis
    by (intro exI [where x = ?w]) auto
qed

text \<open>
  Every channel a server makes is destroyed before it can be used: \<open>onConnection\<close> succeeds,
  leaves the set of live channels as it was, and leaves the server with a read callback bound
  to the destroyed channel. From then on reading on any connection of that server is a use
  after free.
\<close>

theorem onConnection_dangles:
  assumes "this \<noteq> NULL" and "rpc_servers w this = Some rs"
    and "rs_server rs \<noteq> NULL" and "servers w (rs_server rs) = Some sv"
    and "conn \<noteq> NULL" and "cells (store w) conn = Some k" and "conn_thread k \<noteq> NULL"
    and "lthreads w (conn_thread k) = Some t" and "next_obj w \<noteq> NULL" and "channels w (next_obj w) = None"
  shows "\<exists>w'. onConnection this conn w = Inr w' \<and> channels w' = channels w \<and>
     servers w' = (servers w)(rs_server rs \<mapsto> sv\<lparr>srv_read_cb := Some (Channel_onMessage (next_obj w))\<rparr>) \<and>
     store w' = store w \<and> lthreads w' = lthreads w \<and>
     (\<forall>V E Z L M S bev c kc tc. c \<noteq> NULL \<longrightarrow> cells (store w') c = Some kc \<longrightarrow> conn_thread kc \<noteq> NULL \<longrightarrow>
        lthreads w' (conn_thread kc) = Some tc \<longrightarrow> lt_owner tc = Server_owner (rs_server rs) \<longrightarrow>
        bufferReadCb V (rpc_invoker E Z L M S) bev c w' = Some (Inl Use_after_free))"
  using onConnection_result [OF assms] .

definition served_world :: "(chunk_lib, bytes) rpc_net" where
  "served_world = (rpc_world [] [] ch0)
     \<lparr>servers := [50 \<mapsto> \<lparr>srv_read_cb = None, srv_write_cb = None, srv_connect_cb = Some (On_connection 60), srv_event_cb = None,
        thread_count = 1, srv_port = 80, srv_ip = [], srv_main_base = 7, threads = [8]\<rparr>],
      rpc_servers := [60 \<mapsto> \<lparr>rs_server = 50, rs_services = 35\<rparr>],
      lthreads := [8 \<mapsto> \<lparr>thread_id = 0, base = NULL, notify_send_fd = 0, notify_recv_fd = 0,
                       connect_queue = \<lparr>total = 1, head = 1, tail = 2\<rparr>, lt_owner = Server_owner 50\<rparr>]\<rparr>"

theorem onConnection_dangles_witness:
  "\<exists>w'. onConnection 60 3 served_world = Inr w' \<and> channels w' = [30 \<mapsto> ch0] \<and>
     (\<forall>V E Z M S. bufferReadCb V (rpc_invoker E Z ref_wire M S) 9 3 w' = Some (Inl Use_after_free))"
proof -
  let ?t = "\<lparr>thread_id = 0, base = NULL, notify_send_fd = 0, notify_recv_fd = 0,
                       connect_queue = \<lparr>total = 1, head = 1, tail = 2\<rparr>, lt_owner = Server_owner 50\<rparr>"
  have c: "cells (store served_world) 3 = Some sample_conn"
    by (simp add: served_world_def rpc_world_def)
  let ?rs = "\<lparr>rs_server = 50, rs_services = 35\<rparr>"
  have n: "(60 :: nat) \<noteq> NULL" "rpc_servers served_world 60 = Some ?rs" "rs_server ?rs \<noteq> NULL"
      "servers served_world (rs_server ?rs) = Some (the (servers served_world 50))" "(3 :: nat) \<noteq> NULL"
    and l: "conn_thread sample_conn \<noteq> NULL" "lthreads served_world (conn_thread sample_conn) = Some ?t"
      "next_obj served_world \<noteq> NULL" "channels served_world (next_obj served_world) = None"
    and ch: "channels served_world = [30 \<mapsto> ch0]"
    by (simp_all add: served_world_def rpc_world_def sample_conn_def)
  obtain w' where w': "onConnection 60 3 served_world = Inr w'" "channels w' = channels served_world"
    "store w' = store served_world" "lthreads w' = lthreads served_world"
    "\<forall>V E Z (L :: (ref_stream, bytes) pb_ops) M S bev c kc tc. c \<noteq> NULL \<longrightarrow> cells (store w') c = Some kc \<longrightarrow> conn_thread kc \<noteq> NULL \<longrightarrow>
        lthreads w' (conn_thread kc) = Some tc \<longrightarrow> lt_owner tc = Server_owner (rs_server ?rs) \<longrightarrow>
        bufferReadCb V (rpc_invoker E Z L M S) bev c w' = Some (Inl Use_after_free)"
    using onConnection_dangles [OF n c l] by blast
  then show ?thesis
    using w'(5) [rule_format, of 3 sample_conn ?t] c l ch by auto
qed

text \<open>
  C6. No request ever reaches a server: when a new connection arrives, the handler registers it
  and returns, and the first time the peer sends anything, whatever the bytes, the read handler
  calls the destroyed channel.
\<close>

theorem first_read_faults:
  assumes "event_lib V allocated" and "server_inv allocated srv qs w" and "servers w srv = Some server"
    and "srv_connect_cb server = Some (On_connection this)"
    and "this \<noteq> NULL" and "rpc_servers w this = Some rs" and "rs_server rs = srv"
    and "next_obj w \<noteq> NULL" and "channels w (next_obj w) = None"
    and "t \<in> set (threads server)" and "lthreads w t = Some th"
    and "sys_read_int V (notify_recv_fd th) (ext w) = (4, fd, s1)" and "fd \<noteq> EXIT_CODE"
    and "bufferevent_socket_new V (base th) fd s1 = (bev, s2)" and "bev \<noteq> NULL"
  shows "\<exists>c w1. notifyHandler V (rpc_invoker E Z L M S) t w = Some (Inr w1) \<and> serves srv w1 t c \<and>
     getFd c w1 = Inr fd \<and> channels w1 = channels w \<and>
     (\<forall>s. bufferReadCb V (rpc_invoker E Z L M S) bev c (w1\<lparr>ext := s\<rparr>) = Some (Inl Use_after_free))"
proof (rule event_lib.notify_attach [OF assms(1-3,10-15)])
  fix w'
  let ?c = "next_addr (store w)"
  assume a: "notifyHandler V (rpc_invoker E Z L M S) t w =
      call_if (srv_connect_cb server) (\<lambda>cb. call_data (rpc_invoker E Z L M S) cb ?c w') w'"
    "server_inv allocated srv (qs(t := ?c # qs t)) w'" "serves srv w' t ?c"
    "map_option conn_data (cells (store w') ?c) = Some (fd, t, bev, NULL, NULL)"
    "servers w' = servers w" "next_obj w' = next_obj w" "tcp_net.more w' = tcp_net.more w"
  have more: "rpc_servers w' = rpc_servers w" "channels w' = channels w"
    using a(7) by (cases w, cases w', simp)+
  obtain sv k th' where k: "servers w' srv = Some sv" "cells (store w') ?c = Some k" "?c \<noteq> NULL" "conn_thread k = t"
      "lthreads w' t = Some th'" "t \<noteq> NULL" "lt_owner th' = Server_owner srv"
    by (rule served [OF a(2,3)])
  have "srv \<noteq> NULL"
    by (rule server_invE [OF a(2)])
  obtain w1 where w1: "onConnection this ?c w' = Inr w1" "channels w1 = channels w'" "store w1 = store w'"
      "lthreads w1 = lthreads w'" "servers w1 = (servers w')(srv \<mapsto> sv\<lparr>srv_read_cb := Some (Channel_onMessage (next_obj w'))\<rparr>)"
    using onConnection_result [of this w' rs sv ?c k th'] assms(5-9) more a(5,6) k \<open>srv \<noteq> NULL\<close> by auto
  have "notifyHandler V (rpc_invoker E Z L M S) t w = Some (Inr w1)"
    using a(1) assms(4) w1(1) by (simp add: rpc_invoker_def)
  moreover have "serves srv w1 t ?c"
    using a(3) k(1) w1(3-5) by (auto simp: serves_def)
  moreover have "getFd ?c w1 = Inr fd"
    using a(4) k(2,3) w1(3) by (simp add: getFd_def conn_data_def)
  moreover have "bufferReadCb V (rpc_invoker E Z L M S) bev ?c (w1\<lparr>ext := s\<rparr>) = Some (Inl Use_after_free)" for s
    using k w1(2-5) more(2) a(6) assms(8,9) \<open>srv \<noteq> NULL\<close>
    by (simp add: bufferReadCb_def fetch_buffers_def upd_conn_def upd_Conn_def getThread_def server_of_def rpc_invoker_def
        channel_onMessage_def)
  ultimately show ?thesis
    using w1(2) more(2) by metis
qed

lemma RpcServer_init_inv:
  assumes "event_lib V allocated" and "store_ok (store w)" and "obj_ok w" and "live_bevs w \<subseteq> allocated (ext w)"
    and "this \<noteq> NULL" and "srv \<noteq> NULL" and "table \<noteq> NULL" and "0 < count"
    and "RpcServer_init V this srv table count ip port w = Inr w'"
  shows "server_inv allocated srv (\<lambda>_. []) w' \<and> has_table w' this \<and> offers w' this = Map.empty \<and>
     (\<exists>server. servers w' srv = Some server \<and> thread_count server = count \<and>
        srv_connect_cb server = Some (On_connection this))"
proof -
  obtain w1 where w1: "TcpServer_init V srv count ip port w = Inr w1"
    using assms(9) by (auto simp: RpcServer_init_def bind_res_eq_Inr)
  obtain sv where sv: "servers w1 srv = Some sv" "thread_count sv = count" and inv: "server_inv allocated srv (\<lambda>_. []) w1"
    using event_lib.TcpServer_init_inv [OF assms(1-3,6,8,4) w1] by blast
  have w': "w' = w1\<lparr>service_maps := (service_maps w1)(table \<mapsto> []),
      rpc_servers := (rpc_servers w1)(this \<mapsto> \<lparr>rs_server = srv, rs_services = table\<rparr>),
      servers := (servers w1)(srv \<mapsto> sv\<lparr>srv_connect_cb := Some (On_connection this)\<rparr>)\<rparr>"
    using assms(6,9) w1 sv(1) by (simp add: RpcServer_init_def setConnectionCallback_def upd_server_def Let_def)
  have "server_inv allocated srv (\<lambda>_. []) w'"
    by (rule server_inv_callbacks [OF inv _ _ _ _ sv(1), of _ "sv\<lparr>srv_connect_cb := Some (On_connection this)\<rparr>"])
      (simp_all add: w')
  then show ?thesis
    using assms(5,7) sv(2) by (simp add: w' has_table_def offers_def)
qed

text \<open>
  C26. Constructing an RPC server of at least one thread, when it does not throw, leaves a TCP
  server in its invariant with no connection, whose connection callback is \<open>onConnection\<close> of the new object, no other
  callback set, and an empty table of services.
\<close>

theorem RpcServer_init_ready:
  assumes "event_lib V allocated" and "store_ok (store w)" and "obj_ok w" and "live_bevs w \<subseteq> allocated (ext w)"
    and "this \<noteq> NULL" and "srv \<noteq> NULL" and "table \<noteq> NULL" and "0 < count"
    and "RpcServer_init V this srv table count ip port w = Inr w'"
  shows "server_inv allocated srv (\<lambda>_. []) w' \<and> has_table w' this \<and> offers w' this = Map.empty \<and>
     (\<exists>server. servers w' srv = Some server \<and> thread_count server = count \<and>
        srv_connect_cb server = Some (On_connection this))"
  using RpcServer_init_inv [OF assms] .

lemma rpc0_ok: "store_ok (store rpc0)" "obj_ok rpc0" "live_bevs rpc0 \<subseteq> ev_allocated (ext rpc0)"
  by (simp_all add: rpc0_def tcp_net.defs obj_ok_def)

theorem RpcServer_init_ready_witness:
  "server_inv ev_allocated 50 (\<lambda>_. []) rpc1 \<and> has_table rpc1 60 \<and> offers rpc1 60 = Map.empty"
  using RpcServer_init_ready [OF evref.event_lib_axioms rpc0_ok _ _ _ _ rpc1_init] by simp

text \<open>The same server with a descriptor waiting on the pipe of its first thread.\<close>

definition rpc2 :: "(ev_lib, bytes) rpc_net" where
  "rpc2 = rpc1\<lparr>ext := (ext rpc1)\<lparr>ev_pipes := (\<lambda>_. [])(10 := [7])\<rparr>\<rparr>"

lemma rpc1_state:
  "servers rpc1 50 = Some \<lparr>srv_read_cb = None, srv_write_cb = None, srv_connect_cb = Some (On_connection 60), srv_event_cb = None,
     thread_count = 2, srv_port = 80, srv_ip = ''127.0.0.1'', srv_main_base = 1, threads = [2, 3]\<rparr>"
  "lthreads rpc1 2 = Some \<lparr>thread_id = 0, base = 2, notify_send_fd = 11, notify_recv_fd = 10,
     connect_queue = \<lparr>total = 0, head = 3, tail = 4\<rparr>, lt_owner = Server_owner 50\<rparr>"
  "ev_next (ext rpc1) = 4" "next_obj rpc1 = 4" "channels rpc1 = Map.empty"
  unfolding rpc1_def
  by (simp_all add: rpc_init_simps)

lemma rpc1_inv: "server_inv ev_allocated 50 (\<lambda>_. []) rpc1"
  using RpcServer_init_inv [OF evref.event_lib_axioms rpc0_ok _ _ _ _ rpc1_init] by simp

theorem first_read_faults_witness:
  "\<exists>c w1. notifyHandler ref_event (rpc_invoker chunked ref_adler32 ref_wire (rpc_vtable ref_wire) S1) 2 rpc2 = Some (Inr w1) \<and>
     serves 50 w1 2 c \<and> getFd c w1 = Inr 7 \<and>
     bufferReadCb ref_event (rpc_invoker chunked ref_adler32 ref_wire (rpc_vtable ref_wire) S1) 4 c w1 = Some (Inl Use_after_free)"
proof -
  let ?s = "(ext rpc2)\<lparr>ev_pipes := (\<lambda>_. [])\<rparr>" and ?I = "rpc_invoker chunked ref_adler32 ref_wire (rpc_vtable ref_wire) S1"
  have inv: "server_inv ev_allocated 50 (\<lambda>_. []) rpc2"
    unfolding rpc2_def by (rule server_inv_frame [OF rpc1_inv]) (auto simp: ev_allocated_def)
  have "sys_read_int ref_event 10 (ext rpc2) = (4, 7, ?s)" "7 \<noteq> EXIT_CODE"
    "bufferevent_socket_new ref_event 2 7 ?s = (4, snd (bufferevent_socket_new ref_event 2 7 ?s))"
    by (simp_all add: rpc2_def ref_event_def EXIT_CODE_def rpc1_state fun_eq_iff)
  then obtain c w1 where "notifyHandler ref_event ?I 2 rpc2 = Some (Inr w1)" "serves 50 w1 2 c" "getFd c w1 = Inr 7"
      "\<forall>s. bufferReadCb ref_event ?I 4 c (w1\<lparr>ext := s\<rparr>) = Some (Inl Use_after_free)"
    using first_read_faults [OF evref.event_lib_axioms inv, where t = 2 and this = 60 and bev = 4 and fd = 7 and
        server = "the (servers rpc1 50)" and rs = "\<lparr>rs_server = 50, rs_services = 35\<rparr>" and th = "the (lthreads rpc1 2)"
        and ?s1.0 = ?s and ?s2.0 = "snd (bufferevent_socket_new ref_event 2 7 ?s)"
        and E = chunked and Z = ref_adler32 and L = ref_wire and M = "rpc_vtable ref_wire" and S = S1]
    by (auto simp: rpc2_def rpc1_state rpc1_table)
  moreover have "w1\<lparr>ext := ext w1\<rparr> = w1" for w1 :: "(ev_lib, bytes) rpc_net"
    by simp
  ultimately show ?thesis
    by metis
qed

text \<open>
  Destroying an RPC server returns and releases the table of services, the TCP server, its
  threads and the connections it serves.
\<close>

theorem RpcServer_destroy_frees:
  assumes "event_lib V allocated" and "server_inv allocated (rs_server rs) qs w"
    and "servers w (rs_server rs) = Some server" and "this \<noteq> NULL" and "rpc_servers w this = Some rs"
  shows "\<exists>w'. RpcServer_destroy V this w = Some (Inr w') \<and> rpc_servers w' this = None \<and> servers w' (rs_server rs) = None \<and>
     (\<forall>t \<in> set (srv_main_base server # threads server). lthreads w' t = None) \<and>
     (\<forall>t c. serves (rs_server rs) w t c \<longrightarrow> cells (store w') c = None)"
proof -
  let ?w = "w\<lparr>service_maps := (service_maps w)(rs_services rs := None)\<rparr>"
  have inv: "server_inv allocated (rs_server rs) qs ?w"
    by (rule server_inv_frame [OF assms(2)]) simp_all
  have "serves (rs_server rs) ?w = serves (rs_server rs) w"
    by (simp add: serves_def fun_eq_iff)
  then show ?thesis
    using event_lib.destroy_frees [OF assms(1) inv, of server] assms(3-5)
    by (auto simp: RpcServer_destroy_def)
qed

theorem RpcServer_destroy_frees_witness:
  "\<exists>w'. RpcServer_destroy ref_event 60 rpc1 = Some (Inr w') \<and> rpc_servers w' 60 = None \<and> lthreads w' 2 = None"
  using RpcServer_destroy_frees [where rs = "\<lparr>rs_server = 50, rs_services = 35\<rparr>" and w = rpc1 and this = 60
      and V = ref_event and allocated = ev_allocated, OF evref.event_lib_axioms] rpc1_inv rpc1_state(1) rpc1_table(1)
  by fastforce

end
