(* ===== verification/Rpc_Liveness.thy ===== *)
theory Rpc_Liveness
  imports Rpc_Server Tcp_Liveness
begin

text \<open>
  The RPC layer keeps the contract of \<open>Tcp_Liveness\<close>: the connection callback of an \<open>RpcServer\<close>,
  \<open>onConnection\<close>, returns and leaves queues, threads, bufferevents and pipes alone. So every
  connection that an RPC server accepts becomes a served connection.
\<close>

text \<open>The RPC server \<open>rpc\<close> is in place over the TCP server \<open>srv\<close>, and the addresses from \<open>next_obj\<close> on are free.\<close>

definition rpc_ready :: "ptr \<Rightarrow> ptr \<Rightarrow> ('s, 'q, 'z) rpc_net_scheme \<Rightarrow> bool" where
  "rpc_ready rpc srv w \<longleftrightarrow> rpc \<noteq> NULL \<and> srv \<noteq> NULL \<and> next_obj w \<noteq> NULL \<and>
     (\<forall>p \<ge> next_obj w. channels w p = None) \<and>
     (\<exists>rs sv. rpc_servers w rpc = Some rs \<and> rs_server rs = srv \<and> servers w srv = Some sv \<and>
        srv_connect_cb sv = Some (On_connection rpc))"

lemma onConnection_quiet:
  assumes ready: "rpc_ready rpc srv w" and inv: "server_inv allocated srv qs w" and serves: "serves srv w t c"
  shows "\<exists>w'. onConnection rpc c w = Inr w' \<and> quiet srv w w' \<and> rpc_ready rpc srv w'"
proof -
  obtain rs sv where rs: "rpc_servers w rpc = Some rs" "rs_server rs = srv" "servers w srv = Some sv"
      "srv_connect_cb sv = Some (On_connection rpc)"
    and r: "rpc \<noteq> NULL" "srv \<noteq> NULL" "next_obj w \<noteq> NULL" "\<forall>p \<ge> next_obj w. channels w p = None"
    using ready by (auto simp: rpc_ready_def)
  obtain k th where k: "cells (store w) c = Some k" "c \<noteq> NULL" "conn_thread k \<noteq> NULL" "lthreads w (conn_thread k) = Some th"
    by (rule served [OF inv serves]) (blast intro: that)
  let ?w = "w\<lparr>servers := (servers w)(rs_server rs \<mapsto> sv\<lparr>srv_read_cb := Some (Channel_onMessage (next_obj w))\<rparr>),
      next_obj := Suc (next_obj w), channels := channels w\<rparr>"
  have "onConnection rpc c w = Inr ?w"
    by (rule onConnection_eq) (use rs r k in auto)
  moreover have "quiet srv w ?w"
    using rs by (simp add: quiet_def)
  moreover have "rpc_ready rpc srv ?w"
    using rs r by (simp add: rpc_ready_def)
  ultimately show ?thesis by blast
qed

lemma rpc_ready_frame:
  assumes "rpc_ready rpc srv w" "servers w' = servers w" "next_obj w' = next_obj w" "tcp_net.more w' = tcp_net.more w"
  shows "rpc_ready rpc srv w'"
proof -
  have "rpc_servers w' = rpc_servers w" "channels w' = channels w"
    using assms(4) by (cases w, cases w', simp)+
  with assms show ?thesis
    by (simp add: rpc_ready_def)
qed

lemma rpc_prompt:
  assumes "pipe_lib V allocated pipe ends ample"
  shows "prompt_server V allocated pipe ends ample (rpc_invoker E Z L M S) srv (rpc_ready rpc srv)"
proof -
  have "\<exists>w'. call_data (rpc_invoker E Z L M S) cb c w = Some (Inr w') \<and> quiet srv w w' \<and> rpc_ready rpc srv w'"
    if "rpc_ready rpc srv w" "server_inv allocated srv qs w" "serves srv w t c" "servers w srv = Some sv" "srv_connect_cb sv = Some cb"
    for w qs t c sv cb
    using onConnection_quiet [OF that(1-3)] that(1,4,5) by (auto simp: rpc_ready_def rpc_invoker_def)
  then show ?thesis
    using assms rpc_ready_frame by (auto intro!: prompt_server.intro prompt_server_axioms.intro)
qed

interpretation ref_pipes: pipe_lib ref_event ev_allocated ev_pipes "\<lambda>_. {(r, sd). sd = r + 1}" "\<lambda>s. 0 < ev_next s"
  by unfold_locales (auto simp: ref_event_def)

interpretation rpc_served: prompt_server ref_event ev_allocated ev_pipes "\<lambda>_. {(r, sd). sd = r + 1}" "\<lambda>s. 0 < ev_next s"
    "rpc_invoker E Z L M S" srv "rpc_ready rpc srv" for E Z L M S srv rpc
  by (rule rpc_prompt [OF ref_pipes.pipe_lib_axioms])

text \<open>
  C7. Every accepted connection is served: when an RPC server accepts a descriptor, \<open>acceptCb\<close>
  puts it in the pipe of one of its threads, and once that thread's handler has fired for each
  descriptor that was waiting there and for this one, without a fault, the thread serves a
  connection with this descriptor, the pipe is empty, and the server is in order.
\<close>

theorem accepted_connection_served:
  assumes "pipe_lib V allocated pipe ends ample" and "ample (ext w)"
    and "server_inv allocated srv qs w" and "servers w srv = Some server" and "rpc_ready rpc srv w"
    and "fd \<noteq> EXIT_CODE"
    and "\<And>t th. t \<in> set (threads server) \<Longrightarrow> lthreads w t = Some th \<Longrightarrow>
        (notify_recv_fd th, notify_send_fd th) \<in> ends (ext w) \<and> EXIT_CODE \<notin> set (pipe (ext w) (notify_recv_fd th)) \<and>
        fst (sys_write_int V (notify_send_fd th) fd (ext w)) = 4"
  shows "\<exists>w1 t th w' c qs'. acceptCb V fd srv w = Inr w1 \<and> t \<in> set (threads server) \<and> lthreads w t = Some th \<and>
     fires V (rpc_invoker E Z L M S) t (Suc (length (pipe (ext w) (notify_recv_fd th)))) w1 = Some (Inr w') \<and>
     serves srv w' t c \<and> getFd c w' = Inr fd \<and> pipe (ext w') (notify_recv_fd th) = [] \<and> server_inv allocated srv qs' w'"
  by (rule prompt_server.accept_then_served [OF rpc_prompt [OF assms(1)] assms(3-5,2,6,7)])

lemma rpc1_thread3:
  "lthreads rpc1 3 = Some \<lparr>thread_id = 0, base = 3, notify_send_fd = 13, notify_recv_fd = 12,
     connect_queue = \<lparr>total = 0, head = 5, tail = 6\<rparr>, lt_owner = Server_owner 50\<rparr>"
  "ev_pipes (ext rpc1) = (\<lambda>_. [])"
  unfolding rpc1_def
  by (simp_all add: rpc_init_simps)

theorem accepted_connection_served_witness:
  "\<exists>w1 t n w' c. acceptCb ref_event 7 50 rpc1 = Inr w1 \<and>
     fires ref_event (rpc_invoker chunked ref_adler32 ref_wire (rpc_vtable ref_wire) S1) t n w1 = Some (Inr w') \<and>
     serves 50 w' t c \<and> getFd c w' = Inr 7"
proof -
  have "rpc_ready 60 50 rpc1"
    using rpc1_table by (auto simp: rpc_ready_def rpc1_state)
  moreover have "(7 :: int) \<noteq> EXIT_CODE"
    by (simp add: EXIT_CODE_def)
  ultimately show ?thesis
    using accepted_connection_served [OF ref_pipes.pipe_lib_axioms _ rpc1_inv rpc1_state(1), of 60 7
        chunked ref_adler32 ref_wire "rpc_vtable ref_wire" S1]
    by (fastforce simp: rpc1_state rpc1_thread3 ref_event_def)
qed

end
