(* ===== verification/Test_Programs.thy ===== *)
theory Test_Programs
  imports Rpc_Server Tcp_Client
begin

text \<open>
  \<open>test/server.cpp\<close> and \<open>test/client.cpp\<close>: the two programs the repository gives as examples of
  its use, a service \<open>TestMessageImpl\<close> with its \<open>main\<close>, and a class \<open>RpcClient\<close> that calls it.
  The classes that \<open>protoc\<close> makes of \<open>test/rpc.proto\<close> are not in the repository: their methods
  are the record \<open>test_ops\<close>, with the documented behaviour of the accessors as the locale
  \<open>test_messages\<close>. The client spells the package and the service by other names than the file
  declares; they are read as those of the file. The process state gains the standard output, the clients and the arguments
  bound in their completion closures.
\<close>

subsection \<open>The generated messages\<close>

text \<open>
  An element of a repeated field is named by its index, where the code has a pointer to it.
  \<open>keys_at\<close> is \<open>None\<close> for an index that is out of range.
\<close>

record 'q test_ops =
  PutRequest_new :: 'q
  PutResult_new :: 'q
  DebugString :: "'q \<Rightarrow> string"
  add_rvals :: "'q \<Rightarrow> nat \<times> 'q"
  set_success :: "nat \<Rightarrow> bool \<Rightarrow> 'q \<Rightarrow> 'q"
  set_errmsg :: "nat \<Rightarrow> bytes \<Rightarrow> 'q \<Rightarrow> 'q"
  add_sites :: "'q \<Rightarrow> nat \<times> 'q"
  set_key :: "nat \<Rightarrow> bytes \<Rightarrow> 'q \<Rightarrow> 'q"
  set_value :: "nat \<Rightarrow> bytes \<Rightarrow> 'q \<Rightarrow> 'q"
  keys_at :: "nat \<Rightarrow> 'q \<Rightarrow> bytes option"
  Put_method :: ptr \<comment> \<open>the descriptors of the two methods\<close>
  Get_method :: ptr

definition chars :: "string \<Rightarrow> bytes" where
  "chars s = map of_char s"

text \<open>The state of a process that runs one of the programs.\<close>

record RpcClient =
  rc_client :: ptr
  rc_channel :: shared_ptr
  rc_stub :: ptr \<comment> \<open>the channel the stub calls through\<close>

record ('s, 'q) test_net = "('s, 'q) rpc_net" +
  cout :: "string list"
  rpc_clients :: "ptr \<rightharpoonup> RpcClient"
  solved_args :: "ptr \<rightharpoonup> ptr \<times> ptr" \<comment> \<open>client and result bound in a closure\<close>
  next_closure :: ptr

subsection \<open>The service\<close>

definition put_reply :: "'q test_ops \<Rightarrow> 'q \<Rightarrow> 'q" where
  "put_reply T response =
     (let (resVal, response) = add_rvals T response;
          response = set_success T resVal True response
      in set_errmsg T resVal (chars ''no error!'') response)"

definition TestMessageImpl_Put ::
  "'s evbuffer_ops \<Rightarrow> adler32_fun \<Rightarrow> ('p, 'u) pb_ops \<Rightarrow> 'u RpcMessage message_ops \<Rightarrow> 'q test_ops \<Rightarrow>
   ('q, ('s, 'q, 'z) test_net_scheme) service_ops \<Rightarrow> 'q \<Rightarrow> ptr \<Rightarrow> done_callback \<Rightarrow>
   ('s, 'q, 'z) test_net_scheme \<Rightarrow> ('s, 'q, 'z) test_net_scheme res" where
  "TestMessageImpl_Put E Z L M T S request response done w =
     (let w = w\<lparr>cout := cout w @ [DebugString T request @ ''\<newline>'']\<rparr> in
      bind_res (deref (user_msgs w) response) (\<lambda>res.
      doneCallback E Z L M S done (w\<lparr>user_msgs := (user_msgs w)(response \<mapsto> put_reply T res)\<rparr>)))"

definition get_reply :: "'q test_ops \<Rightarrow> 'q \<Rightarrow> 'q \<Rightarrow> 'q res" where
  "get_reply T request response =
     (let (sit, response) = add_sites T response in
      case keys_at T 1 request of
        None \<Rightarrow> Inl Out_of_bounds
      | Some k \<Rightarrow> Inr (set_value T sit (chars ''value1'') (set_key T sit k response)))"

definition TestMessageImpl_Get ::
  "'s evbuffer_ops \<Rightarrow> adler32_fun \<Rightarrow> ('p, 'u) pb_ops \<Rightarrow> 'u RpcMessage message_ops \<Rightarrow> 'q test_ops \<Rightarrow>
   ('q, ('s, 'q, 'z) test_net_scheme) service_ops \<Rightarrow> 'q \<Rightarrow> ptr \<Rightarrow> done_callback \<Rightarrow>
   ('s, 'q, 'z) test_net_scheme \<Rightarrow> ('s, 'q, 'z) test_net_scheme res" where
  "TestMessageImpl_Get E Z L M T S request response done w =
     (let w = w\<lparr>cout := cout w @ [DebugString T request @ ''\<newline>'']\<rparr> in
      bind_res (deref (user_msgs w) response) (\<lambda>res.
      bind_res (get_reply T request res) (\<lambda>res.
      doneCallback E Z L M S done (w\<lparr>user_msgs := (user_msgs w)(response \<mapsto> res)\<rparr>))))"

text \<open>
  \<open>main\<close> of the server: \<open>impl\<close>, \<open>this\<close>, \<open>srv\<close> and \<open>table\<close> are the addresses of its local
  objects and their members. The call that shuts the protobuf library down has no effect on them.
\<close>

definition server_main ::
  "'s event_ops \<Rightarrow> (ptr \<Rightarrow> ('s, 'q, 'z) rpc_net_scheme \<Rightarrow> ('s, 'q, 'z) rpc_net_scheme res option) \<Rightarrow>
   ('q, ('s, 'q, 'z) rpc_net_scheme) service_ops \<Rightarrow> ptr \<Rightarrow> ptr \<Rightarrow> ptr \<Rightarrow> ptr \<Rightarrow>
   ('s, 'q, 'z) rpc_net_scheme \<Rightarrow> ('s, 'q, 'z) rpc_net_scheme res option" where
  "server_main V dispatch S impl this srv table w =
     bind_ro (Some (RpcServer_init V this srv table 4 ''127.0.0.1'' 8009 w)) (\<lambda>w.
     bind_ro (Some (registerService S this impl w)) (\<lambda>w.
     bind_ro (start V dispatch this w) (\<lambda>w.
     RpcServer_destroy V this w)))"

subsection \<open>The client\<close>

text \<open>The constructor: \<open>cl\<close> is the address of the member \<open>client_\<close>.\<close>

definition RpcClient_init ::
  "'s event_ops \<Rightarrow> ptr \<Rightarrow> ptr \<Rightarrow> string \<Rightarrow> int \<Rightarrow>
   ('s, 'q, 'z) test_net_scheme \<Rightarrow> ('s, 'q, 'z) test_net_scheme res" where
  "RpcClient_init V this cl ip port w =
     bind_res (TcpClient_init V cl ip port w) (\<lambda>w.
     let channel = \<lparr>sp_get = next_obj w\<rparr>;
         w = w\<lparr>channels := (channels w)(next_obj w \<mapsto> RpcChannel_default), next_obj := Suc (next_obj w)\<rparr>;
         w = w\<lparr>rpc_clients := (rpc_clients w)(this \<mapsto>
               \<lparr>rc_client = cl, rc_channel = channel, rc_stub = get_pointer channel\<rparr>)\<rparr>
     in bind_res (client_setConnectionCallback cl (Some (User_callback this)) w) (\<lambda>w.
        client_setReadCallback cl (Some (Channel_onMessage (get_pointer channel))) w))"

definition connect ::
  "'s event_ops \<Rightarrow> (ptr \<Rightarrow> ('s, 'q, 'z) test_net_scheme \<Rightarrow> ('s, 'q, 'z) test_net_scheme res option) \<Rightarrow>
   ptr \<Rightarrow> ('s, 'q, 'z) test_net_scheme \<Rightarrow> ('s, 'q, 'z) test_net_scheme res option" where
  "connect V dispatch this w =
     bind_ro (Some (deref (rpc_clients w) this)) (\<lambda>rc. client_startRun V dispatch (rc_client rc) w)"

definition put_request :: "'q test_ops \<Rightarrow> 'q" where
  "put_request T =
     (let request = PutRequest_new T;
          (sit, request) = add_sites T request;
          request = set_key T sit (chars ''key test 1'') request
      in set_value T sit (chars ''value test 1'') request)"

text \<open>\<open>NewCallback(this, &RpcClient::solved, result)\<close>.\<close>

definition new_solved :: "ptr \<Rightarrow> ptr \<Rightarrow> ('s, 'q, 'z) test_net_scheme \<Rightarrow> ptr \<times> ('s, 'q, 'z) test_net_scheme" where
  "new_solved this result w =
     (next_closure w, w\<lparr>closures := insert (next_closure w) (closures w),
        solved_args := (solved_args w)(next_closure w \<mapsto> (this, result)), next_closure := Suc (next_closure w)\<rparr>)"

definition RpcClient_onConnection ::
  "'s evbuffer_ops \<Rightarrow> adler32_fun \<Rightarrow> ('p, 'u) pb_ops \<Rightarrow> 'u RpcMessage message_ops \<Rightarrow> 'q test_ops \<Rightarrow>
   ('q, ('s, 'q, 'z) test_net_scheme) service_ops \<Rightarrow> ptr \<Rightarrow> ptr \<Rightarrow>
   ('s, 'q, 'z) test_net_scheme \<Rightarrow> ('s, 'q, 'z) test_net_scheme res" where
  "RpcClient_onConnection E Z L M T S this conn w =
     bind_res (deref (rpc_clients w) this) (\<lambda>rc.
     let channel = get_pointer (rc_channel rc) in
     bind_res (deref (channels w) channel) (\<lambda>ch.
     let w = w\<lparr>channels := (channels w)(channel \<mapsto> setConnection conn ch)\<rparr>;
         (result, w) = new_msg (PutResult_new T) w;
         (done, w) = new_solved this result w
     in CallMethod E Z L M S (rc_stub rc) (Put_method T) (put_request T) result done w))"

definition solved ::
  "'s event_ops \<Rightarrow> 'q test_ops \<Rightarrow> ptr \<Rightarrow> ptr \<Rightarrow>
   ('s, 'q, 'z) test_net_scheme \<Rightarrow> ('s, 'q, 'z) test_net_scheme res" where
  "solved V T this resp w =
     bind_res (deref (user_msgs w) resp) (\<lambda>q.
     let w = w\<lparr>cout := cout w @ [''solved:'' @ ''\<newline>'' @ takeWhile (\<lambda>c. c \<noteq> CHR 0x00) (DebugString T q)]\<rparr> in
     bind_res (deref (rpc_clients w) this) (\<lambda>rc.
     client_quit V (rc_client rc) None w))"

text \<open>Running a closure made by \<open>NewCallback\<close> calls the method and then deletes the closure.\<close>

definition run_solved ::
  "'s event_ops \<Rightarrow> 'q test_ops \<Rightarrow> ptr \<Rightarrow>
   ('s, 'q, 'z) test_net_scheme \<Rightarrow> ('s, 'q, 'z) test_net_scheme res" where
  "run_solved V T done w =
     bind_res (deref (solved_args w) done) (\<lambda>(this, resp).
     bind_res (solved V T this resp w) (\<lambda>w.
     Inr (w\<lparr>closures := closures w - {done}, solved_args := (solved_args w)(done := None)\<rparr>)))"

text \<open>The members are destroyed in reverse order: the stub, the last owner of the channel, the client.\<close>

definition RpcClient_destroy ::
  "'s event_ops \<Rightarrow> ptr \<Rightarrow> ('s, 'q, 'z) test_net_scheme \<Rightarrow> ('s, 'q, 'z) test_net_scheme res option" where
  "RpcClient_destroy V this w =
     bind_ro (Some (deref (rpc_clients w) this)) (\<lambda>rc.
     bind_ro (Some (RpcChannel_destroy (get_pointer (rc_channel rc)) w)) (\<lambda>w.
     bind_ro (TcpClient_destroy V (rc_client rc) w) (\<lambda>w.
     Some (Inr (w\<lparr>rpc_clients := (rpc_clients w)(this := None)\<rparr>)))))"

definition client_main ::
  "'s event_ops \<Rightarrow> (ptr \<Rightarrow> ('s, 'q, 'z) test_net_scheme \<Rightarrow> ('s, 'q, 'z) test_net_scheme res option) \<Rightarrow> ptr \<Rightarrow> ptr \<Rightarrow>
   ('s, 'q, 'z) test_net_scheme \<Rightarrow> ('s, 'q, 'z) test_net_scheme res option" where
  "client_main V dispatch this cl w =
     bind_ro (Some (RpcClient_init V this cl ''127.0.0.1'' 8009 w)) (\<lambda>w.
     bind_ro (connect V dispatch this w) (\<lambda>w.
     RpcClient_destroy V this w))"

text \<open>
  The program's own callbacks, put into the table of what the library calls back: everything
  else in \<open>S\<close> is generated code.
\<close>

definition client_program ::
  "'s event_ops \<Rightarrow> 's evbuffer_ops \<Rightarrow> adler32_fun \<Rightarrow> ('p, 'u) pb_ops \<Rightarrow> 'u RpcMessage message_ops \<Rightarrow> 'q test_ops \<Rightarrow>
   ('q, ('s, 'q, 'z) test_net_scheme) service_ops \<Rightarrow> ('q, ('s, 'q, 'z) test_net_scheme) service_ops" where
  "client_program V E Z L M T S =
     S\<lparr>run_user := (\<lambda>this conn w. Some (RpcClient_onConnection E Z L M T S this conn w)),
       run_closure := run_solved V T\<rparr>"

subsection \<open>What the accessors do\<close>

locale test_messages =
  fixes T :: "'q test_ops"
    and rvals :: "'q \<Rightarrow> (bool \<times> bytes) list"
    and sites :: "'q \<Rightarrow> (bytes \<times> bytes) list"
    and keys :: "'q \<Rightarrow> bytes list"
  assumes new_law: "rvals (PutResult_new T) = []" "sites (PutRequest_new T) = []"
    and add_rvals_law: "fst (add_rvals T q) = length (rvals q)" "rvals (snd (add_rvals T q)) = rvals q @ [(False, [])]"
    and success_law: "i < length (rvals q) \<Longrightarrow> rvals (set_success T i ok q) = (rvals q)[i := (ok, snd (rvals q ! i))]"
    and errmsg_law: "i < length (rvals q) \<Longrightarrow> rvals (set_errmsg T i x q) = (rvals q)[i := (fst (rvals q ! i), x)]"
    and add_sites_law: "fst (add_sites T q) = length (sites q)" "sites (snd (add_sites T q)) = sites q @ [([], [])]"
    and key_law: "i < length (sites q) \<Longrightarrow> sites (set_key T i x q) = (sites q)[i := (x, snd (sites q ! i))]"
    and value_law: "i < length (sites q) \<Longrightarrow> sites (set_value T i x q) = (sites q)[i := (fst (sites q ! i), x)]"
    and keys_law: "keys_at T i q = (if i < length (keys q) then Some (keys q ! i) else None)"
begin

lemma rvals_put_reply: "rvals (put_reply T q) = rvals q @ [(True, chars ''no error!'')]"
  by (simp add: put_reply_def case_prod_beta add_rvals_law success_law errmsg_law)

lemma sites_put_request: "sites (put_request T) = [(chars ''key test 1'', chars ''value test 1'')]"
  by (simp add: put_request_def case_prod_beta new_law add_sites_law key_law value_law)

lemma get_reply_short: "length (keys request) < 2 \<Longrightarrow> get_reply T request q = Inl Out_of_bounds"
  by (simp add: get_reply_def case_prod_beta keys_law)

lemma get_reply_site:
  assumes "2 \<le> length (keys request)"
  obtains q' where "get_reply T request q = Inr q'" and "sites q' = sites q @ [(keys request ! 1, chars ''value1'')]"
  using assms that by (simp add: get_reply_def case_prod_beta keys_law add_sites_law key_law value_law)

end

text \<open>The messages of \<open>test/rpc.proto\<close>, in one record of the fields the programs use.\<close>

record test_msg =
  tm_rvals :: "(bool \<times> bytes) list"
  tm_sites :: "(bytes \<times> bytes) list"
  tm_keys :: "bytes list"

definition msg0 :: test_msg where
  "msg0 = \<lparr>tm_rvals = [], tm_sites = [], tm_keys = []\<rparr>"

definition ref_test :: "test_msg test_ops" where
  "ref_test =
    \<lparr>PutRequest_new = msg0, PutResult_new = msg0,
     DebugString = (\<lambda>q. if tm_sites q = [] then [] else ''sites''),
     add_rvals = (\<lambda>q. (length (tm_rvals q), q\<lparr>tm_rvals := tm_rvals q @ [(False, [])]\<rparr>)),
     set_success = (\<lambda>i ok q. q\<lparr>tm_rvals := (tm_rvals q)[i := (ok, snd (tm_rvals q ! i))]\<rparr>),
     set_errmsg = (\<lambda>i x q. q\<lparr>tm_rvals := (tm_rvals q)[i := (fst (tm_rvals q ! i), x)]\<rparr>),
     add_sites = (\<lambda>q. (length (tm_sites q), q\<lparr>tm_sites := tm_sites q @ [([], [])]\<rparr>)),
     set_key = (\<lambda>i x q. q\<lparr>tm_sites := (tm_sites q)[i := (x, snd (tm_sites q ! i))]\<rparr>),
     set_value = (\<lambda>i x q. q\<lparr>tm_sites := (tm_sites q)[i := (fst (tm_sites q ! i), x)]\<rparr>),
     keys_at = (\<lambda>i q. if i < length (tm_keys q) then Some (tm_keys q ! i) else None),
     Put_method = 41, Get_method = 42\<rparr>"

interpretation tm: test_messages ref_test tm_rvals tm_sites tm_keys
  by unfold_locales (simp_all add: ref_test_def msg0_def)

subsection \<open>The methods of the service\<close>

text \<open>
  C2. \<open>Put\<close> prints its request and answers the call once: the response object gains one value,
  success with the message \<open>no error!\<close>; it goes out as one frame under the
  call's id on the connection of the channel the call came from; and it is deleted, so the
  completion cannot run again.
\<close>

theorem Put_replies:
  fixes w :: "('s, 'q, 'z) test_net_scheme"
  assumes "rpc_stack L unread M E evb Z" and "test_messages T rvals sites keys"
    and "dc_response dc \<noteq> NULL" and "user_msgs w (dc_response dc) = Some q" and "dc_id dc \<noteq> 0"
    and "dc_channel dc \<noteq> NULL" and "channels w (dc_channel dc) = Some ch" and "ch_conn ch = Some conn"
    and "writes evb w conn b c"
    and "length (q_SerializeAsString S (put_reply T q)) \<le> 67108000"
  shows "\<exists>q' w'. rvals q' = rvals q @ [(True, chars ''no error!'')] \<and>
     TestMessageImpl_Put E Z L M T S request (dc_response dc) dc w = Inr w' \<and>
     w' = w\<lparr>cout := cout w @ [DebugString T request @ ''\<newline>''], user_msgs := (user_msgs w)(dc_response dc := None), ext := ext w'\<rparr> \<and>
     evb (ext w') = (evb (ext w))(b \<mapsto> c @ frame Z mRpc
       (SerializeWithCachedSizesToArray L (response_msg L (dc_id dc) (q_SerializeAsString S q')))) \<and>
     view (response_msg L (dc_id dc) (q_SerializeAsString S q') :: 'u RpcMessage) =
       response_view (dc_id dc) (q_SerializeAsString S q') \<and>
     doneCallback E Z L M S dc w' = Inl Use_after_free"
proof -
  let ?q = "put_reply T q"
  let ?w = "w\<lparr>cout := cout w @ [DebugString T request @ ''\<newline>''], user_msgs := (user_msgs w)(dc_response dc \<mapsto> ?q)\<rparr>"
  have wr: "writes evb ?w conn b c" "user_msgs ?w (dc_response dc) = Some ?q"
      "channels ?w (dc_channel dc) = Some ch"
    using assms(7,9) by (simp_all add: writes_def)
  obtain s where s: "doneCallback E Z L M S dc ?w = Inr (?w\<lparr>ext := s, user_msgs := (user_msgs ?w)(dc_response dc := None)\<rparr>)"
      "evb s = (evb (ext ?w))(b \<mapsto> c @ frame Z mRpc
         (SerializeWithCachedSizesToArray L (response_msg L (dc_id dc) (q_SerializeAsString S ?q))))"
    using rpc_stack.doneCallback_sends [OF assms(1,3) wr(2) assms(5,6) wr(3) assms(8) wr(1) assms(10)] by blast
  let ?w' = "w\<lparr>cout := cout w @ [DebugString T request @ ''\<newline>''], user_msgs := (user_msgs w)(dc_response dc := None), ext := s\<rparr>"
  have "TestMessageImpl_Put E Z L M T S request (dc_response dc) dc w = Inr ?w'"
    using s(1) assms(3,4) by (simp add: TestMessageImpl_Put_def)
  moreover have "doneCallback E Z L M S dc ?w' = Inl Use_after_free"
    using assms(3,5) by (simp add: doneCallback_def valid_types Let_def)
  ultimately show ?thesis
    using s(2) test_messages.rvals_put_reply [OF assms(2), of q] view_msgs(2)
    by (intro exI [where x = ?q] exI [where x = ?w']) simp
qed

text \<open>
  A process with a channel at 30 on the connection of \<open>sample_conn\<close> and a response object at 20;
  and generated code whose messages carry one result at most.
\<close>

definition test_world :: "bytes \<Rightarrow> bytes \<Rightarrow> RpcChannel \<Rightarrow> (chunk_lib, test_msg) test_net" where
  "test_world rb wb ch =
     \<lparr>ext = \<lparr>cl_bufs = [Some [rb], Some [wb]]\<rparr>, store = \<lparr>cells = [3 \<mapsto> sample_conn], next_addr = 4\<rparr>,
      lthreads = Map.empty, live_bevs = {9}, servers = Map.empty, clients = Map.empty, next_obj = 1,
      channels = [30 \<mapsto> ch], rpc_id = 6, user_msgs = [20 \<mapsto> msg0], next_msg = 21, closures = {25},
      service_maps = [35 \<mapsto> [([75, 86], 40)]], rpc_servers = Map.empty,
      cout = [], rpc_clients = Map.empty, solved_args = Map.empty, next_closure = 26\<rparr>"

definition S_base :: "(test_msg, ('s, test_msg) test_net) service_ops" where
  "S_base = \<lparr>svc_full_name = (\<lambda>s. [75, 86]),
     svc_FindMethodByName = (\<lambda>s n. if n = [80, 117, 116] then 41 else NULL),
     svc_new_request = (\<lambda>s m. msg0), svc_new_response = (\<lambda>s m. msg0),
     svc_CallMethod = (\<lambda>s m q r dc w. Inr w),
     method_service_full_name = (\<lambda>m. [75, 86]), method_name = (\<lambda>m. [80, 117, 116]),
     q_SerializeAsString = (\<lambda>q. concat (map (\<lambda>(ok, e). (if ok then 1 else 0) # e) (tm_rvals q))),
     q_ParseFromString = (\<lambda>q bs. (True, q\<lparr>tm_rvals := (if bs = [] then [] else [(hd bs = 1, tl bs)])\<rparr>)),
     run_closure = (\<lambda>d w. Inr (w\<lparr>closures := closures w - {d}\<rparr>)), run_user = (\<lambda>u c w. Some (Inr w))\<rparr>"

lemma test_world_buffers:
  "reads ch_evb (test_world rb wb ch) 3 1 rb" "writes ch_evb (test_world rb wb ch) 3 2 wb"
  by (simp_all add: reads_def writes_def test_world_def sample_conn_def ch_evb_def ch_at_def)

theorem Put_replies_witness:
  "\<exists>q' w'. tm_rvals q' = [(True, chars ''no error!'')] \<and>
     TestMessageImpl_Put chunked ref_adler32 ref_wire (rpc_vtable ref_wire) ref_test S_base (put_request ref_test) 20
        \<lparr>dc_channel = 30, dc_response = 20, dc_id = 7\<rparr> (test_world [] [] (RpcChannel_conn 3)) = Inr w' \<and>
     cout w' = [''sites\<newline>''] \<and> user_msgs w' = Map.empty \<and>
     ch_evb (ext w') 2 = Some (frame ref_adler32 mRpc (SerializeWithCachedSizesToArray ref_wire
       (response_msg ref_wire 7 (q_SerializeAsString (S_base :: (test_msg, (chunk_lib, test_msg) test_net) service_ops) q'))))"
proof -
  let ?w = "test_world [] [] (RpcChannel_conn 3)" and ?dc = "\<lparr>dc_channel = 30, dc_response = 20, dc_id = 7\<rparr>"
  let ?S = "S_base :: (test_msg, (chunk_lib, test_msg) test_net) service_ops"
  have w: "user_msgs ?w = [20 \<mapsto> msg0]" "channels ?w 30 = Some (RpcChannel_conn 3)" "cout ?w = []"
    by (simp_all add: test_world_def)
  have q: "length (q_SerializeAsString ?S (put_reply ref_test msg0)) \<le> 67108000" "tm_rvals msg0 = []"
      "DebugString ref_test (put_request ref_test) = ''sites''"
    by (simp_all add: S_base_def ref_test_def msg0_def put_reply_def chars_def put_request_def)
  have dc: "dc_response ?dc \<noteq> NULL" "user_msgs ?w (dc_response ?dc) = Some msg0" "dc_id ?dc \<noteq> 0"
      "dc_channel ?dc \<noteq> NULL" "channels ?w (dc_channel ?dc) = Some (RpcChannel_conn 3)" "ch_conn (RpcChannel_conn 3) = Some 3"
    by (simp_all add: w) (simp add: RpcChannel_conn_def)
  obtain q' w' where q': "tm_rvals q' = tm_rvals msg0 @ [(True, chars ''no error!'')]"
    and put: "TestMessageImpl_Put chunked ref_adler32 ref_wire (rpc_vtable ref_wire) ref_test ?S (put_request ref_test)
        (dc_response ?dc) ?dc ?w = Inr w'"
    and w': "w' = ?w\<lparr>cout := cout ?w @ [DebugString ref_test (put_request ref_test) @ ''\<newline>''],
        user_msgs := (user_msgs ?w)(dc_response ?dc := None), ext := ext w'\<rparr>"
    and out: "ch_evb (ext w') = (ch_evb (ext ?w))(2 \<mapsto> [] @ frame ref_adler32 mRpc
       (SerializeWithCachedSizesToArray ref_wire (response_msg ref_wire (dc_id ?dc) (q_SerializeAsString ?S q'))))"
    using Put_replies [OF stack.rpc_stack_axioms tm.test_messages_axioms dc test_world_buffers(2) q(1), of "put_request ref_test"]
    by blast
  have "cout w' = [''sites\<newline>'']" "user_msgs w' = Map.empty"
    by (subst w', simp add: w q(3))+
  with q' put out show ?thesis
    using q(2) by auto
qed

text \<open>
  C33. \<open>Get\<close> reads the second key of its request, so a request with fewer than two keys is read
  out of range; with two or more, the request is printed and one response goes out under the id,
  with one more site: that key with the value \<open>value1\<close>.
\<close>

theorem Get_reads_second_key:
  fixes w :: "('s, 'q, 'z) test_net_scheme"
  assumes "rpc_stack L unread M E evb Z" and "test_messages T rvals sites keys"
    and "dc_response dc \<noteq> NULL" and "user_msgs w (dc_response dc) = Some q" and "dc_id dc \<noteq> 0"
    and "dc_channel dc \<noteq> NULL" and "channels w (dc_channel dc) = Some ch" and "ch_conn ch = Some conn"
    and "writes evb w conn b c"
    and "\<forall>q'. get_reply T request q = Inr q' \<longrightarrow> length (q_SerializeAsString S q') \<le> 67108000"
  shows "if length (keys request) < 2
     then TestMessageImpl_Get E Z L M T S request (dc_response dc) dc w = Inl Out_of_bounds
     else \<exists>q' s. sites q' = sites q @ [(keys request ! 1, chars ''value1'')] \<and>
       TestMessageImpl_Get E Z L M T S request (dc_response dc) dc w =
         Inr (w\<lparr>cout := cout w @ [DebugString T request @ ''\<newline>''], user_msgs := (user_msgs w)(dc_response dc := None), ext := s\<rparr>) \<and>
       evb s = (evb (ext w))(b \<mapsto> c @ frame Z mRpc
         (SerializeWithCachedSizesToArray L (response_msg L (dc_id dc) (q_SerializeAsString S q'))))"
proof (cases "length (keys request) < 2")
  case True
  then show ?thesis
    using assms(3,4) test_messages.get_reply_short [OF assms(2) True, of q] by (simp add: TestMessageImpl_Get_def)
next
  case False
  then obtain q' where q': "get_reply T request q = Inr q'" "sites q' = sites q @ [(keys request ! 1, chars ''value1'')]"
    using test_messages.get_reply_site [OF assms(2), of request q] by auto
  let ?w = "w\<lparr>cout := cout w @ [DebugString T request @ ''\<newline>''], user_msgs := (user_msgs w)(dc_response dc \<mapsto> q')\<rparr>"
  have wr: "writes evb ?w conn b c" "user_msgs ?w (dc_response dc) = Some q'" "channels ?w (dc_channel dc) = Some ch"
    using assms(7,9) by (simp_all add: writes_def)
  obtain s where "doneCallback E Z L M S dc ?w = Inr (?w\<lparr>ext := s, user_msgs := (user_msgs ?w)(dc_response dc := None)\<rparr>)"
      "evb s = (evb (ext ?w))(b \<mapsto> c @ frame Z mRpc
         (SerializeWithCachedSizesToArray L (response_msg L (dc_id dc) (q_SerializeAsString S q'))))"
    using rpc_stack.doneCallback_sends [OF assms(1,3) wr(2) assms(5,6) wr(3) assms(8) wr(1)] assms(10) q'(1) by blast
  moreover from this(1) have "TestMessageImpl_Get E Z L M T S request (dc_response dc) dc w =
      Inr (w\<lparr>cout := cout w @ [DebugString T request @ ''\<newline>''], user_msgs := (user_msgs w)(dc_response dc := None), ext := s\<rparr>)"
    using assms(3,4) q'(1) by (simp add: TestMessageImpl_Get_def)
  moreover have "ext ?w = ext w"
    by simp
  ultimately show ?thesis
    unfolding if_not_P [OF False] using q'(2) by metis
qed

theorem Get_reads_second_key_witness:
  "(\<exists>s. TestMessageImpl_Get chunked ref_adler32 ref_wire (rpc_vtable ref_wire) ref_test S_base (msg0\<lparr>tm_keys := [[1], [2]]\<rparr>) 20
        \<lparr>dc_channel = 30, dc_response = 20, dc_id = 7\<rparr> (test_world [] [] (RpcChannel_conn 3))
      = Inr ((test_world [] [] (RpcChannel_conn 3))\<lparr>cout := [''\<newline>''], user_msgs := Map.empty, ext := s\<rparr>)) \<and>
   TestMessageImpl_Get chunked ref_adler32 ref_wire (rpc_vtable ref_wire) ref_test S_base (msg0\<lparr>tm_keys := [[1]]\<rparr>) 20
        \<lparr>dc_channel = 30, dc_response = 20, dc_id = 7\<rparr> (test_world [] [] (RpcChannel_conn 3)) = Inl Out_of_bounds"
proof -
  let ?w = "test_world [] [] (RpcChannel_conn 3)" and ?dc = "\<lparr>dc_channel = 30, dc_response = 20, dc_id = 7\<rparr>"
  have w: "user_msgs ?w = [20 \<mapsto> msg0]" "channels ?w 30 = Some (RpcChannel_conn 3)" "cout ?w = []"
      "ch_conn (RpcChannel_conn 3) = Some 3"
    by (simp_all add: test_world_def RpcChannel_conn_def)
  have d: "DebugString ref_test (msg0\<lparr>tm_keys := ks\<rparr>) = []" "\<forall>q'. get_reply ref_test (msg0\<lparr>tm_keys := ks\<rparr>) msg0 = Inr q' \<longrightarrow>
      length (q_SerializeAsString S_base q') \<le> 67108000" for ks
    by (auto simp: ref_test_def msg0_def get_reply_def S_base_def split: if_splits)
  note get = Get_reads_second_key [where dc = ?dc and w = ?w and q = msg0 and S = S_base, simplified,
      OF stack.rpc_stack_axioms tm.test_messages_axioms _ w(2,4) test_world_buffers(2)]
  show ?thesis
    using get [of "msg0\<lparr>tm_keys := [[1], [2]]\<rparr>"] get [of "msg0\<lparr>tm_keys := [[1]]\<rparr>"] d by (auto simp: w)
qed

subsection \<open>The programs\<close>

text \<open>
  When the server program enters its event loop, its TCP server is in its invariant with four
  threads, and the table of the RPC server holds the service under its full name.
\<close>

lemma server_main_offers:
  assumes "event_lib V allocated" and "store_ok (store w)" and "obj_ok w" and "live_bevs w \<subseteq> allocated (ext w)"
    and "this \<noteq> NULL" and "srv \<noteq> NULL" and "table \<noteq> NULL" and "impl \<noteq> NULL"
    and init: "RpcServer_init V this srv table 4 ''127.0.0.1'' 8009 w = Inr w1"
  shows "\<exists>w2. server_main V dispatch S impl this srv table w = bind_ro (startRun V dispatch srv w2) (RpcServer_destroy V this) \<and>
     server_inv allocated srv (\<lambda>_. []) w2 \<and> offers w2 this = [svc_full_name S impl \<mapsto> impl] \<and>
     (\<exists>server. servers w2 srv = Some server \<and> thread_count server = 4 \<and> srv_connect_cb server = Some (On_connection this))"
proof -
  have w1: "server_inv allocated srv (\<lambda>_. []) w1" "has_table w1 this" "offers w1 this = Map.empty"
      "\<exists>server. servers w1 srv = Some server \<and> thread_count server = 4 \<and> srv_connect_cb server = Some (On_connection this)"
    using RpcServer_init_inv [OF assms(1-7) _ init] by simp_all
  have rs: "rs_server (the (rpc_servers w1 this)) = srv"
    using init by (auto simp: RpcServer_init_def setConnectionCallback_def upd_server_def bind_res_eq_Inr)
  obtain w2 where w2: "registerService S this impl w1 = Inr w2" "has_table w2 this"
      "offers w2 this = [svc_full_name S impl \<mapsto> impl]" "w2 = w1\<lparr>service_maps := service_maps w2\<rparr>"
    using registerService_eq [OF w1(2), of S impl] w1(3) assms(8) by auto
  have "server_inv allocated srv (\<lambda>_. []) w2" "servers w2 = servers w1" "rpc_servers w2 = rpc_servers w1"
    by (subst w2(4), rule server_inv_frame [OF w1(1)], simp_all) (subst w2(4), simp)+
  moreover from this have "start V dispatch this w2 = startRun V dispatch srv w2"
    using w2(2) rs by (auto simp: start_def has_table_def)
  ultimately show ?thesis
    using init w2 w1(4) by (auto simp: server_main_def)
qed

lemma RpcClient_init_state:
  assumes "store_ok (store w)" and "obj_ok w" and "this \<noteq> NULL" and "cl \<noteq> NULL"
    and "RpcClient_init V this cl ip port w = Inr w'"
  obtains c k ch where "client_inv cl w' c k" and "conn_bev k = NULL" and "cl_ip c = ip" and "cl_port c = port"
    and "cl_connect_cb c = Some (User_callback this)" and "cl_read_cb c = Some (Channel_onMessage ch)"
    and "rpc_clients w' this = Some \<lparr>rc_client = cl, rc_channel = \<lparr>sp_get = ch\<rparr>, rc_stub = ch\<rparr>"
    and "ch \<noteq> NULL" and "channels w' ch = Some RpcChannel_default" and "rpc_id w' = rpc_id w"
proof -
  obtain w1 where w1: "TcpClient_init V cl ip port w = Inr w1"
    using assms(5) by (auto simp: RpcClient_init_def bind_res_eq_Inr)
  obtain c k where c: "client_inv cl w1 c k" "conn_bev k = NULL" "cl_ip c = ip" "cl_port c = port"
    using client_init_inv [OF assms(1,2,4) w1] by blast
  have f: "rpc_id w1 = rpc_id w" "next_obj w1 \<noteq> NULL"
    by (subst client_init_frame [OF w1], simp)+
  have cl: "clients w1 cl = Some c"
    using c(1) by (simp add: client_inv_def)
  let ?c = "c\<lparr>cl_connect_cb := Some (User_callback this), cl_read_cb := Some (Channel_onMessage (next_obj w1))\<rparr>"
  have w': "w' = w1\<lparr>channels := (channels w1)(next_obj w1 \<mapsto> RpcChannel_default), next_obj := Suc (next_obj w1),
      rpc_clients := (rpc_clients w1)(this \<mapsto> \<lparr>rc_client = cl, rc_channel = \<lparr>sp_get = next_obj w1\<rparr>, rc_stub = next_obj w1\<rparr>),
      clients := (clients w1)(cl \<mapsto> ?c)\<rparr>"
    using assms(4,5) w1 cl
    by (simp add: RpcClient_init_def client_setConnectionCallback_def client_setReadCallback_def upd_client_def
        get_pointer_def Let_def)
  have "client_inv cl w' ?c k"
    using c(1) by (simp add: w' client_inv_def)
  then show ?thesis
    using that [of ?c k "next_obj w1"] c(2-4) f by (simp add: w')
qed

text \<open>The channel a client makes never learns its connection, so a call through it reads an unset pointer.\<close>

lemma onConnection_unset:
  assumes "this \<noteq> NULL" and "rpc_clients w this = Some \<lparr>rc_client = cl, rc_channel = \<lparr>sp_get = ch\<rparr>, rc_stub = ch\<rparr>"
    and "ch \<noteq> NULL" and "channels w ch = Some RpcChannel_default" and "sint (rpc_id w) \<noteq> 2 ^ 31 - 1"
  shows "RpcClient_onConnection E Z L M T S this conn w = Inl Uninitialised"
  using assms
  by (simp add: RpcClient_onConnection_def get_pointer_def setConnection_def RpcChannel_default_def CallMethod_def
      new_msg_def new_solved_def the_conn_def valid_types Let_def)

text \<open>
  C12. The client program never makes its call: from any start, when its constructor and its
  connection attempt succeed and the first event of its loop says that it is connected, the
  callback stores the connection nowhere, since \<open>setConnection\<close> assigns its parameter to
  itself, and \<open>CallMethod\<close> uses a connection that was never set, whatever would follow.
\<close>

theorem client_main_faults:
  assumes "store_ok (store w)" and "obj_ok w" and "this \<noteq> NULL" and "cl \<noteq> NULL" and "sint (rpc_id w) \<noteq> 2 ^ 31 - 1"
    and "RpcClient_init V this cl ''127.0.0.1'' 8009 w = Inr w0"
    and "clients w0 cl = Some c" and "lthreads w0 (cl_main_base c) = Some m" and "server_addr V ''127.0.0.1'' = Some addr"
    and "bufferevent_socket_new V (base m) (- 1) (ext w0) = (bev, s1)" and "bev \<noteq> NULL"
    and "bufferevent_socket_connect V bev addr 8009
       (bufferevent_enable V bev (bufferevent_setcb V bev (cl_conn c) s1)) = (r, s2)" and "0 \<le> r"
    and "is_connected events"
  shows "client_main V (\<lambda>b v. bind_ro (client_bufferEventCb V (rpc_invoker E Z L M (client_program V E Z L M T S))
       bev events (cl_conn c) v) (rest b)) this cl w = Some (Inl Uninitialised)"
proof -
  let ?I = "rpc_invoker E Z L M (client_program V E Z L M T S)"
  let ?loop = "\<lambda>b v. bind_ro (client_bufferEventCb V ?I bev events (cl_conn c) v) (rest b)"
  obtain c' k ch where "client_inv cl w0 c' k" "cl_ip c' = ''127.0.0.1''" "cl_port c' = 8009"
      "cl_connect_cb c' = Some (User_callback this)"
    and rc: "rpc_clients w0 this = Some \<lparr>rc_client = cl, rc_channel = \<lparr>sp_get = ch\<rparr>, rc_stub = ch\<rparr>"
    and ch: "ch \<noteq> NULL" "channels w0 ch = Some RpcChannel_default" "rpc_id w0 = rpc_id w"
    by (rule RpcClient_init_state [OF assms(1-4,6)]) (rule that)
  moreover from this(1) have "c' = c"
    using assms(7) by (simp add: client_inv_def)
  ultimately have c: "client_inv cl w0 c k" "cl_ip c = ''127.0.0.1''" "cl_port c = 8009"
      "cl_connect_cb c = Some (User_callback this)"
    by simp_all
  obtain w1 where w1: "client_startRun V ?loop cl w0 = ?loop (base m) w1" "client_inv cl w1 c (k\<lparr>conn_bev := bev\<rparr>)"
    and f: "w1 = w0\<lparr>ext := s2, store := store w1, live_bevs := insert bev (live_bevs w0)\<rparr>"
    by (rule client_started [OF c(1) assms(8) _ assms(10,11), of addr r s2 ?loop])
      (use assms(9,12,13) c(2,3) that in simp_all)
  obtain st where st: "client_bufferEventCb V ?I bev events (cl_conn c) w1 =
      call_data ?I (User_callback this) (cl_conn c) (w1\<lparr>store := st\<rparr>)"
    using client_connected_state [OF w1(2) assms(14), of V ?I bev] c(4) by auto
  have "rpc_clients w1 = rpc_clients w0" "channels w1 = channels w0" "rpc_id w1 = rpc_id w0"
    by (subst f, simp)+
  then have "call_data ?I (User_callback this) (cl_conn c) (w1\<lparr>store := st\<rparr>) = Some (Inl Uninitialised)"
    using onConnection_unset [OF assms(3) _ ch(1), of "w1\<lparr>store := st\<rparr>" cl] rc ch(2,3) assms(5)
    by (simp add: rpc_invoker_def client_program_def)
  then show ?thesis
    using assms(3,6) rc w1(1) st by (simp add: client_main_def connect_def)
qed

text \<open>The client program started on the reference event library.\<close>

definition cli_world :: "(ev_lib, test_msg) test_net" where
  "cli_world =
     \<lparr>ext = \<lparr>cl_bufs = [], ev_next = 1, ev_fd = 10, ev_pipes = (\<lambda>_. []), ev_io = (\<lambda>_. (0, 0))\<rparr>,
      store = empty_store, lthreads = Map.empty, live_bevs = {}, servers = Map.empty, clients = Map.empty, next_obj = 1,
      channels = Map.empty, rpc_id = 0, user_msgs = Map.empty, next_msg = 1, closures = {},
      service_maps = Map.empty, rpc_servers = Map.empty,
      cout = [], rpc_clients = Map.empty, solved_args = Map.empty, next_closure = 1\<rparr>"

definition cli_start :: "(ev_lib, test_msg) test_net" where
  "cli_start = (case RpcClient_init ref_event 60 50 ''127.0.0.1'' 8009 cli_world of Inr w \<Rightarrow> w | Inl e \<Rightarrow> cli_world)"

lemmas cli_init_simps = RpcClient_init_def TcpClient_init_def cli_world_def new_thread_def LibeventThread_init_def
  ConnQueue_init_def store_defs empty_store_def upd_thread_def upd_conn_def ref_event_def ev_new_def
  client_setConnectionCallback_def client_setReadCallback_def upd_client_def Let_def

lemma cli_start_init: "RpcClient_init ref_event 60 50 ''127.0.0.1'' 8009 cli_world = Inr cli_start"
  unfolding cli_start_def by (simp add: cli_init_simps)

lemma cli_start_state:
  "\<exists>c m. clients cli_start 50 = Some c \<and> cl_conn c = 1 \<and> lthreads cli_start (cl_main_base c) = Some m"
  "ev_next (ext cli_start) = 2"
  unfolding cli_start_def by (simp_all add: cli_init_simps)

theorem client_main_faults_witness:
  "client_main ref_event (\<lambda>b v. bind_ro (client_bufferEventCb ref_event
       (rpc_invoker chunked ref_adler32 ref_wire (rpc_vtable ref_wire)
         (client_program ref_event chunked ref_adler32 ref_wire (rpc_vtable ref_wire) ref_test S_base))
       2 BEV_EVENT_CONNECTED 1 v) (\<lambda>v. Some (Inr v))) 60 50 cli_world = Some (Inl Uninitialised)"
proof -
  obtain c m where c: "clients cli_start 50 = Some c" "cl_conn c = 1" "lthreads cli_start (cl_main_base c) = Some m"
    using cli_start_state(1) by blast
  obtain s1 where s1: "bufferevent_socket_new ref_event (base m) (- 1) (ext cli_start) = (2, s1)"
    by (simp add: ref_event_def cli_start_state)
  have w: "store_ok (store cli_world)" "obj_ok cli_world" "sint (rpc_id cli_world) \<noteq> 2 ^ 31 - 1"
    by (simp_all add: cli_world_def obj_ok_def)
  have e: "server_addr ref_event ''127.0.0.1'' = Some [127, 0, 0, 1]"
      "bufferevent_socket_connect ref_event 2 [127, 0, 0, 1] 8009
        (bufferevent_enable ref_event 2 (bufferevent_setcb ref_event 2 (cl_conn c) s1)) = (0, s1)"
    by (simp_all add: server_addr_def ref_event_def)
  show ?thesis
    using client_main_faults [OF w(1,2) _ _ w(3) cli_start_init c(1,3) e(1) s1 _ e(2) _ connected_flag,
        where rest = "\<lambda>b v. Some (Inr v)" and E = chunked and Z = ref_adler32 and L = ref_wire
        and M = "rpc_vtable ref_wire" and T = ref_test and S = S_base] c(2)
    by simp
qed

text \<open>
  A client whose call was answered prints the result and stops its loop, which releases its
  bufferevent; the destructor then releases it again.
\<close>

lemma solved_then_destroyed:
  assumes "client_inv cl w c k" and "conn_bev k \<noteq> NULL" and "conn_bev k \<in> live_bevs w"
    and "this \<noteq> NULL" and "rpc_clients w this = Some rc" and "rc_client rc = cl"
    and "get_pointer (rc_channel rc) \<noteq> NULL" and "channels w (get_pointer (rc_channel rc)) = Some ch" and "outstandings ch = []"
    and "resp \<noteq> NULL" and "user_msgs w resp = Some q"
  shows "\<exists>w'. solved V T this resp w = Inr w' \<and>
     cout w' = cout w @ [''solved:'' @ ''\<newline>'' @ takeWhile (\<lambda>c. c \<noteq> CHR 0x00) (DebugString T q)] \<and>
     RpcClient_destroy V this w' = Some (Inl Double_free)"
proof -
  obtain th where th: "cl \<noteq> NULL" "clients w cl = Some c" "cl_conn c \<noteq> NULL" "cells (store w) (cl_conn c) = Some k"
      "cl_main_base c \<noteq> NULL" "lthreads w (cl_main_base c) = Some th"
    by (rule client_invE [OF assms(1)])
  then show ?thesis
    using assms(2-11)
    by (simp add: solved_def client_quit_def free_bev_def RpcClient_destroy_def RpcChannel_destroy_def TcpClient_destroy_def)
qed

end
