(* ===== verification/Compiler_Id.thy ===== *)
theory Compiler_Id
  imports Prelude "HOL-Library.Signed_Division"
begin

text \<open>
  The compiler probes that CMake ran for this build and that are checked in under
  \<open>build/CMakeFiles/3.10.2\<close>: \<open>CMakeCCompilerId.c\<close> and \<open>CMakeCXXCompilerId.cpp\<close>. A probe is a
  program whose text is chosen by the preprocessor from the compiler's predefined macros; it
  carries strings \<open>INFO:compiler[...]\<close>, \<open>INFO:compiler_version[...]\<close>, \<open>INFO:platform[...]\<close>,
  which are read from its binary to configure the build.

  The model takes the predefined macros as an environment and computes what the preprocessor
  and the compiler make of the file: a diagnostic, or the strings in memory with their
  terminators. This theory holds what the two probes have in common: the environment, the digit
  macros \<open>DEC\<close> and \<open>HEX\<close>, the branch of each compiler, the platform, the architecture, and the
  construction of the strings.
\<close>

subsection \<open>Preprocessor environments\<close>

text \<open>A predefined macro expands to an integer constant, which has a spelling and a value.\<close>

record macro =
  spelling :: string
  mvalue :: int

type_synonym macros = "string \<rightharpoonup> macro"

text \<open>Why a probe does not compile: an \<open>#error\<close> directive, or a name that no macro replaces.\<close>

datatype cerror = Error_directive string | Undeclared string

type_synonym ctext = "cerror + string" \<comment> \<open>the characters an expansion stands for\<close>

definition defined :: "macros \<Rightarrow> string \<Rightarrow> bool" where
  "defined m x \<longleftrightarrow> m x \<noteq> None"

text \<open>The value of a name in an \<open>#if\<close> condition, where an undefined name is zero.\<close>

definition pp :: "macros \<Rightarrow> string \<Rightarrow> int" where
  "pp m x = (case m x of None \<Rightarrow> 0 | Some k \<Rightarrow> mvalue k)"

subsection \<open>Digits\<close>

definition digit_char :: "int \<Rightarrow> char" where
  "digit_char d = char_of (48 + d)" \<comment> \<open>\<open>'0' + d\<close> in a \<open>char\<close> array\<close>

definition DEC :: "int \<Rightarrow> string" where
  "DEC n = map digit_char
     [(n sdiv 10000000) smod 10,
      (n sdiv 1000000) smod 10,
      (n sdiv 100000) smod 10,
      (n sdiv 10000) smod 10,
      (n sdiv 1000) smod 10,
      (n sdiv 100) smod 10,
      (n sdiv 10) smod 10,
      n smod 10]"

definition HEX :: "int \<Rightarrow> string" where
  "HEX n = map digit_char
     [drop_bit 28 n AND 0xF,
      drop_bit 24 n AND 0xF,
      drop_bit 20 n AND 0xF,
      drop_bit 16 n AND 0xF,
      drop_bit 12 n AND 0xF,
      drop_bit 8 n AND 0xF,
      drop_bit 4 n AND 0xF,
      n AND 0xF]"

text \<open>\<open>DEC(f(x))\<close> and \<open>HEX(f(x))\<close> for a macro \<open>x\<close>: an undefined one is left in the text as an undeclared name.\<close>

definition dec :: "macros \<Rightarrow> string \<Rightarrow> (int \<Rightarrow> int) \<Rightarrow> ctext option" where
  "dec m x f = Some (case m x of None \<Rightarrow> Inl (Undeclared x) | Some k \<Rightarrow> Inr (DEC (f (mvalue k))))"

definition hex :: "macros \<Rightarrow> string \<Rightarrow> (int \<Rightarrow> int) \<Rightarrow> ctext option" where
  "hex m x f = Some (case m x of None \<Rightarrow> Inl (Undeclared x) | Some k \<Rightarrow> Inr (HEX (f (mvalue k))))"

subsection \<open>The macros a probe defines\<close>

record id_macros =
  COMPILER_ID :: string
  SIMULATE_ID :: "string option"
  COMPILER_VERSION_MAJOR :: "ctext option"
  COMPILER_VERSION_MINOR :: "ctext option"
  COMPILER_VERSION_PATCH :: "ctext option"
  COMPILER_VERSION_TWEAK :: "ctext option"
  COMPILER_VERSION_INTERNAL :: "ctext option"
  SIMULATE_VERSION_MAJOR :: "ctext option"
  SIMULATE_VERSION_MINOR :: "ctext option"
  SIMULATE_VERSION_PATCH :: "ctext option"
  SIMULATE_VERSION_TWEAK :: "ctext option"

text \<open>Only the name is defined.\<close>

definition named :: "string \<Rightarrow> id_macros" where
  "named s = \<lparr>COMPILER_ID = s, SIMULATE_ID = None, COMPILER_VERSION_MAJOR = None,
     COMPILER_VERSION_MINOR = None, COMPILER_VERSION_PATCH = None, COMPILER_VERSION_TWEAK = None,
     COMPILER_VERSION_INTERNAL = None, SIMULATE_VERSION_MAJOR = None, SIMULATE_VERSION_MINOR = None,
     SIMULATE_VERSION_PATCH = None, SIMULATE_VERSION_TWEAK = None\<rparr>"

text \<open>The name, major and minor number, and the patch number where one is defined.\<close>

definition versioned :: "string \<Rightarrow> ctext option \<Rightarrow> ctext option \<Rightarrow> ctext option \<Rightarrow> id_macros" where
  "versioned s ma mi pa = (named s)\<lparr>COMPILER_VERSION_MAJOR := ma, COMPILER_VERSION_MINOR := mi,
     COMPILER_VERSION_PATCH := pa\<rparr>"

text \<open>A compiler that stands in for Microsoft's says so with \<open>_MSC_VER\<close> = VVRR.\<close>

definition simulate_msvc :: "macros \<Rightarrow> id_macros \<Rightarrow> id_macros" where
  "simulate_msvc m d = (if defined m ''_MSC_VER''
     then d\<lparr>SIMULATE_ID := Some ''MSVC'',
       SIMULATE_VERSION_MAJOR := dec m ''_MSC_VER'' (\<lambda>v. v sdiv 100),
       SIMULATE_VERSION_MINOR := dec m ''_MSC_VER'' (\<lambda>v. v smod 100)\<rparr>
     else d)"

subsection \<open>One branch per compiler\<close>

definition Intel :: "macros \<Rightarrow> id_macros" where
  "Intel m = (let d = simulate_msvc m (versioned ''Intel''
       (dec m ''__INTEL_COMPILER'' (\<lambda>v. v sdiv 100))
       (dec m ''__INTEL_COMPILER'' (\<lambda>v. v sdiv 10 smod 10))
       (if defined m ''__INTEL_COMPILER_UPDATE''
        then dec m ''__INTEL_COMPILER_UPDATE'' (\<lambda>v. v)
        else dec m ''__INTEL_COMPILER'' (\<lambda>v. v smod 10)))
     in if defined m ''__INTEL_COMPILER_BUILD_DATE''
        then d\<lparr>COMPILER_VERSION_TWEAK := dec m ''__INTEL_COMPILER_BUILD_DATE'' (\<lambda>v. v)\<rparr>
        else d)"

definition PathScale :: "macros \<Rightarrow> id_macros" where
  "PathScale m = versioned ''PathScale''
     (dec m ''__PATHCC__'' (\<lambda>v. v))
     (dec m ''__PATHCC_MINOR__'' (\<lambda>v. v))
     (if defined m ''__PATHCC_PATCHLEVEL__'' then dec m ''__PATHCC_PATCHLEVEL__'' (\<lambda>v. v) else None)"

definition Embarcadero :: "macros \<Rightarrow> id_macros" where
  "Embarcadero m = versioned ''Embarcadero''
     (hex m ''__CODEGEARC_VERSION__'' (\<lambda>v. drop_bit 24 v AND 0x00FF))
     (hex m ''__CODEGEARC_VERSION__'' (\<lambda>v. drop_bit 16 v AND 0x00FF))
     (dec m ''__CODEGEARC_VERSION__'' (\<lambda>v. v AND 0xFFFF))"

definition Borland :: "macros \<Rightarrow> id_macros" where
  "Borland m = versioned ''Borland''
     (hex m ''__BORLANDC__'' (\<lambda>v. drop_bit 8 v))
     (hex m ''__BORLANDC__'' (\<lambda>v. v AND 0xFF))
     None"

definition Watcom :: "macros \<Rightarrow> id_macros" where
  "Watcom m = versioned ''Watcom''
     (dec m ''__WATCOMC__'' (\<lambda>v. v sdiv 100))
     (dec m ''__WATCOMC__'' (\<lambda>v. (v sdiv 10) smod 10))
     (if pp m ''__WATCOMC__'' smod 10 > 0 then dec m ''__WATCOMC__'' (\<lambda>v. v smod 10) else None)"

definition OpenWatcom :: "macros \<Rightarrow> id_macros" where
  "OpenWatcom m = versioned ''OpenWatcom''
     (dec m ''__WATCOMC__'' (\<lambda>v. (v - 1100) sdiv 100))
     (dec m ''__WATCOMC__'' (\<lambda>v. (v sdiv 10) smod 10))
     (if pp m ''__WATCOMC__'' smod 10 > 0 then dec m ''__WATCOMC__'' (\<lambda>v. v smod 10) else None)"

text \<open>The macros of the next vendors differ between C (\<open>__SUNPRO_C\<close>) and C++ (\<open>__SUNPRO_CC\<close>): the name is an argument.\<close>

definition SunPro :: "string \<Rightarrow> macros \<Rightarrow> id_macros" where
  "SunPro x m = (if pp m x \<ge> 0x5100
     then versioned ''SunPro''
       (hex m x (\<lambda>v. drop_bit 12 v)) (hex m x (\<lambda>v. drop_bit 4 v AND 0xFF)) (hex m x (\<lambda>v. v AND 0xF))
     else versioned ''SunPro''
       (hex m x (\<lambda>v. drop_bit 8 v)) (hex m x (\<lambda>v. drop_bit 4 v AND 0xF)) (hex m x (\<lambda>v. v AND 0xF)))"

definition HP :: "string \<Rightarrow> macros \<Rightarrow> id_macros" where
  "HP x m = versioned ''HP''
     (dec m x (\<lambda>v. v sdiv 10000)) (dec m x (\<lambda>v. v sdiv 100 smod 100)) (dec m x (\<lambda>v. v smod 100))"

definition Compaq :: "string \<Rightarrow> macros \<Rightarrow> id_macros" where
  "Compaq x m = versioned ''Compaq''
     (dec m x (\<lambda>v. v sdiv 10000000)) (dec m x (\<lambda>v. v sdiv 100000 smod 100)) (dec m x (\<lambda>v. v smod 10000))"

text \<open>VRP: one decimal digit each for revision and patch.\<close>

definition VRP :: "string \<Rightarrow> string \<Rightarrow> macros \<Rightarrow> id_macros" where
  "VRP s x m = versioned s
     (dec m x (\<lambda>v. v sdiv 100)) (dec m x (\<lambda>v. v sdiv 10 smod 10)) (dec m x (\<lambda>v. v smod 10))"

definition PGI :: "macros \<Rightarrow> id_macros" where
  "PGI m = versioned ''PGI''
     (dec m ''__PGIC__'' (\<lambda>v. v))
     (dec m ''__PGIC_MINOR__'' (\<lambda>v. v))
     (if defined m ''__PGIC_PATCHLEVEL__'' then dec m ''__PGIC_PATCHLEVEL__'' (\<lambda>v. v) else None)"

definition Cray :: "macros \<Rightarrow> id_macros" where
  "Cray m = versioned ''Cray'' (dec m ''_RELEASE_MAJOR'' (\<lambda>v. v)) (dec m ''_RELEASE_MINOR'' (\<lambda>v. v)) None"

definition TI :: "macros \<Rightarrow> id_macros" where
  "TI m = versioned ''TI''
     (dec m ''__TI_COMPILER_VERSION__'' (\<lambda>v. v sdiv 1000000))
     (dec m ''__TI_COMPILER_VERSION__'' (\<lambda>v. v sdiv 1000 smod 1000))
     (dec m ''__TI_COMPILER_VERSION__'' (\<lambda>v. v smod 1000))"

definition Clang :: "macros \<Rightarrow> id_macros" where
  "Clang m = simulate_msvc m (versioned ''Clang''
     (dec m ''__clang_major__'' (\<lambda>v. v))
     (dec m ''__clang_minor__'' (\<lambda>v. v))
     (dec m ''__clang_patchlevel__'' (\<lambda>v. v)))"

definition AppleClang :: "macros \<Rightarrow> id_macros" where
  "AppleClang m = (simulate_msvc m (versioned ''AppleClang''
     (dec m ''__clang_major__'' (\<lambda>v. v))
     (dec m ''__clang_minor__'' (\<lambda>v. v))
     (dec m ''__clang_patchlevel__'' (\<lambda>v. v))))
     \<lparr>COMPILER_VERSION_TWEAK := dec m ''__apple_build_version__'' (\<lambda>v. v)\<rparr>"

text \<open>The macro with GNU's major version is an argument: C++ falls back to \<open>__GNUG__\<close>.\<close>

definition GNU :: "string \<Rightarrow> macros \<Rightarrow> id_macros" where
  "GNU x m = versioned ''GNU''
     (dec m x (\<lambda>v. v))
     (if defined m ''__GNUC_MINOR__'' then dec m ''__GNUC_MINOR__'' (\<lambda>v. v) else None)
     (if defined m ''__GNUC_PATCHLEVEL__'' then dec m ''__GNUC_PATCHLEVEL__'' (\<lambda>v. v) else None)"

definition MSVC :: "macros \<Rightarrow> id_macros" where
  "MSVC m = (let d = versioned ''MSVC''
       (dec m ''_MSC_VER'' (\<lambda>v. v sdiv 100))
       (dec m ''_MSC_VER'' (\<lambda>v. v smod 100))
       (if defined m ''_MSC_FULL_VER''
        then if pp m ''_MSC_VER'' \<ge> 1400
             then dec m ''_MSC_FULL_VER'' (\<lambda>v. v smod 100000)
             else dec m ''_MSC_FULL_VER'' (\<lambda>v. v smod 10000)
        else None)
     in if defined m ''_MSC_BUILD'' then d\<lparr>COMPILER_VERSION_TWEAK := dec m ''_MSC_BUILD'' (\<lambda>v. v)\<rparr> else d)"

definition ADSP :: "macros \<Rightarrow> id_macros" where
  "ADSP m = (if defined m ''__VISUALDSPVERSION__''
     then versioned ''ADSP''
       (hex m ''__VISUALDSPVERSION__'' (\<lambda>v. drop_bit 24 v))
       (hex m ''__VISUALDSPVERSION__'' (\<lambda>v. drop_bit 16 v AND 0xFF))
       (hex m ''__VISUALDSPVERSION__'' (\<lambda>v. drop_bit 8 v AND 0xFF))
     else named ''ADSP'')"

definition IAR :: "macros \<Rightarrow> id_macros" where
  "IAR m = (if defined m ''__VER__''
     then (versioned ''IAR''
       (dec m ''__VER__'' (\<lambda>v. v sdiv 1000000))
       (dec m ''__VER__'' (\<lambda>v. (v sdiv 1000) smod 1000))
       (dec m ''__VER__'' (\<lambda>v. v smod 1000)))
       \<lparr>COMPILER_VERSION_INTERNAL := dec m ''__IAR_SYSTEMS_ICC__'' (\<lambda>v. v)\<rparr>
     else named ''IAR'')"

definition ARMCC :: "macros \<Rightarrow> id_macros" where
  "ARMCC m = (if pp m ''__ARMCC_VERSION'' \<ge> 1000000
     then versioned ''ARMCC''
       (dec m ''__ARMCC_VERSION'' (\<lambda>v. v sdiv 1000000))
       (dec m ''__ARMCC_VERSION'' (\<lambda>v. v sdiv 10000 smod 100))
       (dec m ''__ARMCC_VERSION'' (\<lambda>v. v smod 10000))
     else versioned ''ARMCC''
       (dec m ''__ARMCC_VERSION'' (\<lambda>v. v sdiv 100000))
       (dec m ''__ARMCC_VERSION'' (\<lambda>v. v sdiv 10000 smod 10))
       (dec m ''__ARMCC_VERSION'' (\<lambda>v. v smod 10000)))"

definition SDCC :: "macros \<Rightarrow> id_macros" where
  "SDCC m = (if defined m ''__SDCC_VERSION_MAJOR''
     then versioned ''SDCC''
       (dec m ''__SDCC_VERSION_MAJOR'' (\<lambda>v. v))
       (dec m ''__SDCC_VERSION_MINOR'' (\<lambda>v. v))
       (dec m ''__SDCC_VERSION_PATCH'' (\<lambda>v. v))
     else VRP ''SDCC'' ''SDCC'' m)"

definition MIPSpro :: "macros \<Rightarrow> id_macros" where
  "MIPSpro m = (if defined m ''_SGI_COMPILER_VERSION''
     then VRP ''MIPSpro'' ''_SGI_COMPILER_VERSION'' m
     else VRP ''MIPSpro'' ''_COMPILER_VERSION'' m)"

text \<open>The branches of a cascade: the first whose condition holds.\<close>

fun first_match :: "(bool \<times> 'a) list \<Rightarrow> 'a \<Rightarrow> 'a" where
  "first_match [] d = d"
| "first_match ((b, x) # bs) d = (if b then x else first_match bs d)"

subsection \<open>Platform and architecture\<close>

definition any_defined :: "macros \<Rightarrow> string list \<Rightarrow> bool" where
  "any_defined m xs \<longleftrightarrow> (\<exists>x \<in> set xs. defined m x)"

text \<open>An empty \<open>PLATFORM_ID\<close> vanishes in the concatenation of literals, as \<open>\"\"\<close> does.\<close>

definition PLATFORM_ID :: "macros \<Rightarrow> string" where
  "PLATFORM_ID m = first_match
     [(any_defined m [''__linux'', ''__linux__'', ''linux''], ''Linux''),
      (any_defined m [''__CYGWIN__''], ''Cygwin''),
      (any_defined m [''__MINGW32__''], ''MinGW''),
      (any_defined m [''__APPLE__''], ''Darwin''),
      (any_defined m [''_WIN32'', ''__WIN32__'', ''WIN32''], ''Windows''),
      (any_defined m [''__FreeBSD__'', ''__FreeBSD''], ''FreeBSD''),
      (any_defined m [''__NetBSD__'', ''__NetBSD''], ''NetBSD''),
      (any_defined m [''__OpenBSD__'', ''__OPENBSD''], ''OpenBSD''),
      (any_defined m [''__sun'', ''sun''], ''SunOS''),
      (any_defined m [''_AIX'', ''__AIX'', ''__AIX__'', ''__aix'', ''__aix__''], ''AIX''),
      (any_defined m [''__sgi'', ''__sgi__'', ''_SGI''], ''IRIX''),
      (any_defined m [''__hpux'', ''__hpux__''], ''HP-UX''),
      (any_defined m [''__HAIKU__''], ''Haiku''),
      (any_defined m [''__BeOS'', ''__BEOS__'', ''_BEOS''], ''BeOS''),
      (any_defined m [''__QNX__'', ''__QNXNTO__''], ''QNX''),
      (any_defined m [''__tru64'', ''_tru64'', ''__TRU64__''], ''Tru64''),
      (any_defined m [''__riscos'', ''__riscos__''], ''RISCos''),
      (any_defined m [''__sinix'', ''__sinix__'', ''__SINIX__''], ''SINIX''),
      (any_defined m [''__UNIX_SV__''], ''UNIX_SV''),
      (any_defined m [''__bsdos__''], ''BSDOS''),
      (any_defined m [''_MPRAS'', ''MPRAS''], ''MP-RAS''),
      (any_defined m [''__osf'', ''__osf__''], ''OSF1''),
      (any_defined m [''_SCO_SV'', ''SCO_SV'', ''sco_sv''], ''SCO_SV''),
      (any_defined m [''__ultrix'', ''__ultrix__'', ''_ULTRIX''], ''ULTRIX''),
      (any_defined m [''__XENIX__'', ''_XENIX'', ''XENIX''], ''Xenix''),
      (defined m ''__WATCOMC__'', first_match
        [(defined m ''__LINUX__'', ''Linux''),
         (defined m ''__DOS__'', ''DOS''),
         (defined m ''__OS2__'', ''OS2''),
         (defined m ''__WINDOWS__'', ''Windows3x'')] '''')] ''''"

definition STRINGIFY :: "macros \<Rightarrow> string \<Rightarrow> string" where
  "STRINGIFY m x = (case m x of None \<Rightarrow> x | Some k \<Rightarrow> spelling k)"

definition ARCHITECTURE_ID :: "macros \<Rightarrow> string" where
  "ARCHITECTURE_ID m = first_match
     [(defined m ''_WIN32'' \<and> defined m ''_MSC_VER'', first_match
        [(defined m ''_M_IA64'', ''IA64''),
         (defined m ''_M_X64'' \<or> defined m ''_M_AMD64'', ''x64''),
         (defined m ''_M_IX86'', ''X86''),
         (defined m ''_M_ARM64'', ''ARM64''),
         (defined m ''_M_ARM'',
            if pp m ''_M_ARM'' = 4 then ''ARMV4I''
            else if pp m ''_M_ARM'' = 5 then ''ARMV5I''
            else ''ARMV'' @ STRINGIFY m ''_M_ARM''),
         (defined m ''_M_MIPS'', ''MIPS''),
         (defined m ''_M_SH'', ''SHx'')] ''''),
      (defined m ''__WATCOMC__'', first_match
        [(defined m ''_M_I86'', ''I86''),
         (defined m ''_M_IX86'', ''X86'')] ''''),
      (defined m ''__IAR_SYSTEMS_ICC__'' \<or> defined m ''__IAR_SYSTEMS_ICC'', first_match
        [(defined m ''__ICCARM__'', ''ARM''),
         (defined m ''__ICCAVR__'', ''AVR'')] '''')] ''''"

subsection \<open>The strings in memory\<close>

abbreviation NUL :: char where
  "NUL \<equiv> CHR 0x00"

text \<open>\<open>\"INFO\" \":\" \"key[\" value \"]\"\<close> with its terminator.\<close>

definition info :: "string \<Rightarrow> string \<Rightarrow> string" where
  "info key v = ''INFO:'' @ key @ ''['' @ v @ '']'' @ [NUL]"

text \<open>The further components of a version: each only when the ones before it are defined.\<close>

fun dotted :: "ctext option list \<Rightarrow> ctext" where
  "dotted [] = Inr ''''"
| "dotted (None # cs) = Inr ''''"
| "dotted (Some c # cs) = bind_res c (\<lambda>s. bind_res (dotted cs) (\<lambda>t. Inr (''.'' @ s @ t)))"

fun array :: "string \<Rightarrow> ctext option \<Rightarrow> ctext option list \<Rightarrow> cerror + string option" where
  "array key None cs = Inr None"
| "array key (Some c) cs =
     bind_res c (\<lambda>s. bind_res (dotted cs) (\<lambda>t. Inr (Some (info key (s @ t)))))"

definition info_version :: "id_macros \<Rightarrow> cerror + string option" where
  "info_version d = array ''compiler_version'' (COMPILER_VERSION_MAJOR d)
     [COMPILER_VERSION_MINOR d, COMPILER_VERSION_PATCH d, COMPILER_VERSION_TWEAK d]"

definition info_version_internal :: "id_macros \<Rightarrow> cerror + string option" where
  "info_version_internal d = array ''compiler_version_internal'' (COMPILER_VERSION_INTERNAL d) []"

definition info_simulate_version :: "id_macros \<Rightarrow> cerror + string option" where
  "info_simulate_version d = array ''simulate_version'' (SIMULATE_VERSION_MAJOR d)
     [SIMULATE_VERSION_MINOR d, SIMULATE_VERSION_PATCH d, SIMULATE_VERSION_TWEAK d]"

text \<open>What the compiler makes of a probe: the strings that are defined.\<close>

record probe =
  p_compiler :: string
  p_simulate :: "string option"
  p_qnxnto :: "string option"
  p_cray :: "string option"
  p_version :: "string option"
  p_version_internal :: "string option"
  p_simulate_version :: "string option"
  p_platform :: string
  p_arch :: string
  p_dialect :: string

definition globals :: "macros \<Rightarrow> id_macros \<Rightarrow> string \<Rightarrow> cerror + probe" where
  "globals m d dialect =
     bind_res (info_version d) (\<lambda>v.
     bind_res (info_version_internal d) (\<lambda>vi.
     bind_res (info_simulate_version d) (\<lambda>sv.
       Inr \<lparr>p_compiler = info ''compiler'' (COMPILER_ID d),
         p_simulate = map_option (info ''simulate'') (SIMULATE_ID d),
         p_qnxnto = (if defined m ''__QNXNTO__'' then Some (info ''qnxnto'' '''') else None),
         p_cray = (if any_defined m [''__CRAYXE'', ''__CRAYXC'']
           then Some (info ''compiler_wrapper'' ''CrayPrgEnv'') else None),
         p_version = v, p_version_internal = vi, p_simulate_version = sv,
         p_platform = info ''platform'' (PLATFORM_ID m), p_arch = info ''arch'' (ARCHITECTURE_ID m),
         p_dialect = info ''dialect_default'' dialect\<rparr>)))"

text \<open>\<open>require += s[argc]\<close>: reading outside the array is undefined behaviour.\<close>

definition char_value :: "char \<Rightarrow> int" where
  "char_value c = (let n = of_char c in if n < 128 then n else n - 256)" \<comment> \<open>a signed \<open>char\<close>\<close>

fun require_all :: "string list \<Rightarrow> int \<Rightarrow> int \<Rightarrow> int res" where
  "require_all [] argc r = Inr r"
| "require_all (s # ss) argc r =
     (if 0 \<le> argc \<and> argc < int (length s) then require_all ss argc (r + char_value (s ! nat argc))
      else Inl Out_of_bounds)"

end
