(* ===== verification/Compiler_Id_C.thy ===== *)
theory Compiler_Id_C
  imports Compiler_Id
begin

text \<open>
  The C probe, \<open>CMakeCCompilerId.c\<close>: which branch the preprocessor takes, the language dialect,
  and \<open>main\<close>, which touches the strings so that a linker keeps them. The K\&R spelling of
  \<open>main\<close> and the redefinition of \<open>const\<close> under \<open>__CLASSIC_C__\<close> do not change what it does.
\<close>

definition C_branches_1 :: "macros \<Rightarrow> (bool \<times> id_macros) list" where
  "C_branches_1 m =
     [(defined m ''__INTEL_COMPILER'' \<or> defined m ''__ICC'', Intel m),
      (defined m ''__PATHCC__'', PathScale m),
      (defined m ''__BORLANDC__'' \<and> defined m ''__CODEGEARC_VERSION__'', Embarcadero m),
      (defined m ''__BORLANDC__'', Borland m),
      (defined m ''__WATCOMC__'' \<and> pp m ''__WATCOMC__'' < 1200, Watcom m),
      (defined m ''__WATCOMC__'', OpenWatcom m),
      (defined m ''__SUNPRO_C'', SunPro ''__SUNPRO_C'' m),
      (defined m ''__HP_cc'', HP ''__HP_cc'' m),
      (defined m ''__DECC'', Compaq ''__DECC_VER'' m),
      (defined m ''__IBMC__'' \<and> defined m ''__COMPILER_VER__'', VRP ''zOS'' ''__IBMC__'' m),
      (defined m ''__IBMC__'' \<and> \<not> defined m ''__COMPILER_VER__'' \<and> pp m ''__IBMC__'' \<ge> 800,
         VRP ''XL'' ''__IBMC__'' m),
      (defined m ''__IBMC__'' \<and> \<not> defined m ''__COMPILER_VER__'' \<and> pp m ''__IBMC__'' < 800,
         VRP ''VisualAge'' ''__IBMC__'' m),
      (defined m ''__PGI'', PGI m),
      (defined m ''_CRAYC'', Cray m),
      (defined m ''__TI_COMPILER_VERSION__'', TI m),
      (any_defined m [''__FUJITSU'', ''__FCC_VERSION'', ''__fcc_version''], named ''Fujitsu'')]"

definition C_branches_2 :: "macros \<Rightarrow> (bool \<times> id_macros) list" where
  "C_branches_2 m =
     [(defined m ''__TINYC__'', named ''TinyCC''),
      (defined m ''__BCC__'', named ''Bruce''),
      (defined m ''__SCO_VERSION__'', named ''SCO''),
      (defined m ''__clang__'' \<and> defined m ''__apple_build_version__'', AppleClang m),
      (defined m ''__clang__'', Clang m),
      (defined m ''__GNUC__'', GNU ''__GNUC__'' m),
      (defined m ''_MSC_VER'', MSVC m),
      (any_defined m [''__VISUALDSPVERSION__'', ''__ADSPBLACKFIN__'', ''__ADSPTS__'', ''__ADSP21000__''], ADSP m),
      (defined m ''__IAR_SYSTEMS_ICC__'' \<or> defined m ''__IAR_SYSTEMS_ICC'', IAR m),
      (defined m ''__ARMCC_VERSION'', ARMCC m),
      (defined m ''__SDCC_VERSION_MAJOR'' \<or> defined m ''SDCC'', SDCC m),
      (defined m ''_SGI_COMPILER_VERSION'' \<or> defined m ''_COMPILER_VERSION'', MIPSpro m),
      (defined m ''__sgi'', named ''MIPSpro''),
      (defined m ''__hpux'' \<or> defined m ''__hpua'', named ''HP'')]"

definition C_id :: "macros \<Rightarrow> id_macros" where
  "C_id m = first_match (C_branches_1 m @ C_branches_2 m) (named '''')"

definition C_DIALECT :: "macros \<Rightarrow> string" where
  "C_DIALECT m =
     (if \<not> defined m ''__STDC__'' then
        if defined m ''_MSC_VER'' \<and> \<not> defined m ''__clang__'' then ''90'' else ''''
      else if pp m ''__STDC_VERSION__'' \<ge> 201000 then ''11''
      else if pp m ''__STDC_VERSION__'' \<ge> 199901 then ''99''
      else ''90'')"

definition C_probe :: "macros \<Rightarrow> cerror + probe" where
  "C_probe m = (if defined m ''__cplusplus''
     then Inl (Error_directive ''A C++ compiler has been selected for C.'')
     else globals m (C_id m) (C_DIALECT m))"

text \<open>The strings in the order in which \<open>main\<close> reads them.\<close>

definition C_required :: "probe \<Rightarrow> string list" where
  "C_required p = [p_compiler p, p_platform p, p_arch p] @
     List.map_filter id [p_version p, p_version_internal p, p_simulate p, p_simulate_version p, p_cray p] @
     [p_dialect p]"

text \<open>With \<open>ID_VOID_MAIN\<close> (defined for \<open>__18CXX\<close>) the program does nothing and returns no value.\<close>

definition C_main :: "macros \<Rightarrow> probe \<Rightarrow> int \<Rightarrow> int option res" where
  "C_main m p argc = (if defined m ''__18CXX'' then Inr None
     else bind_res (require_all (C_required p) argc 0) (\<lambda>r. Inr (Some r)))"

end
