(* ===== verification/Compiler_Id_CXX.thy ===== *)
theory Compiler_Id_CXX
  imports Compiler_Id
begin

text \<open>
  The C++ probe, \<open>CMakeCXXCompilerId.cpp\<close>. Its branches differ from those of the C probe in the
  vendors' C++ macros, in Comeau's compiler, in the compilers for C only that it lacks, and in
  GNU's \<open>__GNUG__\<close>; its \<open>main\<close> does not read the architecture.
\<close>

definition Comeau :: "macros \<Rightarrow> id_macros" where
  "Comeau m = versioned ''Comeau''
     (dec m ''__COMO_VERSION__'' (\<lambda>v. v sdiv 100)) (dec m ''__COMO_VERSION__'' (\<lambda>v. v smod 100)) None"

definition CXX_branches_1 :: "macros \<Rightarrow> (bool \<times> id_macros) list" where
  "CXX_branches_1 m =
     [(defined m ''__COMO__'', Comeau m),
      (defined m ''__INTEL_COMPILER'' \<or> defined m ''__ICC'', Intel m),
      (defined m ''__PATHCC__'', PathScale m),
      (defined m ''__BORLANDC__'' \<and> defined m ''__CODEGEARC_VERSION__'', Embarcadero m),
      (defined m ''__BORLANDC__'', Borland m),
      (defined m ''__WATCOMC__'' \<and> pp m ''__WATCOMC__'' < 1200, Watcom m),
      (defined m ''__WATCOMC__'', OpenWatcom m),
      (defined m ''__SUNPRO_CC'', SunPro ''__SUNPRO_CC'' m),
      (defined m ''__HP_aCC'', HP ''__HP_aCC'' m),
      (defined m ''__DECCXX'', Compaq ''__DECCXX_VER'' m),
      (defined m ''__IBMCPP__'' \<and> defined m ''__COMPILER_VER__'', VRP ''zOS'' ''__IBMCPP__'' m),
      (defined m ''__IBMCPP__'' \<and> \<not> defined m ''__COMPILER_VER__'' \<and> pp m ''__IBMCPP__'' \<ge> 800,
         VRP ''XL'' ''__IBMCPP__'' m),
      (defined m ''__IBMCPP__'' \<and> \<not> defined m ''__COMPILER_VER__'' \<and> pp m ''__IBMCPP__'' < 800,
         VRP ''VisualAge'' ''__IBMCPP__'' m),
      (defined m ''__PGI'', PGI m),
      (defined m ''_CRAYC'', Cray m),
      (defined m ''__TI_COMPILER_VERSION__'', TI m),
      (any_defined m [''__FUJITSU'', ''__FCC_VERSION'', ''__fcc_version''], named ''Fujitsu'')]"

definition CXX_branches_2 :: "macros \<Rightarrow> (bool \<times> id_macros) list" where
  "CXX_branches_2 m =
     [(defined m ''__SCO_VERSION__'', named ''SCO''),
      (defined m ''__clang__'' \<and> defined m ''__apple_build_version__'', AppleClang m),
      (defined m ''__clang__'', Clang m),
      (defined m ''__GNUC__'' \<or> defined m ''__GNUG__'',
         GNU (if defined m ''__GNUC__'' then ''__GNUC__'' else ''__GNUG__'') m),
      (defined m ''_MSC_VER'', MSVC m),
      (any_defined m [''__VISUALDSPVERSION__'', ''__ADSPBLACKFIN__'', ''__ADSPTS__'', ''__ADSP21000__''], ADSP m),
      (defined m ''__IAR_SYSTEMS_ICC__'' \<or> defined m ''__IAR_SYSTEMS_ICC'', IAR m),
      (defined m ''__ARMCC_VERSION'', ARMCC m),
      (defined m ''_SGI_COMPILER_VERSION'' \<or> defined m ''_COMPILER_VERSION'', MIPSpro m),
      (defined m ''__sgi'', named ''MIPSpro''),
      (defined m ''__hpux'' \<or> defined m ''__hpua'', named ''HP'')]"

definition CXX_id :: "macros \<Rightarrow> id_macros" where
  "CXX_id m = first_match (CXX_branches_1 m @ CXX_branches_2 m) (named '''')"

definition CXX_STD :: "macros \<Rightarrow> string" where
  "CXX_STD m = (if defined m ''_MSC_VER'' \<and> defined m ''_MSVC_LANG'' then ''_MSVC_LANG'' else ''__cplusplus'')"

definition CXX_dialect :: "macros \<Rightarrow> string" where
  "CXX_dialect m =
     (if pp m (CXX_STD m) > 201402 then ''17''
      else if pp m (CXX_STD m) \<ge> 201402 then ''14''
      else if pp m (CXX_STD m) \<ge> 201103 then ''11''
      else ''98'')"

definition CXX_probe :: "macros \<Rightarrow> cerror + probe" where
  "CXX_probe m = (if \<not> defined m ''__cplusplus''
     then Inl (Error_directive ''A C compiler has been selected for C++.'')
     else globals m (CXX_id m) (CXX_dialect m))"

definition CXX_required :: "probe \<Rightarrow> string list" where
  "CXX_required p = [p_compiler p, p_platform p] @
     List.map_filter id [p_version p, p_version_internal p, p_simulate p, p_simulate_version p, p_cray p] @
     [p_dialect p]"

definition CXX_main :: "probe \<Rightarrow> int \<Rightarrow> int res" where
  "CXX_main p argc = require_all (CXX_required p) argc 0"

end
