(* ===== verification/Compiler_Probes.thy ===== *)
theory Compiler_Probes
  imports Compiler_Id_C Compiler_Id_CXX
begin

text \<open>
  What the two compiler probes promise the build: the digits of a version can be read back, every
  string is well formed, both probes give the same answer for a compiler that does not tell the
  languages apart, GNU's compiler is identified with its version, and running a probe is safe.
\<close>

subsection \<open>Positional systems\<close>

text \<open>The contract of a digit macro: the digits of a number at fixed places, most significant first.\<close>

locale positional =
  fixes base :: int
  assumes base_gt: "1 < base"
begin

definition row :: "nat \<Rightarrow> int \<Rightarrow> int list" where
  "row k n = map (\<lambda>i. n div base ^ i mod base) (rev [0..<k])"

definition number :: "int list \<Rightarrow> int" where
  "number ds = foldl (\<lambda>a d. a * base + d) 0 ds"

lemma number_from: "foldl (\<lambda>a d. a * base + d) a ds = a * base ^ length ds + number ds"
proof (induction ds arbitrary: a)
  case (Cons d ds)
  show ?case
    using Cons [of "a * base + d"] Cons [of d] by (simp add: number_def algebra_simps)
qed (simp add: number_def)

lemma number_row: "number (row k n) = n mod base ^ k"
proof (induction k)
  case (Suc k)
  have "number (row (Suc k) n) = (n div base ^ k mod base) * base ^ k + number (row k n)"
    using number_from [of "n div base ^ k mod base" "row k n"] by (simp add: row_def number_def)
  then show ?case
    using Suc base_gt zmod_zmult2_eq [of base n "base ^ k"] by (simp add: algebra_simps)
qed (simp add: row_def number_def)

lemma row_digits: "d \<in> set (row k n) \<Longrightarrow> 0 \<le> d \<and> d < base"
  using base_gt by (auto simp: row_def)

end

interpretation decimal: positional 10
  by unfold_locales simp

interpretation hexadecimal: positional 16
  by unfold_locales simp

definition digit_value :: "char \<Rightarrow> int" where
  "digit_value c = of_char c - 48"

lemma digit_value_char: "0 \<le> d \<Longrightarrow> d < 208 \<Longrightarrow> digit_value (digit_char d) = d"
  by (simp add: digit_value_def digit_char_def)

lemma sdiv_nonneg: "0 \<le> (n::int) \<Longrightarrow> 0 < d \<Longrightarrow> n sdiv d = n div d"
  by (simp add: signed_divide_int_def sgn_if)

lemma smod_nonneg: "0 \<le> (n::int) \<Longrightarrow> 0 < d \<Longrightarrow> n smod d = n mod d"
  by (cases "n = 0") (simp_all add: signed_modulo_int_def sgn_if)

lemma DEC_row: "0 \<le> n \<Longrightarrow> DEC n = map digit_char (decimal.row 8 n)"
  by (simp add: DEC_def decimal.row_def sdiv_nonneg smod_nonneg pos_imp_zdiv_nonneg_iff upt_rec numeral_eq_Suc)

lemma and_15: "(n::int) AND 15 = n mod 16"
  using take_bit_eq_mask [of 4 n] by (simp add: take_bit_eq_mod mask_eq_exp_minus_1)

lemma HEX_row: "HEX n = map digit_char (hexadecimal.row 8 n)"
  by (simp add: HEX_def hexadecimal.row_def and_15 drop_bit_eq_div upt_rec numeral_eq_Suc)

lemma number_digits:
  "(\<And>d. d \<in> set ds \<Longrightarrow> 0 \<le> d \<and> d < 208) \<Longrightarrow> map digit_value (map digit_char ds) = ds"
  by (induction ds) (auto simp: digit_value_char)

lemma digits_read:
  assumes "0 \<le> n"
  shows "map digit_value (DEC n) = decimal.row 8 n" "map digit_value (HEX n) = hexadecimal.row 8 n"
proof -
  have "0 \<le> d \<and> d < 208" if "d \<in> set (decimal.row 8 n) \<or> d \<in> set (hexadecimal.row 8 n)" for d
    using decimal.row_digits [of d 8 n] hexadecimal.row_digits [of d 8 n] that by auto
  note small = this
  show "map digit_value (DEC n) = decimal.row 8 n"
    unfolding DEC_row [OF assms] by (rule number_digits) (use small in blast)
  show "map digit_value (HEX n) = hexadecimal.row 8 n"
    unfolding HEX_row by (rule number_digits) (use small in blast)
qed

lemma decimal_char: "0 \<le> d \<Longrightarrow> d < 10 \<Longrightarrow> digit_char d \<in> set ''0123456789''"
proof -
  have "\<forall>d \<in> set [0..9]. digit_char d \<in> set ''0123456789''"
    by code_simp
  then show "0 \<le> d \<Longrightarrow> d < 10 \<Longrightarrow> digit_char d \<in> set ''0123456789''"
    unfolding set_upto by (rule bspec) simp
qed

lemma hexadecimal_char: "0 \<le> d \<Longrightarrow> d < 16 \<Longrightarrow> digit_char d \<in> set ''0123456789abcdefABCDEF'' \<longleftrightarrow> d < 10"
proof -
  have "\<forall>d \<in> set [0..15]. digit_char d \<in> set ''0123456789abcdefABCDEF'' \<longleftrightarrow> d < 10"
    by code_simp
  then show "0 \<le> d \<Longrightarrow> d < 16 \<Longrightarrow> digit_char d \<in> set ''0123456789abcdefABCDEF'' \<longleftrightarrow> d < 10"
    unfolding set_upto by (rule bspec) simp
qed

subsection \<open>Well-formed strings\<close>

text \<open>What a reader of the binary looks for: the mark \<open>INFO:\<close>, and one terminator at the end.\<close>

definition info_string :: "string \<Rightarrow> bool" where
  "info_string s \<longleftrightarrow> take 5 s = ''INFO:'' \<and> last s = NUL \<and> NUL \<notin> set (butlast s)"

definition clean_text :: "ctext option \<Rightarrow> bool" where
  "clean_text t \<longleftrightarrow> (case t of Some (Inr s) \<Rightarrow> NUL \<notin> set s | _ \<Rightarrow> True)"

definition clean :: "id_macros \<Rightarrow> bool" where
  "clean d \<longleftrightarrow> NUL \<notin> set (COMPILER_ID d) \<and> (\<forall>s. SIMULATE_ID d = Some s \<longrightarrow> NUL \<notin> set s) \<and>
     list_all clean_text [COMPILER_VERSION_MAJOR d, COMPILER_VERSION_MINOR d, COMPILER_VERSION_PATCH d,
       COMPILER_VERSION_TWEAK d, COMPILER_VERSION_INTERNAL d, SIMULATE_VERSION_MAJOR d,
       SIMULATE_VERSION_MINOR d, SIMULATE_VERSION_PATCH d, SIMULATE_VERSION_TWEAK d]"

lemma digit_char_NUL: "- 48 < d \<Longrightarrow> d < 208 \<Longrightarrow> digit_char d \<noteq> NUL"
proof
  assume "- 48 < d" "d < 208" "digit_char d = NUL"
  then have "of_char (digit_char d) = (0::int)" by simp
  with \<open>- 48 < d\<close> \<open>d < 208\<close> show False by (simp add: digit_char_def)
qed

lemma digit_chars [simp]: "NUL \<noteq> digit_char (n smod 10)" "NUL \<noteq> digit_char (n AND 15)"
proof -
  have "- 48 < n smod 10" "n smod 10 < 208"
    using smod_int_range [of 10 n] by auto
  then show "NUL \<noteq> digit_char (n smod 10)"
    using digit_char_NUL by metis
  have "- 48 < n AND 15" "n AND 15 < 208"
    using pos_mod_bound [of 16 n] pos_mod_sign [of 16 n] unfolding and_15 by linarith+
  then show "NUL \<noteq> digit_char (n AND 15)"
    using digit_char_NUL by metis
qed

lemma clean_digits [simp]: "clean_text (dec m x f)" "clean_text (hex m x f)" "clean_text None"
  by (simp_all add: clean_text_def dec_def hex_def DEC_def HEX_def split: option.split)

lemma first_match_holds: "list_all (\<lambda>(b, x). P x) bs \<Longrightarrow> P d \<Longrightarrow> P (first_match bs d)"
  by (induction bs d rule: first_match.induct) auto

lemma clean_named: "NUL \<notin> set s \<Longrightarrow> clean (named s)"
  by (simp add: clean_def named_def)

lemma clean_versioned:
  "NUL \<notin> set s \<Longrightarrow> clean_text a \<Longrightarrow> clean_text b \<Longrightarrow> clean_text c \<Longrightarrow> clean (versioned s a b c)"
  by (simp add: clean_def versioned_def named_def)

lemma clean_simulate: "clean d \<Longrightarrow> clean (simulate_msvc m d)"
  by (simp add: clean_def simulate_msvc_def)

lemma clean_tweak: "clean d \<Longrightarrow> clean_text t \<Longrightarrow> clean (d\<lparr>COMPILER_VERSION_TWEAK := t\<rparr>)"
  by (simp add: clean_def)

lemma clean_internal: "clean d \<Longrightarrow> clean_text t \<Longrightarrow> clean (d\<lparr>COMPILER_VERSION_INTERNAL := t\<rparr>)"
  by (simp add: clean_def)

lemmas clean_intros = clean_named clean_versioned clean_simulate clean_tweak clean_internal

lemmas branch_defs = Intel_def PathScale_def Embarcadero_def Borland_def Watcom_def OpenWatcom_def
  SunPro_def HP_def Compaq_def VRP_def PGI_def Cray_def TI_def Clang_def AppleClang_def GNU_def
  MSVC_def ADSP_def IAR_def ARMCC_def SDCC_def MIPSpro_def Comeau_def

lemma clean_branches:
  "clean (Intel m)" "clean (PathScale m)" "clean (Embarcadero m)" "clean (Borland m)" "clean (Watcom m)"
  "clean (OpenWatcom m)" "clean (SunPro x m)" "clean (HP x m)" "clean (Compaq x m)"
  "NUL \<notin> set s \<Longrightarrow> clean (VRP s x m)" "clean (PGI m)" "clean (Cray m)" "clean (TI m)" "clean (Clang m)"
  "clean (AppleClang m)" "clean (GNU x m)" "clean (MSVC m)" "clean (ADSP m)" "clean (IAR m)" "clean (ARMCC m)"
  "clean (SDCC m)" "clean (MIPSpro m)" "clean (Comeau m)"
  by (simp_all add: branch_defs Let_def clean_intros)

lemma clean_C: "clean (C_id m)"
  unfolding C_id_def by (rule first_match_holds) (simp_all add: C_branches_1_def C_branches_2_def clean_branches clean_named)

lemma clean_CXX: "clean (CXX_id m)"
  unfolding CXX_id_def
  by (rule first_match_holds) (simp_all add: CXX_branches_1_def CXX_branches_2_def clean_branches clean_named)

lemma info_string_info: "NUL \<notin> set key \<Longrightarrow> NUL \<notin> set v \<Longrightarrow> info_string (info key v)"
  by (simp add: info_string_def info_def butlast_append)

lemma dotted_clean: "list_all clean_text cs \<Longrightarrow> dotted cs = Inr t \<Longrightarrow> NUL \<notin> set t"
  by (induction cs arbitrary: t rule: dotted.induct) (auto simp: bind_res_eq_Inr clean_text_def)

lemma array_info: "array key c cs = Inr (Some s) \<Longrightarrow> NUL \<notin> set key \<Longrightarrow> list_all clean_text (c # cs) \<Longrightarrow> info_string s"
  by (cases "(key, c, cs)" rule: array.cases)
    (auto simp: bind_res_eq_Inr clean_text_def dest: dotted_clean intro!: info_string_info)

lemma platform_clean: "NUL \<notin> set (PLATFORM_ID m)"
  unfolding PLATFORM_ID_def
  by (rule first_match_holds [where P = "\<lambda>s. NUL \<notin> set s"]) simp_all

lemma arch_clean: "NUL \<notin> set (STRINGIFY m ''_M_ARM'') \<Longrightarrow> NUL \<notin> set (ARCHITECTURE_ID m)"
  unfolding ARCHITECTURE_ID_def
  by (rule first_match_holds [where P = "\<lambda>s. NUL \<notin> set s"]) simp_all

text \<open>All strings of a probe.\<close>

definition strings :: "probe \<Rightarrow> string list" where
  "strings p = [p_compiler p, p_platform p, p_arch p, p_dialect p] @ List.map_filter id
     [p_simulate p, p_qnxnto p, p_cray p, p_version p, p_version_internal p, p_simulate_version p]"

lemma set_present: "set (List.map_filter id xs) = \<Union> (set_option ` set xs)"
  by (induction xs) (auto simp: List.map_filter_def split: option.splits)

lemma set_strings: "set (strings p) = {p_compiler p, p_platform p, p_arch p, p_dialect p} \<union> \<Union> (set_option `
     {p_simulate p, p_qnxnto p, p_cray p, p_version p, p_version_internal p, p_simulate_version p})"
  by (simp only: strings_def set_append set_present list.set)

lemma globals_info:
  assumes "clean d" "NUL \<notin> set dialect" "NUL \<notin> set (STRINGIFY m ''_M_ARM'')" "globals m d dialect = Inr p"
  shows "list_all info_string (strings p)"
proof -
  from assms(4) have p: "info_version d = Inr (p_version p)" "info_version_internal d = Inr (p_version_internal p)"
      "info_simulate_version d = Inr (p_simulate_version p)"
      "p_compiler p = info ''compiler'' (COMPILER_ID d)" "p_simulate p = map_option (info ''simulate'') (SIMULATE_ID d)"
      "p_qnxnto p \<in> {None, Some (info ''qnxnto'' '''')}" "p_cray p \<in> {None, Some (info ''compiler_wrapper'' ''CrayPrgEnv'')}"
      "p_platform p = info ''platform'' (PLATFORM_ID m)" "p_arch p = info ''arch'' (ARCHITECTURE_ID m)"
      "p_dialect p = info ''dialect_default'' dialect"
    by (auto simp: globals_def bind_res_eq_Inr)
  have "info_string s" if "p_version p = Some s" for s
    by (rule array_info [OF p(1) [unfolded info_version_def that]]) (use assms(1) in \<open>simp_all add: clean_def\<close>)
  moreover have "info_string s" if "p_version_internal p = Some s" for s
    by (rule array_info [OF p(2) [unfolded info_version_internal_def that]]) (use assms(1) in \<open>simp_all add: clean_def\<close>)
  moreover have "info_string s" if "p_simulate_version p = Some s" for s
    by (rule array_info [OF p(3) [unfolded info_simulate_version_def that]]) (use assms(1) in \<open>simp_all add: clean_def\<close>)
  moreover have "info_string s" if "p_simulate p = Some s" for s
    using that assms(1) by (auto simp: p(5) clean_def intro!: info_string_info)
  moreover have "info_string s" if "p_qnxnto p = Some s \<or> p_cray p = Some s" for s
    using that p(6,7) by (auto intro!: info_string_info)
  moreover have "info_string (p_compiler p)" "info_string (p_platform p)" "info_string (p_arch p)" "info_string (p_dialect p)"
    using assms(1-3) platform_clean arch_clean by (simp_all add: p(4-10) info_string_info clean_def)
  ultimately show ?thesis
    by (auto simp: list_all_iff set_strings elem_set)
qed

subsection \<open>Running a probe\<close>

lemma require_all_info:
  assumes "list_all info_string ss" "0 \<le> argc" "argc < 5"
  shows "require_all ss argc r = Inr (r + int (length ss) * char_value (''INFO:'' ! nat argc))"
  using assms(1)
proof (induction ss arbitrary: r)
  case (Cons s ss)
  then have t: "take 5 s = ''INFO:''"
    by (simp add: info_string_def)
  then have "length (take 5 s) = 5"
    by (simp del: length_take)
  then have "5 \<le> length s"
    by simp
  moreover have "s ! nat argc = ''INFO:'' ! nat argc"
    using t assms(2,3) nth_take [of "nat argc" 5 s] by simp
  ultimately show ?case
    using Cons assms(2,3) by (simp add: algebra_simps)
qed simp

lemma required_strings: "set (C_required p) \<subseteq> set (strings p)" "set (CXX_required p) \<subseteq> set (strings p)"
  by (simp_all only: C_required_def CXX_required_def set_strings set_append set_present list.set) auto

lemma probe_info:
  assumes "NUL \<notin> set (STRINGIFY m ''_M_ARM'')"
  shows "C_probe m = Inr p \<Longrightarrow> list_all info_string (strings p)" "CXX_probe m = Inr p \<Longrightarrow> list_all info_string (strings p)"
proof -
  have d: "NUL \<notin> set (C_DIALECT m)" "NUL \<notin> set (CXX_dialect m)"
    by (simp_all add: C_DIALECT_def CXX_dialect_def)
  show "C_probe m = Inr p \<Longrightarrow> list_all info_string (strings p)"
    using globals_info [OF clean_C d(1) assms] by (simp add: C_probe_def split: if_splits)
  show "CXX_probe m = Inr p \<Longrightarrow> list_all info_string (strings p)"
    using globals_info [OF clean_CXX d(2) assms] by (simp add: CXX_probe_def split: if_splits)
qed

lemma present_le: "length (List.map_filter id xs) \<le> length xs"
  by (simp add: List.map_filter_def)

subsection \<open>Both probes on one compiler\<close>

text \<open>The macros on which the branches of the two files differ.\<close>

definition language_macros :: "string list" where
  "language_macros = [''__SUNPRO_C'', ''__HP_cc'', ''__DECC'', ''__IBMC__'', ''__TINYC__'', ''__BCC__'',
     ''__SDCC_VERSION_MAJOR'', ''SDCC'', ''__COMO__'', ''__SUNPRO_CC'', ''__HP_aCC'', ''__DECCXX'', ''__IBMCPP__'']"

lemma first_match_append: "first_match (bs @ cs) d = first_match bs (first_match cs d)"
  by (induction bs d rule: first_match.induct) auto

lemma id_agree:
  assumes "\<not> any_defined m language_macros" "defined m ''__GNUG__'' \<longrightarrow> defined m ''__GNUC__''"
  shows "C_id m = CXX_id m"
proof -
  note none = assms(1) [unfolded any_defined_def language_macros_def list.set bex_simps de_Morgan_disj]
  have gnu: "defined m ''__GNUC__'' \<or> defined m ''__GNUG__'' \<longleftrightarrow> defined m ''__GNUC__''"
    using assms(2) by blast
  have "first_match (C_branches_1 m) d = first_match (CXX_branches_1 m) d" for d
    using none unfolding C_branches_1_def CXX_branches_1_def first_match.simps by simp
  moreover have "first_match (C_branches_2 m) d = first_match (CXX_branches_2 m) d" for d
    using none unfolding C_branches_2_def CXX_branches_2_def first_match.simps gnu by simp
  ultimately show ?thesis
    by (simp add: C_id_def CXX_id_def first_match_append)
qed

text \<open>A C++ compiler also defines \<open>__cplusplus\<close>, which no branch tests.\<close>

abbreviation as_cxx :: "macros \<Rightarrow> macro \<Rightarrow> macros" where
  "as_cxx m k \<equiv> m(''__cplusplus'' \<mapsto> k)"

lemma as_cxx_reads:
  assumes "x \<noteq> ''__cplusplus''"
  shows "defined (as_cxx m k) x = defined m x" "pp (as_cxx m k) x = pp m x" "dec (as_cxx m k) x = dec m x"
    "hex (as_cxx m k) x = hex m x" "STRINGIFY (as_cxx m k) x = STRINGIFY m x"
  using assms by (auto simp: defined_def pp_def dec_def hex_def STRINGIFY_def fun_eq_iff)

lemma any_defined_as_cxx: "''__cplusplus'' \<notin> set xs \<Longrightarrow> any_defined (as_cxx m k) xs = any_defined m xs"
  by (auto simp: any_defined_def defined_def)

lemma as_cxx_branches:
  "Intel (as_cxx m k) = Intel m" "PathScale (as_cxx m k) = PathScale m" "Embarcadero (as_cxx m k) = Embarcadero m"
  "Borland (as_cxx m k) = Borland m" "Watcom (as_cxx m k) = Watcom m" "OpenWatcom (as_cxx m k) = OpenWatcom m"
  "x \<noteq> ''__cplusplus'' \<Longrightarrow> SunPro x (as_cxx m k) = SunPro x m" "x \<noteq> ''__cplusplus'' \<Longrightarrow> HP x (as_cxx m k) = HP x m"
  "x \<noteq> ''__cplusplus'' \<Longrightarrow> Compaq x (as_cxx m k) = Compaq x m" "x \<noteq> ''__cplusplus'' \<Longrightarrow> VRP s x (as_cxx m k) = VRP s x m"
  "PGI (as_cxx m k) = PGI m" "Cray (as_cxx m k) = Cray m" "TI (as_cxx m k) = TI m" "Clang (as_cxx m k) = Clang m"
  "AppleClang (as_cxx m k) = AppleClang m" "x \<noteq> ''__cplusplus'' \<Longrightarrow> GNU x (as_cxx m k) = GNU x m"
  "MSVC (as_cxx m k) = MSVC m" "ADSP (as_cxx m k) = ADSP m" "IAR (as_cxx m k) = IAR m" "ARMCC (as_cxx m k) = ARMCC m"
  "MIPSpro (as_cxx m k) = MIPSpro m" "Comeau (as_cxx m k) = Comeau m"
  by (simp_all add: branch_defs simulate_msvc_def as_cxx_reads Let_def)

lemma as_cxx_id: "CXX_id (as_cxx m k) = CXX_id m"
  by (simp add: CXX_id_def CXX_branches_1_def CXX_branches_2_def as_cxx_branches as_cxx_reads any_defined_as_cxx
      del: first_match.simps)

lemma as_cxx_platform:
  "PLATFORM_ID (as_cxx m k) = PLATFORM_ID m" "ARCHITECTURE_ID (as_cxx m k) = ARCHITECTURE_ID m"
  by (simp_all add: PLATFORM_ID_def ARCHITECTURE_ID_def as_cxx_reads any_defined_as_cxx del: first_match.simps)

lemma globals_as_cxx: "globals m d x = map_sum id (\<lambda>p. p\<lparr>p_dialect := info ''dialect_default'' x\<rparr>) (globals (as_cxx m k) d y)"
proof -
  have b: "map_sum id f (bind_res r g) = bind_res r (\<lambda>v. map_sum id f (g v))" for f :: "probe \<Rightarrow> probe" and r :: "cerror + string option" and g
    by (cases r) auto
  show ?thesis
    by (simp add: globals_def b as_cxx_reads as_cxx_platform any_defined_as_cxx)
qed

subsection \<open>The environment of this build\<close>

text \<open>
  The macros of gcc 7.4.0 on Linux that the probes read. The build recorded what the probes
  reported in \<open>CMakeCCompiler.cmake\<close> and \<open>CMakeCXXCompiler.cmake\<close>: GNU, 7.4.0, Linux, with
  the default dialects 11 and 14.
\<close>

definition gcc_7_4_0 :: macros where
  "gcc_7_4_0 = map_of
     [(''__GNUC__'', \<lparr>spelling = ''7'', mvalue = 7\<rparr>), (''__GNUC_MINOR__'', \<lparr>spelling = ''4'', mvalue = 4\<rparr>),
      (''__GNUC_PATCHLEVEL__'', \<lparr>spelling = ''0'', mvalue = 0\<rparr>), (''__linux__'', \<lparr>spelling = ''1'', mvalue = 1\<rparr>),
      (''__STDC__'', \<lparr>spelling = ''1'', mvalue = 1\<rparr>), (''__STDC_VERSION__'', \<lparr>spelling = ''201112L'', mvalue = 201112\<rparr>)]"

definition cplusplus_14 :: macro where
  "cplusplus_14 = \<lparr>spelling = ''201402L'', mvalue = 201402\<rparr>"

text \<open>The macros of compilers that are tested before GNU's in either file.\<close>

definition gnu_rivals :: "string list" where
  "gnu_rivals = language_macros @ [''__INTEL_COMPILER'', ''__ICC'', ''__PATHCC__'', ''__BORLANDC__'', ''__WATCOMC__'',
     ''__PGI'', ''_CRAYC'', ''__TI_COMPILER_VERSION__'', ''__FUJITSU'', ''__FCC_VERSION'', ''__fcc_version'',
     ''__SCO_VERSION__'', ''__clang__'']"

lemma gnu_id:
  assumes "\<not> any_defined m gnu_rivals" "defined m ''__GNUC__''"
  shows "C_id m = GNU ''__GNUC__'' m" "CXX_id m = GNU ''__GNUC__'' m"
proof -
  have "\<not> any_defined m language_macros"
    using assms(1) by (auto simp: gnu_rivals_def any_defined_def)
  then have eq: "C_id m = CXX_id m"
    using id_agree assms(2) by blast
  note none = assms(1) [unfolded any_defined_def gnu_rivals_def language_macros_def append.simps list.set bex_simps de_Morgan_disj]
  show "C_id m = GNU ''__GNUC__'' m"
    using none assms(2) unfolding C_id_def C_branches_1_def C_branches_2_def append.simps first_match.simps any_defined_def list.set
    by simp
  then show "CXX_id m = GNU ''__GNUC__'' m"
    by (simp add: eq)
qed

lemma gcc_probes:
  "\<exists>p. C_probe gcc_7_4_0 = Inr p" "\<exists>p. CXX_probe (as_cxx gcc_7_4_0 cplusplus_14) = Inr p"
  "NUL \<notin> set (STRINGIFY gcc_7_4_0 ''_M_ARM'')" "NUL \<notin> set (STRINGIFY (as_cxx gcc_7_4_0 cplusplus_14) ''_M_ARM'')"
  "\<not> defined gcc_7_4_0 ''__18CXX''" "\<not> defined (as_cxx gcc_7_4_0 cplusplus_14) ''__18CXX''"
proof -
  have "\<not> isl (C_probe gcc_7_4_0)" "\<not> isl (CXX_probe (as_cxx gcc_7_4_0 cplusplus_14))"
    by code_simp+
  then show "\<exists>p. C_probe gcc_7_4_0 = Inr p" "\<exists>p. CXX_probe (as_cxx gcc_7_4_0 cplusplus_14) = Inr p"
    by (auto simp: isl_def) (metis sum.exhaust)+
  show "NUL \<notin> set (STRINGIFY gcc_7_4_0 ''_M_ARM'')" "NUL \<notin> set (STRINGIFY (as_cxx gcc_7_4_0 cplusplus_14) ''_M_ARM'')"
    "\<not> defined gcc_7_4_0 ''__18CXX''" "\<not> defined (as_cxx gcc_7_4_0 cplusplus_14) ''__18CXX''"
    by code_simp+
qed

lemma gcc_no_rivals: "\<not> any_defined gcc_7_4_0 gnu_rivals"
  by code_simp

subsection \<open>Properties\<close>

text \<open>
  C39. The digit macros keep every digit they have room for: for a version component that is not
  negative, reading the eight characters of \<open>DEC\<close> in base ten gives the component modulo \<open>10 ^ 8\<close>, and reading those of
  \<open>HEX\<close> in base sixteen, with the character after '9' as ten, gives it modulo \<open>2 ^ 32\<close>. The
  last character of \<open>HEX\<close> is a hexadecimal digit only when its value is below ten.
\<close>

theorem version_digits_roundtrip:
  assumes "0 \<le> n"
  shows "decimal.number (map digit_value (DEC n)) = n mod 10 ^ 8 \<and>
    hexadecimal.number (map digit_value (HEX n)) = n mod 2 ^ 32 \<and>
    set (DEC n) \<subseteq> set ''0123456789'' \<and>
    (last (HEX n) \<in> set ''0123456789abcdefABCDEF'' \<longleftrightarrow> n mod 16 < 10)"
proof (intro conjI)
  show "decimal.number (map digit_value (DEC n)) = n mod 10 ^ 8"
    by (simp only: digits_read [OF assms] decimal.number_row)
  show "hexadecimal.number (map digit_value (HEX n)) = n mod 2 ^ 32"
    unfolding digits_read [OF assms] hexadecimal.number_row by simp
  show "set (DEC n) \<subseteq> set ''0123456789''"
    unfolding DEC_row [OF assms] set_map by (rule image_subsetI) (use decimal_char decimal.row_digits in blast)
  show "last (HEX n) \<in> set ''0123456789abcdefABCDEF'' \<longleftrightarrow> n mod 16 < 10"
    using hexadecimal_char [of "n mod 16"] by (simp only: HEX_def and_15 list.map last.simps) simp
qed

theorem version_digits_roundtrip_witness:
  "decimal.number (map digit_value (DEC 20180210)) = 20180210 \<and> last (HEX 0x5A) \<notin> set ''0123456789abcdefABCDEF''"
  using version_digits_roundtrip [of 20180210] version_digits_roundtrip [of "0x5A"] by simp

text \<open>
  C40. Every string of a compiled probe is a C string that a reader of the binary finds: it starts
  with the mark \<open>INFO:\<close> and holds one terminator, at its end, whatever the values of the macros,
  when the spelling of \<open>_M_ARM\<close>, which is copied, has none.
\<close>

theorem probe_strings_wellformed:
  assumes "NUL \<notin> set (STRINGIFY m ''_M_ARM'')" "C_probe m = Inr p \<or> CXX_probe m = Inr p"
  shows "list_all info_string (strings p)"
  using probe_info [OF assms(1)] assms(2) by blast

theorem probe_strings_wellformed_witness:
  "(\<exists>p. C_probe gcc_7_4_0 = Inr p \<and> list_all info_string (strings p)) \<and>
   (\<exists>p. CXX_probe (as_cxx gcc_7_4_0 cplusplus_14) = Inr p \<and> list_all info_string (strings p))"
  using probe_strings_wellformed [OF gcc_probes(3)] probe_strings_wellformed [OF gcc_probes(4)] gcc_probes(1,2) by blast

text \<open>
  Running a probe with fewer than four arguments reads inside every string and returns a
  multiple of one character of the mark: the number of strings that \<open>main\<close> reads, between four
  and nine in C and between three and eight in C++, times that character.
\<close>

theorem probe_run_returns:
  assumes "NUL \<notin> set (STRINGIFY m ''_M_ARM'')" "0 \<le> argc" "argc < 5" "\<not> defined m ''__18CXX''"
  shows "(C_probe m = Inr p \<longrightarrow> (\<exists>k. 4 \<le> k \<and> k \<le> 9 \<and>
        C_main m p argc = Inr (Some (int k * char_value (''INFO:'' ! nat argc))))) \<and>
    (CXX_probe m = Inr p \<longrightarrow> (\<exists>k. 3 \<le> k \<and> k \<le> 8 \<and>
        CXX_main p argc = Inr (int k * char_value (''INFO:'' ! nat argc))))"
proof -
  have len: "4 \<le> length (C_required p)" "length (C_required p) \<le> 9" "3 \<le> length (CXX_required p)" "length (CXX_required p) \<le> 8"
    using present_le [of "[p_version p, p_version_internal p, p_simulate p, p_simulate_version p, p_cray p]"]
    by (simp_all only: C_required_def CXX_required_def length_append list.size)
  have "C_main m p argc = Inr (Some (int (length (C_required p)) * char_value (''INFO:'' ! nat argc)))"
      "CXX_main p argc = Inr (int (length (CXX_required p)) * char_value (''INFO:'' ! nat argc))"
    if "list_all info_string (strings p)"
    using that required_strings [of p] require_all_info [OF _ assms(2,3), of _ 0] assms(4)
    by (auto simp: C_main_def CXX_main_def list_all_iff subset_iff)
  then show ?thesis
    using probe_info [OF assms(1)] len by blast
qed

theorem probe_run_returns_witness:
  "(\<exists>p k. C_probe gcc_7_4_0 = Inr p \<and> C_main gcc_7_4_0 p 1 = Inr (Some (int k * 78)) \<and> 4 \<le> k) \<and>
   (\<exists>p k. CXX_probe (as_cxx gcc_7_4_0 cplusplus_14) = Inr p \<and> CXX_main p 1 = Inr (int k * 78) \<and> 3 \<le> k)"
proof -
  have "char_value (''INFO:'' ! nat 1) = 78"
    by code_simp
  then show ?thesis
    using probe_run_returns [OF gcc_probes(3) _ _ gcc_probes(5), of 1] gcc_probes(1)
      probe_run_returns [OF gcc_probes(4) _ _ gcc_probes(6), of 1] gcc_probes(2) by fastforce
qed

text \<open>
  C37. The two probes agree on a compiler that defines none of the macros by which the vendors
  tell C from C++: compiled as C++, with \<open>__cplusplus\<close> defined to any value, the C++ probe
  has the strings of the C probe, except the dialect, and it fails to compile for the same reason.
\<close>

theorem probes_agree:
  assumes "\<not> defined m ''__cplusplus''" "\<not> any_defined m language_macros"
    and "defined m ''__GNUG__'' \<longrightarrow> defined m ''__GNUC__''"
  shows "C_probe m = map_sum id (\<lambda>p. p\<lparr>p_dialect := info ''dialect_default'' (C_DIALECT m)\<rparr>)
    (CXX_probe (m(''__cplusplus'' \<mapsto> k)))"
proof -
  have "defined (as_cxx m k) ''__cplusplus''"
    by (simp add: defined_def)
  then show ?thesis
    using assms(1) globals_as_cxx [of m "CXX_id m" "C_DIALECT m" k "CXX_dialect (as_cxx m k)"]
    by (simp add: C_probe_def CXX_probe_def id_agree [OF assms(2,3)] as_cxx_id)
qed

theorem probes_agree_witness:
  "C_probe gcc_7_4_0 = map_sum id (\<lambda>p. p\<lparr>p_dialect := info ''dialect_default'' ''11''\<rparr>)
    (CXX_probe (gcc_7_4_0(''__cplusplus'' \<mapsto> cplusplus_14)))"
proof -
  have g: "\<not> defined gcc_7_4_0 ''__cplusplus''" "\<not> any_defined gcc_7_4_0 language_macros"
      "\<not> defined gcc_7_4_0 ''__GNUG__''" "C_DIALECT gcc_7_4_0 = ''11''"
    by code_simp+
  then show ?thesis
    using probes_agree [OF g(1,2), of cplusplus_14] by simp
qed

text \<open>
  C38. GNU's compiler is identified: when no macro that is tested earlier is defined, both probes
  compile, name GNU, stand in for no other compiler, and give the version as the eight digits each
  of major, minor and patch number, separated by dots.
\<close>

theorem gnu_identified:
  assumes "\<not> any_defined m gnu_rivals" "m ''__GNUC__'' = Some a"
    and "m ''__GNUC_MINOR__'' = Some b" "m ''__GNUC_PATCHLEVEL__'' = Some c"
    and "\<not> defined m ''__cplusplus''" "r \<in> {C_probe m, CXX_probe (m(''__cplusplus'' \<mapsto> k))}"
  shows "\<exists>p. r = Inr p \<and> p_compiler p = info ''compiler'' ''GNU'' \<and> p_simulate p = None \<and>
    p_version p = Some (info ''compiler_version''
      (DEC (mvalue a) @ ''.'' @ DEC (mvalue b) @ ''.'' @ DEC (mvalue c)))"
proof -
  have d: "defined m ''__GNUC__''" "defined m ''__GNUC_MINOR__''" "defined m ''__GNUC_PATCHLEVEL__''"
      "defined (as_cxx m k) ''__cplusplus''"
    using assms(2-4) by (simp_all add: defined_def)
  have "r = globals m (GNU ''__GNUC__'' m) (C_DIALECT m) \<or>
      r = globals (as_cxx m k) (GNU ''__GNUC__'' m) (CXX_dialect (as_cxx m k))"
    using assms(5,6) d by (auto simp: C_probe_def CXX_probe_def as_cxx_id gnu_id [OF assms(1) d(1)])
  then show ?thesis
    using assms(2-4) d by (auto simp: globals_def GNU_def versioned_def named_def dec_def info_version_def
        info_version_internal_def info_simulate_version_def)
qed

theorem gnu_identified_witness:
  "\<exists>p. C_probe gcc_7_4_0 = Inr p \<and> p_compiler p = info ''compiler'' ''GNU'' \<and>
     p_version p = Some (info ''compiler_version'' ''00000007.00000004.00000000'')"
proof -
  have "\<not> defined gcc_7_4_0 ''__cplusplus''" "DEC 7 = ''00000007''" "DEC 4 = ''00000004''" "DEC 0 = ''00000000''"
    by code_simp+
  then show ?thesis
    using gnu_identified [OF gcc_no_rivals, of "\<lparr>spelling = ''7'', mvalue = 7\<rparr>" "\<lparr>spelling = ''4'', mvalue = 4\<rparr>"
        "\<lparr>spelling = ''0'', mvalue = 0\<rparr>" "C_probe gcc_7_4_0"]
    by (auto simp: gcc_7_4_0_def)
qed

end
