(* ===== verification/Spec2Isabelle.thy ===== *)
theory Spec2Isabelle
  imports Endian Atomic Conn_Queue Evbuffer Connection Protobuf Rpc_Message Codec Rpc_Code Tcp_State Tcp_Server Tcp_Client
    Tcp_Liveness Rpc_Channel Rpc_Server Rpc_Liveness Test_Programs Compiler_Probes
begin

text \<open>
  \<^bold>\<open>A verification of mRpc, an RPC library in C++ over libevent and protocol buffers.\<close>

  \<^bold>\<open>The program.\<close> A server process owns an \<open>RpcServer\<close> (\<open>src/rpcServer.cpp\<close>), which owns a
  \<open>TcpServer\<close> (\<open>src/tcpServer.cpp\<close>) and a table of services. The main event loop accepts
  connections and writes each descriptor to the pipe of the least loaded thread; that thread
  makes a \<open>Conn\<close> with a bufferevent, links it into its \<open>ConnQueue\<close> and calls the connection
  callback, which makes an \<open>RpcChannel\<close> (\<open>src/rpcChannel.cpp\<close>) and installs its \<open>onMessage\<close> as
  the read callback. A client process owns a \<open>TcpClient\<close> (\<open>src/tcpClient.cpp\<close>) and a channel
  of its own. A channel frames and unframes \<open>RpcMessage\<close>s (\<open>src/rpc.pb.cc\<close>, generated) with the
  codec of \<open>src/codeClite.cpp\<close>: a big-endian length, the tag \<open>mRpc\<close>, the serialised message and
  an Adler-32 of tag and message. \<open>CallMethod\<close> records an outstanding call and sends a request;
  \<open>onRpcMessage\<close> answers requests through the service table and completes outstanding calls
  with responses.

  \<^bold>\<open>The theories\<close>, bottom up.

  \<^item> \<open>Prelude\<close>: results and faults. A function of the program returns \<open>Inl\<close> a fault (a null
    or dangling pointer, a double free, an uninitialised read, a signed overflow, a failed
    assertion or check, a thrown \<open>NetErr\<close>) or \<open>Inr\<close> its value; a function that might not
    return has one more \<open>option\<close>, and \<open>None\<close> is not returning. Words and their bytes in memory.
  \<^item> \<open>Endian\<close>, \<open>Atomic\<close>: \<open>include/ev_endian.h\<close> and \<open>include/atomic.h\<close>.
  \<^item> \<open>Conn_Queue\<close>: \<open>Conn\<close> and \<open>ConnQueue\<close> of \<open>src/tcpServer.h\<close> over an explicit store of nodes;
    the doubly linked list with two sentinels refines the list of connections.
  \<^item> \<open>Evbuffer\<close>: libevent's buffers as a locale \<open>evbuffer_lib\<close> (their contents as bytes) and
    \<open>evbuffer_ok\<close> (calls that do not fail), interpreted on chunked buffers.
  \<^item> \<open>Connection\<close>: the methods of \<open>Conn\<close> and the \<open>LibeventThread\<close>; the record \<open>net\<close> is the
    process state below the servers, extended by each layer above.
  \<^item> \<open>Protobuf\<close>: the protobuf run-time functions that the generated code calls, with the laws of
    the wire format as locales \<open>pb_lib\<close> and \<open>pb_progress\<close>, interpreted on a reference encoding.
  \<^item> \<open>Rpc_Message\<close>: the generated class \<open>RpcMessage\<close>: fields, presence bits, accessors, clearing,
    merging, the parser with its labels and jumps, both serialisers, sizes.
  \<^item> \<open>Codec\<close>: \<open>ProtobufCodecLite\<close> and \<open>google-inl.h\<close>. An abstract decoder \<open>decode_stream\<close>
    says what a byte stream means; the locales \<open>codec_reader\<close> and \<open>codec_client\<close> carry the
    proof that the receiving loop implements it for any client of the codec.
  \<^item> \<open>Rpc_Code\<close>: \<open>ProtobufCodecLiteDerived\<close> and \<open>RpcCodeDerived\<close>; Adler-32; the generated class
    behind the \<open>Message\<close> interface (locale \<open>rpc_runtime\<close>); properties of the codec.
  \<^item> \<open>Tcp_State\<close>, \<open>Tcp_Server\<close>, \<open>Tcp_Client\<close>: the TCP layer. libevent's event layer, pipes and
    threads are a record of functions with the laws of the locale \<open>event_lib\<close>; user callbacks
    keep the contract of the locale \<open>server_callbacks\<close>. \<open>server_step\<close> is the relation of one
    handler call by one of the loops, \<open>server_reach\<close> its closure.
  \<^item> \<open>Rpc_Channel\<close>: both ends of a call. User messages, services and closures are the record
    \<open>service_ops\<close>. \<open>rpc_stack\<close> joins the interfaces of the layers below; a channel of a served
    connection is an instance of \<open>codec_client\<close>.
  \<^item> \<open>Rpc_Server\<close>: \<open>RpcServer\<close>, and the invoker that closes the callbacks of the TCP layer with
    the functions of the RPC layer.
  \<^item> \<open>Tcp_Liveness\<close>, \<open>Rpc_Liveness\<close>: pipes that keep order (locale \<open>pipe_lib\<close>), servers whose
    connection callback returns and leaves the TCP layer alone (locale \<open>prompt_server\<close>, of which
    \<open>onConnection\<close> is an instance), and the way of a descriptor from \<open>acceptCb\<close> to a served
    connection.
  \<^item> \<open>Test_Programs\<close>: the example programs \<open>test/server.cpp\<close> and \<open>test/client.cpp\<close>. The classes
    generated from \<open>test/rpc.proto\<close> are the record \<open>test_ops\<close> with the laws of the locale
    \<open>test_messages\<close>; the process state gains the standard output and the client objects.
  \<^item> \<open>Compiler_Id\<close>, \<open>Compiler_Id_C\<close>, \<open>Compiler_Id_CXX\<close>, \<open>Compiler_Probes\<close>: the two compiler
    probes of the build that are checked in under \<open>src/build/CMakeFiles/3.10.2\<close>. A probe is a
    function of the compiler's predefined macros, because all it does is chosen by the
    preprocessor; the result is a diagnostic or the strings in memory, and \<open>main\<close> over them.
  \<^item> this theory: a call through both ends.

  \<^bold>\<open>What is shown.\<close> Messages: parsing inverts serialising, parsing any input returns and keeps
  the class invariant, sizes are exact until their signed sum overflows, the two serialisers agree, merging and copying. Codec:
  the loop refines the decoder on every byte stream, sending appends one frame, what is sent is
  received; and how it fails on frames in pieces, corrupt frames, negative lengths and payloads
  that do not parse. Queue: refinement, removal, destruction. TCP server: no interleaving of
  handlers faults, whatever is accepted, read, written, closed or stopped; accepting picks the
  least loaded thread; registration, closing and destruction do exactly what they should; every
  accepted descriptor becomes a served connection. TCP client: connecting and
  the first write, destruction, and when its bufferevent is released twice. Channel: calls
  get fresh ids and go out as one frame; requests are answered by their lookup; a response
  completes its call once; destruction releases each call once; the channel of a served
  connection answers the requests of any byte stream \<open>NO_SERVICE\<close>, and a call answered so
  completes without a sign of the error. RPC server: construction,
  registration, destruction; and that a channel made for a connection is destroyed before its
  first use and ignores its service table. Example programs: \<open>Put\<close> answers its call once with a
  successful result, \<open>Get\<close> needs a second key, the server enters its loop with the service in its table, and the client calls through a channel whose
  connection was never set. Compiler probes: both identify GNU's compiler with its
  version, agree wherever the vendors' macros do not tell the languages apart, have well-formed
  strings whose digits can be read back, and run safely; on the macros of gcc 7.4.0 the model
  gives what the build recorded.

  \<^bold>\<open>Bounds and choices.\<close> Machine integers keep their width. Buffers are shorter than two
  gigabytes where the code narrows their length to 32 bits; a message fits a frame when tag,
  payload and checksum are at most 64 MiB, as the receiver requires, and a request whose names
  and argument sum to at most 67108000 bytes does. The number of threads is a natural number: a
  negative one makes \<open>new[]\<close> throw before anything else happens. The host is little-endian and
  assertions are enabled, as in the build. No fuel is used: loops over external input are
  partial functions, and the properties state that they return. A handler runs to completion;
  the threads of a server are interleaved at handler calls, and the mutex of a channel guards
  single map operations. The table of outstanding calls is a list in order of ids, which are
  handed out in increasing order, so the destructor visits it as the map's iterator does. The
  receiving loop has its codec as an argument: a service or a closure that destroys the channel
  whose loop is calling it is not seen as a use of the destroyed codec. A completion closure is
  any function of the state; where a property needs it to return or to leave something alone,
  its statement says so of the state in which the closure runs.

  \<^bold>\<open>Not modelled\<close>: logging; the descriptor tables, reflection and start-up registration in the
  generated code, and the static version checks, which are calls into protobuf; libevent, zlib,
  protobuf, pthreads and the operating system, which are parameters with stated laws; the
  classes \<open>protoc\<close> makes of \<open>test/rpc.proto\<close>, which are not in the repository; the
  rest of the CMake output, such as its feature tests. The files under \<open>src/build/install\<close> and
  \<open>src/build/include\<close> are byte-identical copies of the sources, so what is shown of the sources
  holds of them. A macro that a probe evaluates is assumed to expand to an integer constant. Data
  races between threads on the same object are outside the model.
\<close>

text \<open>The caller's end of an unanswered call: the reply \<open>NO_SERVICE\<close> arrives.\<close>

lemma error_reply_completes:
  assumes "rpc_stack L unread M E evb Z" and "channels w this = Some ch"
    and w1: "channels w1 = (channels w)(this \<mapsto> ch\<lparr>outstandings := AList.update i \<lparr>oc_response = r, oc_done = d\<rparr> (outstandings ch)\<rparr>)"
      "map_of (outstandings ch) i = None" "user_msgs w1 = user_msgs w" "closures w1 = closures w"
    and "this \<noteq> NULL" and "conn \<noteq> NULL" and "r \<noteq> NULL" and "user_msgs w r = Some q" and "d \<noteq> NULL" and "d \<in> closures w"
    and rep: "rep = frame Z mRpc (SerializeWithCachedSizesToArray L (error_msg L i NO_SERVICE))"
    and rd: "reads evb (w1\<lparr>ext := s\<rparr>) conn cb rep"
  shows "\<exists>u. u = w1\<lparr>ext := ext u, channels := channels w, user_msgs := user_msgs w\<rparr> \<and> user_msgs u r = Some q \<and>
     closure_decides E Z L M S evb this conn cb (drop 4 rep) r d (w1\<lparr>ext := s\<rparr>) u"
proof -
  have valid: "ErrorCode_IsValid NO_SERVICE"
    by (simp add: ErrorCode_IsValid_def)
  note m = rpc_stack.sendable_msgs(3) [OF assms(1) valid, of i] rpc_stack.fits_msgs(3) [OF assms(1) valid, of i]
    error_msg_gets [OF valid, of L i]
  have ch: "ch\<lparr>outstandings := AList.delete i (AList.update i \<lparr>oc_response = r, oc_done = d\<rparr> (outstandings ch))\<rparr> = ch"
      "(channels w)(this \<mapsto> ch) = channels w" "(user_msgs w)(r \<mapsto> q) = user_msgs w"
    using assms(2,10) w1(2) by (auto simp: delete_update_fresh)
  have body: "drop 4 rep = frame_body Z mRpc (SerializeWithCachedSizesToArray L (error_msg L i NO_SERVICE))"
    by (simp add: rep frame_def)
  obtain u where u: "u = w1\<lparr>ext := ext u, channels := channels w, user_msgs := user_msgs w\<rparr>"
      "closure_decides E Z L M S evb this conn cb (drop 4 rep) r d (w1\<lparr>ext := s\<rparr>) u"
    using reply_completes [where S = S and r = r and d = d and q = q and w = "w1\<lparr>ext := s\<rparr>",
      OF assms(1) _ assms(7,8) m(1,2) _ _ rd [unfolded rep]] m(3-6) assms(9-12) w1 ch
    by (auto simp: body update_conv')
  have "user_msgs u r = Some q"
    by (subst u(1)) (simp add: assms(10))
  with u show ?thesis
    by blast
qed

text \<open>
  C1. A call through both ends of the program: the caller's \<open>CallMethod\<close> writes one frame, the
  request under a fresh id; the channel that a server makes for a connection, whatever table of
  services it was given, consumes it and answers with one frame, the error \<open>NO_SERVICE\<close> under
  that id; and when the caller's channel reads that answer, the caller's closure runs with the
  outstanding call gone and its response object as it was before the call, so with no sign of
  the error. When the closure faults, so does the channel; when it returns and has left the
  response object and the connection's buffer alone, the object is deleted and the answer
  consumed.
\<close>

theorem call_without_services:
  assumes "rpc_stack L unread M E evb Z" and "channels w this = Some ch" and "this \<noteq> NULL"
    and "ids_ok (rpc_id w) ch" and "sint (rpc_id w) \<noteq> 2 ^ 31 - 1" and "ch_conn ch = Some conn" and "conn \<noteq> NULL"
    and "writes evb w conn b []"
    and "length (method_service_full_name S method) + length (method_name S method) +
         length (q_SerializeAsString S request) \<le> 67108000"
    and "r \<noteq> NULL" and "user_msgs w r = Some q" and "d \<noteq> NULL" and "d \<in> closures w"
    and "i = scast (rpc_id w + 1)"
    and "req = frame Z mRpc (SerializeWithCachedSizesToArray L (request_of L S i method request))"
    and "rep = frame Z mRpc (SerializeWithCachedSizesToArray L (error_msg L i NO_SERVICE))"
  shows "\<exists>w1. CallMethod E Z L M S this method request r d w = Inr w1 \<and> writes evb w1 conn b req \<and>
    view (request_of L S i method request) =
      request_view i (method_service_full_name S method) (method_name S method) (q_SerializeAsString S request) \<and>
    store w1 = store w \<and> live_bevs w1 = live_bevs w \<and>
    (\<forall>v sthis sconn p rb wb.
       channels v sthis = Some (setServices p (RpcChannel_conn sconn)) \<and> sthis \<noteq> NULL \<and> sconn \<noteq> NULL \<and>
       reads evb v sconn rb req \<and> writes evb v sconn wb [] \<and> rb \<noteq> wb \<longrightarrow>
       (\<exists>v1. channel_onMessage E Z L M S sthis sconn v = Some (Inr v1) \<and> reads evb v1 sconn rb [] \<and> writes evb v1 sconn wb rep)) \<and>
    view (error_msg L i NO_SERVICE) = error_view i NO_SERVICE \<and>
    (\<forall>s cb. reads evb (w1\<lparr>ext := s\<rparr>) conn cb rep \<longrightarrow>
       (\<exists>u. u = w1\<lparr>ext := ext u, channels := channels w, user_msgs := user_msgs w\<rparr> \<and> user_msgs u r = Some q \<and>
          closure_decides E Z L M S evb this conn cb (drop 4 rep) r d (w1\<lparr>ext := s\<rparr>) u))"
proof -
  let ?out = "\<lparr>oc_response = r, oc_done = d\<rparr>" and ?e = "error_msg L i NO_SERVICE"
  obtain w1 where w1: "CallMethod E Z L M S this method request r d w = Inr w1"
      "channels w1 = (channels w)(this \<mapsto> ch\<lparr>outstandings := AList.update i ?out (outstandings ch)\<rparr>)"
      "map_of (outstandings ch) i = None" "user_msgs w1 = user_msgs w" "closures w1 = closures w"
      "store w1 = store w" "live_bevs w1 = live_bevs w" "writes evb w1 conn b req"
    using CallMethod_frame [OF assms(1-4,6,8,9), of r d] assms(5) unfolding assms(14,15) by auto
  have req: "sendable L (request_of L S i method request)"
      "fits mRpc (SerializeWithCachedSizesToArray L (request_of L S i method request))"
    using assms(9) unfolding request_of_def
    by (auto intro!: rpc_stack.sendable_msgs [OF assms(1)] rpc_stack.fits_msgs [OF assms(1)])
  have server: "\<exists>v1. channel_onMessage E Z L M S sthis sconn v = Some (Inr v1) \<and> reads evb v1 sconn rb [] \<and> writes evb v1 sconn wb rep"
    if "channels v sthis = Some (setServices p (RpcChannel_conn sconn))" "sthis \<noteq> NULL" "sconn \<noteq> NULL"
      "reads evb v sconn rb req" "writes evb v sconn wb []" "rb \<noteq> wb" for v sthis sconn p rb wb
    using idle_answers_request [where S = S and this = sthis, OF assms(1) _ that(3) req request_of_gets(1)
        that(4) [unfolded assms(15)] that(6)] idle_new_channel [OF that(1,2,5)] by (auto simp: request_of_gets assms(16))
  have client: "\<exists>u. u = w1\<lparr>ext := ext u, channels := channels w, user_msgs := user_msgs w\<rparr> \<and> user_msgs u r = Some q \<and>
      closure_decides E Z L M S evb this conn cb (drop 4 rep) r d (w1\<lparr>ext := s\<rparr>) u"
    if "reads evb (w1\<lparr>ext := s\<rparr>) conn cb rep" for s cb
    by (rule error_reply_completes [OF assms(1,2) w1(2-5) assms(3,7,10-13,16) that])
  have "view (request_of L S i method request) =
      request_view i (method_service_full_name S method) (method_name S method) (q_SerializeAsString S request)"
    "view ?e = error_view i NO_SERVICE"
    by (simp_all add: request_of_def view_msgs)
  then show ?thesis
    using w1(1,6-8) server client by blast
qed

theorem call_without_services_witness:
  "\<exists>w1 v1 u'. CallMethod chunked ref_adler32 ref_wire (rpc_vtable ref_wire) S0 30 41 [1, 2, 3] 20 25 (rpc_world [] [] ch0) = Inr w1 \<and>
     channel_onMessage chunked ref_adler32 ref_wire (rpc_vtable ref_wire) S0 30 3
       (rpc_world (frame ref_adler32 mRpc (SerializeWithCachedSizesToArray ref_wire (request_of ref_wire S0 7 41 [1, 2, 3]))) []
          (setServices 35 (RpcChannel_conn 3))) = Some (Inr v1) \<and>
     writes ch_evb v1 3 2 (frame ref_adler32 mRpc (SerializeWithCachedSizesToArray ref_wire (error_msg ref_wire 7 NO_SERVICE))) \<and>
     channel_onMessage chunked ref_adler32 ref_wire (rpc_vtable ref_wire) S0 30 3 (w1\<lparr>ext := \<lparr>cl_bufs =
         [Some [frame ref_adler32 mRpc (SerializeWithCachedSizesToArray ref_wire (error_msg ref_wire 7 NO_SERVICE))], Some []]\<rparr>\<rparr>) =
       Some (Inr u') \<and> user_msgs u' 20 = None \<and> 25 \<notin> closures u'"
proof -
  let ?w = "rpc_world [] [] ch0"
  let ?req = "frame ref_adler32 mRpc (SerializeWithCachedSizesToArray ref_wire (request_of ref_wire S0 7 41 [1, 2, 3]))"
  let ?rep = "frame ref_adler32 mRpc (SerializeWithCachedSizesToArray ref_wire (error_msg ref_wire 7 NO_SERVICE))"
  have c: "channels ?w 30 = Some ch0" "(30 :: nat) \<noteq> NULL" "ids_ok (rpc_id ?w) ch0" "sint (rpc_id ?w) \<noteq> 2 ^ 31 - 1"
      "ch_conn ch0 = Some 3" "(3 :: nat) \<noteq> NULL" "(20 :: nat) \<noteq> NULL" "user_msgs ?w 20 = Some []" "(25 :: nat) \<noteq> NULL"
      "25 \<in> closures ?w" "7 = (scast (rpc_id ?w + 1) :: int64)"
    by (simp_all add: ids_ok_def ch0_def RpcChannel_conn_def)
  have l: "length (method_service_full_name S0 41) + length (method_name S0 41) + length (q_SerializeAsString S0 [1, 2, 3]) \<le> 67108000"
    by (simp add: S0_def)
  obtain w1 where w1: "CallMethod chunked ref_adler32 ref_wire (rpc_vtable ref_wire) S0 30 41 [1, 2, 3] 20 25 ?w = Inr w1"
      "store w1 = store ?w"
    and server: "\<And>v sthis sconn p rb wb.
       channels v sthis = Some (setServices p (RpcChannel_conn sconn)) \<and> sthis \<noteq> NULL \<and> sconn \<noteq> NULL \<and>
       reads ch_evb v sconn rb ?req \<and> writes ch_evb v sconn wb [] \<and> rb \<noteq> wb \<Longrightarrow>
       \<exists>v1. channel_onMessage chunked ref_adler32 ref_wire (rpc_vtable ref_wire) S0 sthis sconn v = Some (Inr v1) \<and>
          reads ch_evb v1 sconn rb [] \<and> writes ch_evb v1 sconn wb ?rep"
    and client: "\<And>s cb. reads ch_evb (w1\<lparr>ext := s\<rparr>) 3 cb ?rep \<Longrightarrow>
       \<exists>u. u = w1\<lparr>ext := ext u, channels := channels ?w, user_msgs := user_msgs ?w\<rparr> \<and> user_msgs u 20 = Some [] \<and>
          closure_decides chunked ref_adler32 ref_wire (rpc_vtable ref_wire) S0 ch_evb 30 3 cb (drop 4 ?rep) 20 25 (w1\<lparr>ext := s\<rparr>) u"
    using call_without_services [OF stack.rpc_stack_axioms c(1-6) rpc_world_buffers(2) l c(7-11) refl refl] by metis
  let ?v = "rpc_world ?req [] (setServices 35 (RpcChannel_conn 3))" and ?s = "\<lparr>cl_bufs = [Some [?rep], Some []]\<rparr>"
  have "reads ch_evb (w1\<lparr>ext := ?s\<rparr>) 3 1 ?rep"
    using rpc_world_cells [of "[]" "[]" ch0] w1(2) by (simp add: reads_def sample_conn_def ch_evb_def ch_at_def)
  from client [OF this] obtain u where u: "user_msgs u 20 = Some []" "reads ch_evb u 3 1 (drop 4 ?rep)"
    and ends: "\<And>u'. run_closure S0 25 u = Inr u' \<and> user_msgs u' 20 \<noteq> None \<and> reads ch_evb u' 3 1 (drop 4 ?rep) \<Longrightarrow>
        \<exists>s. channel_onMessage chunked ref_adler32 ref_wire (rpc_vtable ref_wire) S0 30 3 (w1\<lparr>ext := ?s\<rparr>) =
            Some (Inr (u'\<lparr>user_msgs := (user_msgs u')(20 := None), ext := s\<rparr>))"
    unfolding closure_decides_def by blast
  have "run_closure S0 25 u = Inr (u\<lparr>closures := closures u - {25}\<rparr>)" "reads ch_evb (u\<lparr>closures := closures u - {25}\<rparr>) 3 1 (drop 4 ?rep)"
    using u(2) by (simp_all add: S0_def reads_def)
  with ends [of "u\<lparr>closures := closures u - {25}\<rparr>"] u(1)
  obtain s where "channel_onMessage chunked ref_adler32 ref_wire (rpc_vtable ref_wire) S0 30 3 (w1\<lparr>ext := ?s\<rparr>) =
      Some (Inr (u\<lparr>closures := closures u - {25}, user_msgs := (user_msgs u)(20 := None), ext := s\<rparr>))"
    by auto
  moreover obtain v1 where "channel_onMessage chunked ref_adler32 ref_wire (rpc_vtable ref_wire) S0 30 3 ?v = Some (Inr v1)"
      "writes ch_evb v1 3 2 ?rep"
    using server [of ?v 30 35 3 1 2] rpc_world_buffers by auto
  ultimately show ?thesis
    using w1(1) by fastforce
qed

end
